theory Spec2Isabelle
  imports Main "HOL-Library.Sublist"
begin

chapter \<open>Theia remote: SSH connection, remote setup and request routing\<close>

text \<open>
  A shallow embedding of the remote package: \<^verbatim>\<open>RemoteSetupService\<close>
  (remote-setup-service.ts), \<^verbatim>\<open>RemoteSSHConnectionProviderImpl\<close> and
  \<^verbatim>\<open>RemoteSSHConnection\<close> (remote-ssh-connection-provider.ts) and
  \<^verbatim>\<open>RemoteExpressProxyContribution\<close> (remote-express-proxy-contribution.ts).

  Every asynchronous operation is a function from the state of the outside world
  (type \<open>'w\<close>: the remote host, the local file system, the user at the prompt) to an
  outcome and the next world. A rejected promise or a thrown \<^verbatim>\<open>Error\<close> is the
  \<open>Inl\<close> branch of the outcome; \<^verbatim>\<open>await\<close> on it leaves the enclosing function
  with the same error. JavaScript truthiness of a string is \<open>s \<noteq> []\<close>.
\<close>

section \<open>Definitions\<close>

subsection \<open>Execution results and errors\<close>

record RemoteExecResult =
  stdout :: string
  stderr :: string

text \<open>
  \<open>TransportError\<close>: a promise of the connection was rejected. \<open>Error\<close>: the message of
  a \<^verbatim>\<open>throw new Error(...)\<close> in the modelled code.
\<close>

datatype error = TransportError string | Error string

type_synonym ('w, 'a) async = "'w \<Rightarrow> (error + 'a) \<times> 'w"

text \<open>\<^verbatim>\<open>String.prototype.includes\<close>: the argument occurs as a contiguous substring.\<close>

definition str_includes :: "string \<Rightarrow> string \<Rightarrow> bool" where
  "str_includes s sub = sublist sub s"

subsection \<open>The connection as the setup service sees it\<close>

text \<open>
  The \<^verbatim>\<open>RemoteConnection\<close> interface. \<open>exec cmd args\<close> and \<open>execPartial cmd tester args\<close>
  take the empty list where the caller passes no \<^verbatim>\<open>args\<close>; the field
  \<^verbatim>\<open>remotePort\<close> is written once, by \<^verbatim>\<open>setup\<close>, and is modelled as the value
  \<^verbatim>\<open>setup\<close> returns.
\<close>

record 'w RemoteConnection =
  exec :: "string \<Rightarrow> string list \<Rightarrow> ('w, RemoteExecResult) async"
  execPartial :: "string \<Rightarrow> (string \<Rightarrow> string \<Rightarrow> bool) \<Rightarrow> string list \<Rightarrow> ('w, RemoteExecResult) async"
  copy :: "string \<Rightarrow> string \<Rightarrow> ('w, unit) async"

datatype RemotePlatform = windows | linux | darwin

subsection \<open>\<^verbatim>\<open>RemoteSetupService.retry\<close>\<close>

text \<open>
  \<^verbatim>\<open>
  let result = { stderr: '', stdout: '' };
  while (times-- > 0) {
      result = await action();
      if (result.stderr || result.stdout) { return result; }
  }
  return result;
  \<close>
  \<open>retry_loop\<close> is the loop with the local variable \<open>result\<close>; its second argument
  is \<^verbatim>\<open>times\<close>, the number of iterations still allowed.
\<close>

fun retry_loop :: "('w, RemoteExecResult) async \<Rightarrow> nat \<Rightarrow> RemoteExecResult \<Rightarrow> ('w, RemoteExecResult) async" where
  "retry_loop action 0 result w = (Inr result, w)"
| "retry_loop action (Suc n) result w =
     (case action w of
        (Inl e, w') \<Rightarrow> (Inl e, w')
      | (Inr r, w') \<Rightarrow>
          if stderr r \<noteq> [] \<or> stdout r \<noteq> [] then (Inr r, w')
          else retry_loop action n r w')"

definition retry :: "('w, RemoteExecResult) async \<Rightarrow> nat \<Rightarrow> ('w, RemoteExecResult) async" where
  "retry action n w = retry_loop action n \<lparr>stdout = [], stderr = []\<rparr> w"

text \<open>The default of the parameter \<^verbatim>\<open>times\<close>; every caller in the service uses it.\<close>

definition DEFAULT_TIMES :: nat where
  "DEFAULT_TIMES = 20"

subsection \<open>\<^verbatim>\<open>detectRemotePlatform\<close> and \<^verbatim>\<open>dirExistsRemote\<close>\<close>

text \<open>
  \<^verbatim>\<open>
  const result = await this.retry(() => connection.exec('uname -s'));
  if (result.stderr) {
      return 'windows';
  } else if (result.stdout) {
      if (result.stdout.includes('windows32') || result.stdout.includes('MINGW64')) {
          return 'windows';
      } else if (result.stdout.includes('Linux')) {
          return 'linux';
      } else if (result.stdout.includes('Darwin')) {
          return 'darwin';
      }
  }
  throw new Error('Failed to identify remote system: ' + result.stdout + '\n' + result.stderr);
  \<close>
\<close>

definition detectRemotePlatform :: "'w RemoteConnection \<Rightarrow> ('w, RemotePlatform) async" where
  "detectRemotePlatform connection w =
     (case retry (exec connection ''uname -s'' []) DEFAULT_TIMES w of
        (Inl e, w') \<Rightarrow> (Inl e, w')
      | (Inr result, w') \<Rightarrow>
          (if stderr result \<noteq> [] then Inr windows
           else if stdout result \<noteq> [] then
             (if str_includes (stdout result) ''windows32'' \<or> str_includes (stdout result) ''MINGW64''
                then Inr windows
              else if str_includes (stdout result) ''Linux'' then Inr linux
              else if str_includes (stdout result) ''Darwin'' then Inr darwin
              else Inl (Error (''Failed to identify remote system: '' @ stdout result @ [CHR 0x0A] @ stderr result)))
           else Inl (Error (''Failed to identify remote system: '' @ stdout result @ [CHR 0x0A] @ stderr result)),
           w'))"

text \<open>
  \<^verbatim>\<open>
  const cdResult = await this.retry(() => connection.exec(`cd "${remotePath}";echo "Success"`));
  return Boolean(cdResult.stdout);
  \<close>
\<close>

definition dirExistsRemote :: "'w RemoteConnection \<Rightarrow> string \<Rightarrow> ('w, bool) async" where
  \<open>dirExistsRemote connection remotePath w =
     (case retry (exec connection (''cd "'' @ remotePath @ ''";echo "Success"'') []) DEFAULT_TIMES w of
        (Inl e, w') \<Rightarrow> (Inl e, w')
      | (Inr cdResult, w') \<Rightarrow> (Inr (stdout cdResult \<noteq> []), w'))\<close>

subsection \<open>Observing the calls on a connection\<close>

text \<open>
  The calls a function makes on its collaborators are observed from outside: \<open>traced\<close>
  wraps a connection so that every call is appended to a log carried beside the world.
  The modelled functions do not know about the log.
\<close>

datatype call =
    Exec string "string list"
  | ExecPartial string "string list"
  | Copy string string
  | Request string
  | WriteFile string
  | CopyToRemote string

definition traced :: "'w RemoteConnection \<Rightarrow> ('w \<times> call list) RemoteConnection" where
  "traced c =
     \<lparr>exec = (\<lambda>cmd args (w, tr). case exec c cmd args w of (r, w') \<Rightarrow> (r, (w', tr @ [Exec cmd args]))),
      execPartial = (\<lambda>cmd tester args (w, tr).
         case execPartial c cmd tester args w of (r, w') \<Rightarrow> (r, (w', tr @ [ExecPartial cmd args]))),
      copy = (\<lambda>localPath remotePath (w, tr).
         case copy c localPath remotePath w of (r, w') \<Rightarrow> (r, (w', tr @ [Copy localPath remotePath])))\<rparr>"

subsection \<open>Observing invocations\<close>

text \<open>
  To count how often an action is invoked, the action is run on a world paired with a
  counter that every invocation increments. \<open>world_after action w k\<close> is the world after
  \<open>k\<close> successive invocations, and \<open>outcome_at action w k\<close> what invocation number \<open>k\<close>
  (counting from 0) returns.
\<close>

definition counted :: "('w \<Rightarrow> 'a \<times> 'w) \<Rightarrow> ('w \<times> nat \<Rightarrow> 'a \<times> ('w \<times> nat))" where
  "counted action = (\<lambda>(w, n). case action w of (r, w') \<Rightarrow> (r, (w', Suc n)))"

primrec world_after :: "('w \<Rightarrow> 'a \<times> 'w) \<Rightarrow> 'w \<Rightarrow> nat \<Rightarrow> 'w" where
  "world_after action w 0 = w"
| "world_after action w (Suc k) = snd (action (world_after action w k))"

definition outcome_at :: "('w \<Rightarrow> 'a \<times> 'w) \<Rightarrow> 'w \<Rightarrow> nat \<Rightarrow> 'a" where
  "outcome_at action w k = fst (action (world_after action w k))"

text \<open>
  An outcome that lets the loop of \<open>retry\<close> go on: a result whose streams are both
  empty. Every other outcome (a result with some output, or a rejection) ends it.
\<close>

definition empty_result :: "error + RemoteExecResult \<Rightarrow> bool" where
  "empty_result out = (case out of Inl e \<Rightarrow> False | Inr r \<Rightarrow> stderr r = [] \<and> stdout r = [])"

subsection \<open>\<^verbatim>\<open>RemoteSSHConnection.execPartial\<close>\<close>

text \<open>
  \<^verbatim>\<open>Deferred\<close> of \<^verbatim>\<open>@theia/core/lib/common/promise-util\<close> is not among the sources,
  and the specification does not describe it. It is modelled as that module defines it:
  \<^verbatim>\<open>
  state: 'resolved' | 'rejected' | 'unresolved' = 'unresolved';
  promise = new Promise<T>((resolve, reject) => { this.resolve = resolve; this.reject = reject; })
      .then(res => (this.setState('resolved'), res),
            err => (this.setState('rejected'), Promise.reject(err)));
  protected setState(state) { if (this.state === 'unresolved') { this.state = state; } }
  \<close>
  \<^verbatim>\<open>resolve\<close> and \<^verbatim>\<open>reject\<close> settle the promise, which keeps the first outcome it is
  settled with (\<open>settled\<close>, \<open>None\<close> while it is pending). The field \<^verbatim>\<open>state\<close> changes in
  the callbacks of \<^verbatim>\<open>then\<close> (\<open>run_then\<close>), and those run as a microtask: when the code
  that called \<^verbatim>\<open>resolve\<close> and every other handler of the same turn of the event loop has
  returned, not inside \<^verbatim>\<open>resolve\<close>.
\<close>

datatype DeferredState = unresolved | resolved | rejected

record 'a Deferred =
  settled :: "(error + 'a) option"
  state :: DeferredState

definition resolve :: "'a \<Rightarrow> 'a Deferred \<Rightarrow> 'a Deferred" where
  "resolve res d = (if settled d = None then d\<lparr>settled := Some (Inr res)\<rparr> else d)"

definition reject :: "error \<Rightarrow> 'a Deferred \<Rightarrow> 'a Deferred" where
  "reject err d = (if settled d = None then d\<lparr>settled := Some (Inl err)\<rparr> else d)"

definition run_then :: "'a Deferred \<Rightarrow> 'a Deferred" where
  "run_then d =
     (case settled d of
        None \<Rightarrow> d
      | Some (Inr res) \<Rightarrow> if state d = unresolved then d\<lparr>state := resolved\<rparr> else d
      | Some (Inl err) \<Rightarrow> if state d = unresolved then d\<lparr>state := rejected\<rparr> else d)"

text \<open>
  What the stream of one \<^verbatim>\<open>client.exec\<close> emits: \<^verbatim>\<open>'data'\<close> on the stream
  (\<open>Stdout\<close>), \<^verbatim>\<open>'data'\<close> on \<^verbatim>\<open>stream.stderr\<close> (\<open>Stderr\<close>) and \<^verbatim>\<open>'close'\<close>.
\<close>

datatype chunk = Stdout string | Stderr string

datatype event = Chunk chunk | Close

text \<open>
  The variables the three handlers of \<^verbatim>\<open>execPartial\<close> share: the locals
  \<^verbatim>\<open>stdout\<close> and \<^verbatim>\<open>stderr\<close>, and the deferred result. A tester is a JavaScript
  function, so it may have effects of its own: it runs on a state \<open>'t\<close>, kept here too.
\<close>

record 't ExecPartialRun =
  stdout_buf :: string
  stderr_buf :: string
  deferred :: "RemoteExecResult Deferred"
  tester_state :: 't

type_synonym 't RemoteExecTester = "string \<Rightarrow> string \<Rightarrow> 't \<Rightarrow> bool \<times> 't"

text \<open>
  \<^verbatim>\<open>
  if (tester(stdout, stderr)) { deferred.resolve({ stdout, stderr }); }
  \<close>
\<close>

definition test_and_resolve :: "'t RemoteExecTester \<Rightarrow> 't ExecPartialRun \<Rightarrow> 't ExecPartialRun" where
  "test_and_resolve tester s =
     (case tester (stdout_buf s) (stderr_buf s) (tester_state s) of
        (b, t') \<Rightarrow>
          if b then s\<lparr>tester_state := t',
                     deferred := resolve \<lparr>stdout = stdout_buf s, stderr = stderr_buf s\<rparr> (deferred s)\<rparr>
          else s\<lparr>tester_state := t'\<rparr>)"

text \<open>
  \<^verbatim>\<open>
  .on('data', data => {
      if (deferred.state === 'unresolved') {
          stdout += data.toString();
          if (tester(stdout, stderr)) { deferred.resolve({ stdout, stderr }); }
      }
  })
  \<close>
  and the same on \<^verbatim>\<open>stream.stderr\<close> with \<^verbatim>\<open>stderr += data.toString()\<close>.
\<close>

definition on_data :: "'t RemoteExecTester \<Rightarrow> string \<Rightarrow> 't ExecPartialRun \<Rightarrow> 't ExecPartialRun" where
  "on_data tester data s =
     (if state (deferred s) = unresolved
      then test_and_resolve tester (s\<lparr>stdout_buf := stdout_buf s @ data\<rparr>)
      else s)"

definition on_stderr_data :: "'t RemoteExecTester \<Rightarrow> string \<Rightarrow> 't ExecPartialRun \<Rightarrow> 't ExecPartialRun" where
  "on_stderr_data tester data s =
     (if state (deferred s) = unresolved
      then test_and_resolve tester (s\<lparr>stderr_buf := stderr_buf s @ data\<rparr>)
      else s)"

text \<open>
  \<^verbatim>\<open>
  stream.on('close', () => {
      if (deferred.state === 'unresolved') { deferred.resolve({ stdout, stderr }); }
  })
  \<close>
\<close>

definition on_close :: "'t ExecPartialRun \<Rightarrow> 't ExecPartialRun" where
  "on_close s =
     (if state (deferred s) = unresolved
      then s\<lparr>deferred := resolve \<lparr>stdout = stdout_buf s, stderr = stderr_buf s\<rparr> (deferred s)\<rparr>
      else s)"

fun emit :: "'t RemoteExecTester \<Rightarrow> 't ExecPartialRun \<Rightarrow> event \<Rightarrow> 't ExecPartialRun" where
  "emit tester s (Chunk (Stdout data)) = on_data tester data s"
| "emit tester s (Chunk (Stderr data)) = on_stderr_data tester data s"
| "emit tester s Close = on_close s"

text \<open>
  One turn of the event loop: the events that the stream emits while one piece of input
  from the socket is handled (ssh2 emits \<^verbatim>\<open>'data'\<close> for every channel packet it finds in
  that input) run their handlers one after the other, and the callbacks of \<^verbatim>\<open>then\<close> run
  when the last of them has returned.
\<close>

definition turn :: "'t RemoteExecTester \<Rightarrow> 't ExecPartialRun \<Rightarrow> event list \<Rightarrow> 't ExecPartialRun" where
  "turn tester s events =
     (let s' = foldl (emit tester) s events
      in s'\<lparr>deferred := run_then (deferred s')\<rparr>)"

definition initial :: "'t \<Rightarrow> 't ExecPartialRun" where
  "initial t = \<lparr>stdout_buf = [], stderr_buf = [], deferred = \<lparr>settled = None, state = unresolved\<rparr>,
     tester_state = t\<rparr>"

text \<open>
  \<^verbatim>\<open>
  const escapedArgs = args?.map(arg => `"${arg.replace(/"/g, '\\"')}"`) || [];
  const fullCmd = cmd + (escapedArgs.length > 0 ? (' ' + escapedArgs.join(' ')) : '');
  \<close>
\<close>

fun join :: "string \<Rightarrow> string list \<Rightarrow> string" where
  "join sep [] = []"
| "join sep [x] = x"
| "join sep (x # y # ys) = x @ sep @ join sep (y # ys)"

definition escapeArg :: "string \<Rightarrow> string" where
  "escapeArg arg =
     [CHR 0x22] @ concat (map (\<lambda>c. if c = CHR 0x22 then [CHR 0x5C, CHR 0x22] else [c]) arg) @ [CHR 0x22]"

definition buildCmd :: "string \<Rightarrow> string list \<Rightarrow> string" where
  "buildCmd cmd args =
     (let escapedArgs = map escapeArg args
      in cmd @ (if length escapedArgs > 0 then '' '' @ join '' '' escapedArgs else []))"

text \<open>
  \<open>ssh_execPartial\<close> is \<^verbatim>\<open>RemoteSSHConnection.execPartial\<close>. \<open>client_exec\<close> stands for
  \<^verbatim>\<open>this.client.exec\<close> of ssh2: it calls back with an error, or with a stream, given
  here by the events the stream emits, in order and turn by turn. The function returns
  what the promise it hands out is settled with once those events are handled (\<open>None\<close>
  when it is still pending), and the state the tester is left in; \<open>t\<close> is the state the
  tester starts in.
  \<^verbatim>\<open>
  const deferred = new Deferred<RemoteExecResult>();
  cmd = this.buildCmd(cmd, args);
  this.client.exec(cmd, options, (err, stream) => {
      if (err) { return deferred.reject(err); }
      let stdout = '';
      let stderr = '';
      stream.on('close', ...).on('data', ...).stderr.on('data', ...);
  });
  return deferred.promise;
  \<close>
\<close>

definition ssh_execPartial ::
  "(string \<Rightarrow> ('w, event list list) async) \<Rightarrow> string \<Rightarrow> 't RemoteExecTester \<Rightarrow> string list \<Rightarrow> 't \<Rightarrow> 'w
     \<Rightarrow> ((error + RemoteExecResult) option \<times> 't) \<times> 'w" where
  "ssh_execPartial client_exec cmd tester args t w =
     (case client_exec (buildCmd cmd args) w of
        (Inl err, w') \<Rightarrow> ((settled (reject err (deferred (initial t))), t), w')
      | (Inr turns, w') \<Rightarrow>
          (let s = foldl (turn tester) (initial t) turns
           in ((settled (deferred s), tester_state s), w')))"

text \<open>
  For the statements about \<open>ssh_execPartial\<close>. \<open>logging P\<close> is the tester that decides by
  the predicate \<open>P\<close> and records the buffers of every invocation. \<open>accumulated cs\<close> are
  the two buffers after the chunks \<open>cs\<close>; \<open>holds_after P cs k\<close> says that \<open>P\<close> holds of the
  buffers after the first \<open>k\<close> chunks; \<open>first_hit P cs\<close> is the least such \<open>k\<close> from 1 to
  the number of chunks, if there is one; \<open>seen cs k\<close> are the buffers after 1, 2, ...,
  \<open>k\<close> chunks.
\<close>

definition logging :: "(string \<Rightarrow> string \<Rightarrow> bool) \<Rightarrow> (string \<times> string) list RemoteExecTester" where
  "logging P out err log = (P out err, log @ [(out, err)])"

fun stdout_of :: "chunk \<Rightarrow> string" where
  "stdout_of (Stdout d) = d"
| "stdout_of (Stderr d) = []"

fun stderr_of :: "chunk \<Rightarrow> string" where
  "stderr_of (Stdout d) = []"
| "stderr_of (Stderr d) = d"

definition accumulated :: "chunk list \<Rightarrow> RemoteExecResult" where
  "accumulated cs = \<lparr>stdout = concat (map stdout_of cs), stderr = concat (map stderr_of cs)\<rparr>"

definition holds_after :: "(string \<Rightarrow> string \<Rightarrow> bool) \<Rightarrow> chunk list \<Rightarrow> nat \<Rightarrow> bool" where
  "holds_after P cs k = P (stdout (accumulated (take k cs))) (stderr (accumulated (take k cs)))"

definition first_hit :: "(string \<Rightarrow> string \<Rightarrow> bool) \<Rightarrow> chunk list \<Rightarrow> nat option" where
  "first_hit P cs = find (holds_after P cs) [1..<Suc (length cs)]"

definition seen :: "chunk list \<Rightarrow> nat \<Rightarrow> (string \<times> string) list" where
  "seen cs k = map (\<lambda>j. (stdout (accumulated (take j cs)), stderr (accumulated (take j cs)))) [1..<Suc k]"

text \<open>
  The turns of a stream laid out in one sequence: the handler of each event, and the
  microtasks at the end of each turn. \<open>events_of\<close> are the events of such a sequence.
\<close>

datatype task = Handle event | Microtasks

fun run_task :: "'t RemoteExecTester \<Rightarrow> 't ExecPartialRun \<Rightarrow> task \<Rightarrow> 't ExecPartialRun" where
  "run_task tester s (Handle ev) = emit tester s ev"
| "run_task tester s Microtasks = s\<lparr>deferred := run_then (deferred s)\<rparr>"

definition tasks_of :: "event list list \<Rightarrow> task list" where
  "tasks_of turns = concat (map (\<lambda>events. map Handle events @ [Microtasks]) turns)"

fun events_of :: "task list \<Rightarrow> event list" where
  "events_of [] = []"
| "events_of (Handle ev # xs) = ev # events_of xs"
| "events_of (Microtasks # xs) = events_of xs"

subsection \<open>\<^verbatim>\<open>RemoteSSHConnectionProviderImpl.getAuthHandler\<close>\<close>

text \<open>
  Modelled from the spec: \<^verbatim>\<open>SSHKey\<close> of \<^verbatim>\<open>ssh-identity-file-collector.ts\<close>, which is
  not among the sources (a credential candidate: private-key material or a key-file path,
  and whether it is already decrypted). These are the fields the handler reads.
\<close>

datatype ParsedKey = ParsedKey string

record SSHKey =
  filename :: string
  parsedKey :: ParsedKey
  isPrivate :: bool

text \<open>
  What \<^verbatim>\<open>ssh2.utils.parseKey\<close> returns: an \<^verbatim>\<open>Error\<close> with its message, a key, or
  an array of keys.
\<close>

datatype ParseResult = ParseError string | Parsed ParsedKey | ParsedList "ParsedKey list"

text \<open>
  What the handler passes to the callback of ssh2: an authentication method to try with
  the user name and the credential, \<open>NEXT_AUTH\<close> (\<^verbatim>\<open>null\<close>: go on with the next
  authentication) or \<open>END_AUTH\<close> (\<^verbatim>\<open>false\<close>: the authentication has failed). The key
  of \<open>AuthPublicKey\<close> is \<^verbatim>\<open>undefined\<close> when the parser returned an empty array.
\<close>

datatype AuthenticationType =
    AuthNone string
  | AuthPublicKey string "ParsedKey option"
  | AuthPassword string string
  | AuthKeyboardInteractive string
  | NEXT_AUTH
  | END_AUTH

text \<open>
  The variables the handler closes over: \<^verbatim>\<open>passwordRetryCount\<close>,
  \<^verbatim>\<open>keyboardRetryCount\<close> and the array \<^verbatim>\<open>identityKeys\<close>, which
  \<^verbatim>\<open>shift()\<close> shortens in place. They are set when \<^verbatim>\<open>getAuthHandler\<close> is called,
  once per connection attempt, from the fields \<^verbatim>\<open>passwordRetryCount = 3\<close> and
  \<^verbatim>\<open>passphraseRetryCount = 3\<close> of the provider.
\<close>

record AuthState =
  passwordRetryCount :: int
  keyboardRetryCount :: int
  identityKeys :: "SSHKey list"

definition this_passwordRetryCount :: int where
  "this_passwordRetryCount = 3"

definition this_passphraseRetryCount :: int where
  "this_passphraseRetryCount = 3"

definition getAuthHandler :: "SSHKey list \<Rightarrow> AuthState" where
  "getAuthHandler identityKeys' =
     \<lparr>passwordRetryCount = this_passwordRetryCount,
      keyboardRetryCount = this_passphraseRetryCount,
      identityKeys = identityKeys'\<rparr>"

text \<open>
  What the handler asks of its surroundings: \<open>input title password\<close> is
  \<^verbatim>\<open>quickInputService.input({ title, password })\<close>, answered by the user with a string
  or with \<^verbatim>\<open>undefined\<close>; \<open>pathExists\<close> and \<open>readFile\<close> are those of \<^verbatim>\<open>fs\<close>;
  \<open>parseKey buffer passphrase\<close> is \<^verbatim>\<open>ssh2.utils.parseKey\<close>.
\<close>

record 'w AuthEnv =
  input :: "string \<Rightarrow> bool \<Rightarrow> 'w \<Rightarrow> string option \<times> 'w"
  pathExists :: "string \<Rightarrow> 'w \<Rightarrow> bool \<times> 'w"
  readFile :: "string \<Rightarrow> ('w, string) async"
  parseKey :: "string \<Rightarrow> string option \<Rightarrow> ParseResult"

definition isError :: "ParseResult \<Rightarrow> bool" where
  "isError result = (case result of ParseError m \<Rightarrow> True | _ \<Rightarrow> False)"

text \<open>
  \<^verbatim>\<open>
  while (result instanceof Error && passphraseRetryCount > 0) {
      const passphrase = await this.quickInputService.input({
          title: `Enter passphrase for ${identityKey.filename}`, password: true });
      if (!passphrase) { break; }
      result = ssh2.utils.parseKey(keyBuffer, passphrase);
      passphraseRetryCount--;
  }
  \<close>
\<close>

fun passphrase_loop :: "'w AuthEnv \<Rightarrow> string \<Rightarrow> string \<Rightarrow> ParseResult \<Rightarrow> nat \<Rightarrow> 'w \<Rightarrow> ParseResult \<times> 'w" where
  "passphrase_loop env file keyBuffer result 0 w = (result, w)"
| "passphrase_loop env file keyBuffer result (Suc n) w =
     (if isError result then
        (case input env (''Enter passphrase for '' @ file) True w of
           (None, w') \<Rightarrow> (result, w')
         | (Some passphrase, w') \<Rightarrow>
             if passphrase = [] then (result, w')
             else passphrase_loop env file keyBuffer (parseKey env keyBuffer (Some passphrase)) n w')
      else (result, w))"

text \<open>
  The body of the \<^verbatim>\<open>publickey\<close> branch of the handler, after
  \<^verbatim>\<open>const identityKey = identityKeys.shift()!\<close>:
  \<^verbatim>\<open>
  if (identityKey.isPrivate) {
      return callback({ type: 'publickey', username: user, key: identityKey.parsedKey });
  }
  if (!await fs.pathExists(identityKey.filename)) { return callback(NEXT_AUTH); }
  const keyBuffer = await fs.promises.readFile(identityKey.filename);
  let result = ssh2.utils.parseKey(keyBuffer);
  if (result instanceof Error && result.message ===
          'Encrypted private OpenSSH key detected, but no passphrase given') {
      let passphraseRetryCount = this.passphraseRetryCount;
      while (...) { ... }
  }
  if (!result || result instanceof Error) { return callback(NEXT_AUTH); }
  const key = Array.isArray(result) ? result[0] : result;
  return callback({ type: 'publickey', username: user, key });
  \<close>
\<close>

definition tryIdentityKey :: "'w AuthEnv \<Rightarrow> string \<Rightarrow> SSHKey \<Rightarrow> 'w \<Rightarrow> (error + AuthenticationType) \<times> 'w" where
  "tryIdentityKey env user identityKey w =
     (if isPrivate identityKey then
        (Inr (AuthPublicKey user (Some (parsedKey identityKey))), w)
      else
        (case pathExists env (filename identityKey) w of
           (False, w1) \<Rightarrow> (Inr NEXT_AUTH, w1)
         | (True, w1) \<Rightarrow>
             (case readFile env (filename identityKey) w1 of
                (Inl e, w2) \<Rightarrow> (Inl e, w2)
              | (Inr keyBuffer, w2) \<Rightarrow>
                  (case (let result = parseKey env keyBuffer None
                         in if result = ParseError ''Encrypted private OpenSSH key detected, but no passphrase given''
                            then passphrase_loop env (filename identityKey) keyBuffer result
                                   (nat this_passphraseRetryCount) w2
                            else (result, w2)) of
                     (ParseError m, w3) \<Rightarrow> (Inr NEXT_AUTH, w3)
                   | (Parsed key, w3) \<Rightarrow> (Inr (AuthPublicKey user (Some key)), w3)
                   | (ParsedList keys, w3) \<Rightarrow>
                       (Inr (AuthPublicKey user (case keys of [] \<Rightarrow> None | key # _ \<Rightarrow> Some key)), w3)))))"

text \<open>
  The handler \<^verbatim>\<open>async (methodsLeft, _partialSuccess, callback) => ...\<close> that
  \<^verbatim>\<open>getAuthHandler\<close> returns. \<open>methodsLeft\<close> is \<open>None\<close> for \<^verbatim>\<open>null\<close>. The result
  is what the callback is called with (\<open>Inl\<close>: the handler threw before calling it, when
  reading the key file failed), the variables of the closure and the world afterwards.
  \<^verbatim>\<open>
  if (!methodsLeft) { return callback({ type: 'none', username: user }); }
  if (methodsLeft && methodsLeft.includes('publickey') && identityKeys.length) {
      const identityKey = identityKeys.shift()!;
      ...
  }
  if (methodsLeft && methodsLeft.includes('password') && passwordRetryCount > 0) {
      const password = await this.quickInputService.input({
          title: `Enter password for ${user}@${host}`, password: true });
      passwordRetryCount--;
      return callback(password ? { type: 'password', username: user, password } : END_AUTH);
  }
  if (methodsLeft && methodsLeft.includes('keyboard-interactive') && keyboardRetryCount > 0) {
      return callback({ type: 'keyboard-interactive', username: user, prompt: ... });
  }
  callback(END_AUTH);
  \<close>
\<close>

definition authHandler ::
  "'w AuthEnv \<Rightarrow> string \<Rightarrow> string \<Rightarrow> string list option \<Rightarrow> AuthState \<Rightarrow> 'w
     \<Rightarrow> (error + AuthenticationType) \<times> AuthState \<times> 'w" where
  "authHandler env user host methodsLeft st w =
     (case methodsLeft of
        None \<Rightarrow> (Inr (AuthNone user), st, w)
      | Some methods \<Rightarrow>
          if ''publickey'' \<in> set methods \<and> length (identityKeys st) \<noteq> 0 then
            (case tryIdentityKey env user (hd (identityKeys st)) w of
               (answer, w') \<Rightarrow> (answer, st\<lparr>identityKeys := tl (identityKeys st)\<rparr>, w'))
          else if ''password'' \<in> set methods \<and> passwordRetryCount st > 0 then
            (case input env (''Enter password for '' @ user @ ''@'' @ host) True w of
               (password, w1) \<Rightarrow>
                 (Inr (case password of
                         None \<Rightarrow> END_AUTH
                       | Some pw \<Rightarrow> if pw \<noteq> [] then AuthPassword user pw else END_AUTH),
                  st\<lparr>passwordRetryCount := passwordRetryCount st - 1\<rparr>, w1))
          else if ''keyboard-interactive'' \<in> set methods \<and> keyboardRetryCount st > 0 then
            (Inr (AuthKeyboardInteractive user), st, w)
          else (Inr END_AUTH, st, w))"

text \<open>
  The \<^verbatim>\<open>prompt\<close> function handed out with \<open>AuthKeyboardInteractive\<close>; ssh2 calls it
  with the prompts of the server.
  \<^verbatim>\<open>
  for (const prompt of prompts) {
      const response = await this.quickInputService.input({
          title: `(${user}@${host}) ${prompt.prompt}`, password: !prompt.echo });
      if (response === undefined) { keyboardRetryCount = 0; break; }
      responses.push(response);
  }
  keyboardRetryCount--;
  finish(responses);
  \<close>
\<close>

record Prompt =
  prompt :: string
  echo :: bool

fun ask_prompts :: "'w AuthEnv \<Rightarrow> string \<Rightarrow> string \<Rightarrow> Prompt list \<Rightarrow> string list \<Rightarrow> 'w \<Rightarrow> (string list \<times> bool) \<times> 'w" where
  "ask_prompts env user host [] responses w = ((responses, False), w)"
| "ask_prompts env user host (p # ps) responses w =
     (case input env (''('' @ user @ ''@'' @ host @ '') '' @ prompt p) (\<not> echo p) w of
        (None, w') \<Rightarrow> ((responses, True), w')
      | (Some response, w') \<Rightarrow> ask_prompts env user host ps (responses @ [response]) w')"

definition keyboardPrompt ::
  "'w AuthEnv \<Rightarrow> string \<Rightarrow> string \<Rightarrow> Prompt list \<Rightarrow> AuthState \<Rightarrow> 'w \<Rightarrow> string list \<times> AuthState \<times> 'w" where
  "keyboardPrompt env user host prompts st w =
     (case ask_prompts env user host prompts [] w of
        ((responses, cancelled), w') \<Rightarrow>
          (responses,
           st\<lparr>keyboardRetryCount := (if cancelled then 0 else keyboardRetryCount st) - 1\<rparr>,
           w'))"

text \<open>
  One connection attempt, as the handler sees it: ssh2 invokes the handler with the
  methods the server still accepts, and invokes the \<^verbatim>\<open>prompt\<close> function with the
  prompts of the server, in any order and any number of times. \<open>attempt\<close> runs such a
  sequence and collects what the handler answered.
\<close>

datatype AuthEvent = Invoke "string list option" | ServerPrompts "Prompt list"

fun attempt ::
  "'w AuthEnv \<Rightarrow> string \<Rightarrow> string \<Rightarrow> AuthEvent list \<Rightarrow> AuthState \<Rightarrow> 'w
     \<Rightarrow> (error + AuthenticationType) list \<times> AuthState \<times> 'w" where
  "attempt env user host [] st w = ([], st, w)"
| "attempt env user host (Invoke methodsLeft # evs) st w =
     (case authHandler env user host methodsLeft st w of
        (answer, st', w') \<Rightarrow>
          (case attempt env user host evs st' w' of
             (answers, st'', w'') \<Rightarrow> (answer # answers, st'', w'')))"
| "attempt env user host (ServerPrompts prompts # evs) st w =
     (case keyboardPrompt env user host prompts st w of
        (responses, st', w') \<Rightarrow> attempt env user host evs st' w')"

text \<open>
  Observing the prompts: \<open>prompted env\<close> is \<open>env\<close> with every title passed to
  \<open>input\<close> recorded beside the world. The password prompt of a connection attempt is the
  one titled \<^verbatim>\<open>Enter password for <user>@<host>\<close>.
\<close>

definition prompted :: "'w AuthEnv \<Rightarrow> ('w \<times> string list) AuthEnv" where
  "prompted env =
     \<lparr>input = (\<lambda>title password (w, titles).
         case input env title password w of (r, w') \<Rightarrow> (r, (w', titles @ [title]))),
      pathExists = (\<lambda>path (w, titles). case pathExists env path w of (r, w') \<Rightarrow> (r, (w', titles))),
      readFile = (\<lambda>path (w, titles). case readFile env path w of (r, w') \<Rightarrow> (r, (w', titles))),
      parseKey = parseKey env\<rparr>"

definition password_prompts :: "string \<Rightarrow> string \<Rightarrow> string list \<Rightarrow> nat" where
  "password_prompts user host titles =
     length (filter (\<lambda>title. title = ''Enter password for '' @ user @ ''@'' @ host) titles)"

definition password_answers :: "(error + AuthenticationType) list \<Rightarrow> nat" where
  "password_answers answers =
     length (filter (\<lambda>a. case a of Inr (AuthPassword u p) \<Rightarrow> True | _ \<Rightarrow> False) answers)"

subsection \<open>\<^verbatim>\<open>RemoteSetupService\<close>: paths and names\<close>

text \<open>\<open>await m f\<close>: \<^verbatim>\<open>const x = await m; f(x)\<close>; a rejection of \<open>m\<close> ends the function.\<close>

definition await :: "('w, 'a) async \<Rightarrow> ('a \<Rightarrow> ('w, 'b) async) \<Rightarrow> ('w, 'b) async" where
  "await m f w = (case m w of (Inl e, w') \<Rightarrow> (Inl e, w') | (Inr x, w') \<Rightarrow> f x w')"

definition return :: "'a \<Rightarrow> ('w, 'a) async" where
  "return x w = (Inr x, w)"

definition throw :: "error \<Rightarrow> ('w, 'a) async" where
  "throw e w = (Inl e, w)"

definition REMOTE_NODE_VERSION :: string where
  "REMOTE_NODE_VERSION = ''16.14.0''"

text \<open>
  The collaborators injected into the service, and what it reads of Node:
  \<open>request url\<close> is \<^verbatim>\<open>requestService.request({ url })\<close> and returns the buffer of the
  response; \<open>copyToRemote\<close> is that of the copy service (\<^verbatim>\<open>RemoteCopyService\<close>, not
  among the sources: it packages the local application and copies the archive to the
  given remote path); \<open>fs_pathExists\<close>, \<open>fs_writeFile\<close>, \<open>os_tmpdir\<close> and \<open>path_join\<close> are
  those of \<^verbatim>\<open>fs\<close>, \<^verbatim>\<open>os\<close> and \<^verbatim>\<open>path\<close> on the local machine; \<open>pck_name\<close> and
  \<open>pck_version\<close> are the fields of \<^verbatim>\<open>applicationPackage.pck\<close>.
\<close>

record 'w RemoteSetupService =
  request :: "string \<Rightarrow> ('w, string) async"
  copyToRemote :: "'w RemoteConnection \<Rightarrow> RemotePlatform \<Rightarrow> string \<Rightarrow> ('w, unit) async"
  fs_pathExists :: "string \<Rightarrow> 'w \<Rightarrow> bool \<times> 'w"
  fs_writeFile :: "string \<Rightarrow> string \<Rightarrow> ('w, unit) async"
  os_tmpdir :: string
  path_join :: "string \<Rightarrow> string \<Rightarrow> string"
  pck_name :: "string option"
  pck_version :: "string option"
  THEIA_VERSION :: string

text \<open>
  \<^verbatim>\<open>
  const separator = platform === 'windows' ? '\\' : '/';
  return segments.join(separator);
  \<close>
\<close>

definition joinRemotePath :: "RemotePlatform \<Rightarrow> string list \<Rightarrow> string" where
  "joinRemotePath platform segments =
     (let separator = (if platform = windows then [CHR 0x5C] else ''/'')
      in join separator segments)"

text \<open>
  \<^verbatim>\<open>name.replace(/[@<>:"\\|?*]/g, '').replace(/\//g, '-')\<close>
\<close>

definition cleanupDirectoryName :: "string \<Rightarrow> string" where
  "cleanupDirectoryName name' =
     map (\<lambda>c. if c = CHR ''/'' then CHR ''-'' else c)
       (filter (\<lambda>c. c \<notin> set [CHR ''@'', CHR ''<'', CHR ''>'', CHR '':'', CHR 0x22, CHR 0x5C, CHR ''|'', CHR ''?'', CHR ''*'']) name')"

text \<open>
  \<^verbatim>\<open>
  const appName = this.applicationPackage.pck.name || 'theia';
  const appVersion = this.applicationPackage.pck.version || THEIA_VERSION;
  return `${this.cleanupDirectoryName(`${appName}-${appVersion}`)}-remote`;
  \<close>
\<close>

definition getRemoteAppName :: "'w RemoteSetupService \<Rightarrow> string" where
  "getRemoteAppName svc =
     (let appName = (case pck_name svc of Some n \<Rightarrow> if n \<noteq> [] then n else ''theia'' | None \<Rightarrow> ''theia'');
          appVersion = (case pck_version svc of Some v \<Rightarrow> if v \<noteq> [] then v else THEIA_VERSION svc
                        | None \<Rightarrow> THEIA_VERSION svc)
      in cleanupDirectoryName (appName @ ''-'' @ appVersion) @ ''-remote'')"

definition platformName :: "RemotePlatform \<Rightarrow> string" where
  "platformName platform = (case platform of windows \<Rightarrow> ''windows'' | linux \<Rightarrow> ''linux'' | darwin \<Rightarrow> ''darwin'')"

text \<open>
  \<^verbatim>\<open>
  const platformId = platform === 'windows' ? 'win' : platform;
  const arch = 'x64';
  const dirName = `node-v${REMOTE_NODE_VERSION}-${platformId}-${arch}`;
  \<close>
\<close>

definition getNodeDirectoryName :: "RemotePlatform \<Rightarrow> string" where
  "getNodeDirectoryName platform =
     (let platformId = (if platform = windows then ''win'' else platformName platform);
          arch = ''x64''
      in ''node-v'' @ REMOTE_NODE_VERSION @ ''-'' @ platformId @ ''-'' @ arch)"

definition getNodeFileName :: "RemotePlatform \<Rightarrow> string" where
  "getNodeFileName platform =
     (let fileExtension =
            (if platform = windows then ''zip''
             else if platform = darwin then ''tar.gz''
             else ''tar.xz'')
      in getNodeDirectoryName platform @ ''.'' @ fileExtension)"

subsection \<open>\<^verbatim>\<open>RemoteSetupService\<close>: the steps of the setup\<close>

text \<open>
  \<^verbatim>\<open>String.prototype.trim\<close> strips white space and line terminators from both ends.
  A string is a list of characters with codes below 256 here; of the characters that
  JavaScript strips, those are tab, line feed, vertical tab, form feed, carriage return,
  space and the no-break space U+00A0 (the others, U+1680, U+2000 to U+200A, U+2028,
  U+2029, U+202F, U+205F, U+3000 and U+FEFF, have no character in this type).
\<close>

definition isSpace :: "char \<Rightarrow> bool" where
  "isSpace c = (c \<in> set [CHR 0x09, CHR 0x0A, CHR 0x0B, CHR 0x0C, CHR 0x0D, CHR 0x20, CHR 0xA0])"

definition trim :: "string \<Rightarrow> string" where
  "trim s = rev (dropWhile isSpace (rev (dropWhile isSpace s)))"

text \<open>
  \<^verbatim>\<open>
  if (platform === 'windows') {
      const powershellHome = (await this.retry(() => connection.exec('echo $HOME'))).stdout;
      if (powershellHome === '$HOME') {
          const userprofile = (await this.retry(() => connection.exec('echo %userprofile%'))).stdout;
          return userprofile.trim();
      }
      return powershellHome.trim();
  } else {
      const result = await this.retry(() => connection.exec('eval echo ~'));
      return result.stdout.trim();
  }
  \<close>
\<close>

definition getRemoteHomeDirectory :: "'w RemoteConnection \<Rightarrow> RemotePlatform \<Rightarrow> ('w, string) async" where
  "getRemoteHomeDirectory connection platform =
     (if platform = windows then
        await (retry (exec connection ''echo $HOME'' []) DEFAULT_TIMES) (\<lambda>r.
          let powershellHome = stdout r
          in if powershellHome = ''$HOME'' then
               await (retry (exec connection ''echo %userprofile%'' []) DEFAULT_TIMES) (\<lambda>r'.
                 let userprofile = stdout r' in return (trim userprofile))
             else return (trim powershellHome))
      else
        await (retry (exec connection ''eval echo ~'' []) DEFAULT_TIMES) (\<lambda>result.
          return (trim (stdout result))))"

text \<open>
  \<^verbatim>\<open>
  const recursive = platform !== 'windows' ? ' -p' : '';
  const result = await this.retry(() => connection.exec(`mkdir${recursive} "${remotePath}";echo "Success"`));
  if (result.stderr) { throw new Error('Failed to create directory: ' + result.stderr); }
  \<close>
\<close>

definition mkdirRemote :: "'w RemoteConnection \<Rightarrow> RemotePlatform \<Rightarrow> string \<Rightarrow> ('w, unit) async" where
  \<open>mkdirRemote connection platform remotePath =
     (let recursive = (if platform \<noteq> windows then '' -p'' else [])
      in await (retry (exec connection (''mkdir'' @ recursive @ '' "'' @ remotePath @ ''";echo "Success"'') []) DEFAULT_TIMES)
           (\<lambda>result.
              if stderr result \<noteq> [] then throw (Error (''Failed to create directory: '' @ stderr result))
              else return ()))\<close>

text \<open>
  \<^verbatim>\<open>
  const result = await connection.exec('tar -xf', [remoteFile, '-C', remoteDirectory]);
  if (result.stderr) { throw new Error('Failed to unzip: ' + result.stderr); }
  \<close>
\<close>

definition unzipRemote :: "'w RemoteConnection \<Rightarrow> string \<Rightarrow> string \<Rightarrow> ('w, unit) async" where
  "unzipRemote connection remoteFile remoteDirectory =
     await (exec connection ''tar -xf'' [remoteFile, ''-C'', remoteDirectory]) (\<lambda>result.
       if stderr result \<noteq> [] then throw (Error (''Failed to unzip: '' @ stderr result))
       else return ())"

text \<open>
  \<^verbatim>\<open>
  const tmpdir = os.tmpdir();
  const localPath = path.join(tmpdir, fileName);
  if (!await fs.pathExists(localPath)) {
      const downloadPath = `https://nodejs.org/dist/v${REMOTE_NODE_VERSION}/${fileName}`;
      const downloadResult = await this.requestService.request({ url: downloadPath });
      await fs.writeFile(localPath, downloadResult.buffer);
  }
  return localPath;
  \<close>
\<close>

definition downloadNode :: "'w RemoteSetupService \<Rightarrow> string \<Rightarrow> ('w, string) async" where
  "downloadNode svc fileName w =
     (let tmpdir = os_tmpdir svc;
          localPath = path_join svc tmpdir fileName
      in case fs_pathExists svc localPath w of
           (True, w') \<Rightarrow> return localPath w'
         | (False, w') \<Rightarrow>
             (let downloadPath = ''https://nodejs.org/dist/v'' @ REMOTE_NODE_VERSION @ ''/'' @ fileName
              in await (request svc downloadPath) (\<lambda>buffer.
                   await (fs_writeFile svc localPath buffer) (\<lambda>_. return localPath)) w'))"

text \<open>
  The regular expression \<^verbatim>\<open>/listening on http:\/\/localhost:(\d+)/\<close>.
  \<open>localAddressRegex_exec s\<close> is the first capture group of the leftmost match in \<open>s\<close>
  (the longest run of digits after the literal text \<open>localAddress_literal\<close>), \<open>None\<close>
  when there is no match;
  \<open>localAddressRegex_test s\<close> says whether there is a match.
\<close>

definition isDigit :: "char \<Rightarrow> bool" where
  "isDigit c = (c \<in> set ''0123456789'')"

definition localAddress_literal :: string where
  "localAddress_literal = ''listening on http://localhost:''"

fun localAddressRegex_exec :: "string \<Rightarrow> string option" where
  "localAddressRegex_exec [] = None"
| "localAddressRegex_exec (c # cs) =
     (if prefix localAddress_literal (c # cs) \<and>
         takeWhile isDigit (drop (length localAddress_literal) (c # cs)) \<noteq> []
      then Some (takeWhile isDigit (drop (length localAddress_literal) (c # cs)))
      else localAddressRegex_exec cs)"

definition localAddressRegex_test :: "string \<Rightarrow> bool" where
  "localAddressRegex_test s = (localAddressRegex_exec s \<noteq> None)"

text \<open>
  \<^verbatim>\<open>Number(match[1])\<close>, on the strings the capture group can hold (one or more of the
  digits \<^verbatim>\<open>0\<close> to \<^verbatim>\<open>9\<close>): the double nearest to the number that the digits denote
  (\<open>decimal\<close>), a tie going to the double whose significand is even, and
  \<^verbatim>\<open>Infinity\<close> beyond the doubles. A double has a significand of 53 bits, so the
  numbers below \<open>2 ^ 53\<close> are doubles themselves; the doubles that arise here are whole
  numbers, and \<open>Integer n\<close> is the double that equals \<open>n\<close>.
\<close>

datatype number = Integer nat | Infinity

definition decimal :: "string \<Rightarrow> nat" where
  "decimal digits = foldl (\<lambda>n c. 10 * n + (of_char c - 48)) 0 digits"

fun bit_length :: "nat \<Rightarrow> nat" where
  "bit_length n = (if n = 0 then 0 else Suc (bit_length (n div 2)))"

declare bit_length.simps [simp del]

definition nearest_double :: "nat \<Rightarrow> number" where
  "nearest_double n =
     (if n < 2 ^ 53 then Integer n
      else
        (let e = bit_length n - 53;
             q = n div 2 ^ e;
             r = n mod 2 ^ e;
             q' = (if 2 * r > 2 ^ e \<or> (2 * r = 2 ^ e \<and> odd q) then q + 1 else q)
         in if q' * 2 ^ e \<ge> 2 ^ 1024 then Infinity else Integer (q' * 2 ^ e)))"

definition Number :: "string \<Rightarrow> number" where
  "Number digits = nearest_double (decimal digits)"

text \<open>
  \<^verbatim>\<open>
  const nodeExecutable = this.joinRemotePath(platform, nodeDir, 'bin', platform === 'windows' ? 'node.exe' : 'node');
  const mainJsFile = this.joinRemotePath(platform, remotePath, 'lib', 'backend', 'main.js');
  const result = await connection.execPartial(`cd "${remotePath}";${nodeExecutable}`,
      stdout => localAddressRegex.test(stdout),
      [mainJsFile, '--port=0', '--remote']);
  const match = localAddressRegex.exec(result.stdout);
  if (!match) {
      throw new Error('Could not start remote system: ' + result.stderr);
  } else {
      return Number(match[1]);
  }
  \<close>
\<close>

definition startApplication :: "'w RemoteConnection \<Rightarrow> RemotePlatform \<Rightarrow> string \<Rightarrow> string \<Rightarrow> ('w, number) async" where
  \<open>startApplication connection platform remotePath nodeDir =
     (let nodeExecutable = joinRemotePath platform [nodeDir, ''bin'', if platform = windows then ''node.exe'' else ''node''];
          mainJsFile = joinRemotePath platform [remotePath, ''lib'', ''backend'', ''main.js'']
      in await (execPartial connection (''cd "'' @ remotePath @ ''";'' @ nodeExecutable)
                  (\<lambda>stdout' stderr'. localAddressRegex_test stdout')
                  [mainJsFile, ''--port=0'', ''--remote''])
           (\<lambda>result.
              case localAddressRegex_exec (stdout result) of
                None \<Rightarrow> throw (Error (''Could not start remote system: '' @ stderr result))
              | Some digits \<Rightarrow> return (Number digits)))\<close>

subsection \<open>\<^verbatim>\<open>RemoteSetupService.setup\<close>\<close>

text \<open>
  \<open>report\<close> is the progress sink: it changes the world (the progress shown) and returns
  nothing. \<open>RemoteSetupService_setup\<close> is \<^verbatim>\<open>setup\<close>; it returns the port it stores in
  \<^verbatim>\<open>connection.remotePort\<close>.
  \<^verbatim>\<open>
  report('Identifying remote system...');
  const platform = await this.detectRemotePlatform(connection);
  const remoteHome = await this.getRemoteHomeDirectory(connection, platform);
  const applicationDirectory = this.joinRemotePath(platform, remoteHome, `.${this.getRemoteAppName()}`);
  await this.mkdirRemote(connection, platform, applicationDirectory);
  const nodeFileName = this.getNodeFileName(platform);
  const nodeDirName = this.getNodeDirectoryName(platform);
  const remoteNodeDirectory = this.joinRemotePath(platform, applicationDirectory, nodeDirName);
  const nodeDirExists = await this.dirExistsRemote(connection, remoteNodeDirectory);
  if (!nodeDirExists) {
      report('Downloading and installing Node.js on remote...');
      const nodeArchive = await this.downloadNode(nodeFileName);
      const remoteNodeZip = this.joinRemotePath(platform, applicationDirectory, nodeFileName);
      await connection.copy(nodeArchive, remoteNodeZip);
      await this.unzipRemote(connection, remoteNodeZip, applicationDirectory);
  }
  report('Copying application to remote...');
  const libDir = this.joinRemotePath(platform, applicationDirectory, 'lib');
  const libDirExists = await this.dirExistsRemote(connection, libDir);
  if (!libDirExists) {
      const applicationZipFile = this.joinRemotePath(platform, applicationDirectory, `${this.getRemoteAppName()}.tar`);
      await this.copyService.copyToRemote(connection, platform, applicationZipFile);
      await this.unzipRemote(connection, applicationZipFile, applicationDirectory);
  }
  report('Starting application on remote...');
  const port = await this.startApplication(connection, platform, applicationDirectory, remoteNodeDirectory);
  connection.remotePort = port;
  \<close>
\<close>

definition reporting :: "(string \<Rightarrow> 'w \<Rightarrow> 'w) \<Rightarrow> string \<Rightarrow> ('w, unit) async" where
  "reporting report message w = (Inr (), report message w)"

definition RemoteSetupService_setup ::
  "'w RemoteSetupService \<Rightarrow> 'w RemoteConnection \<Rightarrow> (string \<Rightarrow> 'w \<Rightarrow> 'w) \<Rightarrow> ('w, number) async" where
  "RemoteSetupService_setup svc connection report =
     await (reporting report ''Identifying remote system...'') (\<lambda>_.
     await (detectRemotePlatform connection) (\<lambda>platform.
     await (getRemoteHomeDirectory connection platform) (\<lambda>remoteHome.
     let applicationDirectory = joinRemotePath platform [remoteHome, ''.'' @ getRemoteAppName svc] in
     await (mkdirRemote connection platform applicationDirectory) (\<lambda>_.
     let nodeFileName = getNodeFileName platform;
         nodeDirName = getNodeDirectoryName platform;
         remoteNodeDirectory = joinRemotePath platform [applicationDirectory, nodeDirName] in
     await (dirExistsRemote connection remoteNodeDirectory) (\<lambda>nodeDirExists.
     await (if \<not> nodeDirExists then
              await (reporting report ''Downloading and installing Node.js on remote...'') (\<lambda>_.
              await (downloadNode svc nodeFileName) (\<lambda>nodeArchive.
              let remoteNodeZip = joinRemotePath platform [applicationDirectory, nodeFileName] in
              await (copy connection nodeArchive remoteNodeZip) (\<lambda>_.
              unzipRemote connection remoteNodeZip applicationDirectory)))
            else return ()) (\<lambda>_.
     await (reporting report ''Copying application to remote...'') (\<lambda>_.
     let libDir = joinRemotePath platform [applicationDirectory, ''lib''] in
     await (dirExistsRemote connection libDir) (\<lambda>libDirExists.
     await (if \<not> libDirExists then
              (let applicationZipFile = joinRemotePath platform [applicationDirectory, getRemoteAppName svc @ ''.tar''] in
               await (copyToRemote svc connection platform applicationZipFile) (\<lambda>_.
               unzipRemote connection applicationZipFile applicationDirectory))
            else return ()) (\<lambda>_.
     await (reporting report ''Starting application on remote...'') (\<lambda>_.
     await (startApplication connection platform applicationDirectory remoteNodeDirectory) (\<lambda>port.
     return port)))))))))))"

text \<open>
  Observing the service: \<open>traced_service svc c\<close> is \<open>svc\<close> with its downloads, file
  writes and copies recorded in the log that \<open>traced c\<close> keeps; \<open>traced_report\<close> reports
  without touching the log. A call is a provisioning call when it is a download, the
  write of the downloaded archive, a copy to the remote, or a remote extraction
  (\<^verbatim>\<open>tar -xf\<close>).
\<close>

definition traced_service :: "'w RemoteSetupService \<Rightarrow> 'w RemoteConnection \<Rightarrow> ('w \<times> call list) RemoteSetupService" where
  "traced_service svc c =
     \<lparr>request = (\<lambda>url (w, tr). case request svc url w of (r, w') \<Rightarrow> (r, (w', tr @ [Request url]))),
      copyToRemote = (\<lambda>connection platform file (w, tr).
         case copyToRemote svc c platform file w of (r, w') \<Rightarrow> (r, (w', tr @ [CopyToRemote file]))),
      fs_pathExists = (\<lambda>path (w, tr). case fs_pathExists svc path w of (r, w') \<Rightarrow> (r, (w', tr))),
      fs_writeFile = (\<lambda>path buffer (w, tr).
         case fs_writeFile svc path buffer w of (r, w') \<Rightarrow> (r, (w', tr @ [WriteFile path]))),
      os_tmpdir = os_tmpdir svc,
      path_join = path_join svc,
      pck_name = pck_name svc,
      pck_version = pck_version svc,
      THEIA_VERSION = THEIA_VERSION svc\<rparr>"

definition traced_report :: "(string \<Rightarrow> 'w \<Rightarrow> 'w) \<Rightarrow> string \<Rightarrow> 'w \<times> call list \<Rightarrow> 'w \<times> call list" where
  "traced_report report message = (\<lambda>(w, tr). (report message w, tr))"

definition provisioning :: "call \<Rightarrow> bool" where
  "provisioning c =
     (case c of
        Request url \<Rightarrow> True
      | WriteFile path \<Rightarrow> True
      | Copy localPath remotePath \<Rightarrow> True
      | CopyToRemote file \<Rightarrow> True
      | Exec cmd args \<Rightarrow> cmd = ''tar -xf''
      | ExecPartial cmd args \<Rightarrow> False)"

subsection \<open>The router stack of the backend application\<close>

text \<open>
  A request as the router and the handlers of \<^verbatim>\<open>RemoteExpressProxyContribution\<close> read
  it: the method (\<^verbatim>\<open>req.method\<close>), the path (the URL of the request up to its query
  string, against which Express matches its routes), and \<^verbatim>\<open>getCookies(req).remoteId\<close>
  (\<open>None\<close> for \<^verbatim>\<open>undefined\<close>; the function \<^verbatim>\<open>getCookies\<close> of \<^verbatim>\<open>remote-utils\<close> is
  not among the sources, so the request carries its result).
\<close>

record Request =
  req_method :: string
  req_path :: string
  cookies_remoteId :: "string option"

text \<open>The fields of a \<^verbatim>\<open>RemoteConnection\<close> that the registry and the router read.\<close>

record Session =
  remote_id :: string
  remote_name :: string
  remote_type :: string

text \<open>The body \<^verbatim>\<open>{ alive: boolean, name?: string, type?: string }\<close> of the status response.\<close>

datatype RemoteStatus = Alive string string | NotAlive

text \<open>
  A layer of \<^verbatim>\<open>app._router.stack\<close>: its \<^verbatim>\<open>name\<close> and what handles the request.
  \<open>StatusHandler\<close> is the route \<^verbatim>\<open>app.get('/remote/status', ...)\<close>; \<open>HandleProxy id port\<close> is
  the \<^verbatim>\<open>expressHttpProxy\<close> handler that \<^verbatim>\<open>setupProxyRouter\<close> creates for the remote
  \<open>id\<close> and the proxy \<^verbatim>\<open>http://localhost:<port>\<close>; \<open>Middleware k\<close> is any other layer of
  the application, told apart by a number.
\<close>

datatype handler = StatusHandler | HandleProxy string nat | Middleware nat

record ExpressLayer =
  layer_name :: string
  layer_handle :: handler

definition statusLayer :: ExpressLayer where
  "statusLayer = \<lparr>layer_name = ''bound dispatch'', layer_handle = StatusHandler\<rparr>"

definition proxyLayer :: "Session \<Rightarrow> nat \<Rightarrow> ExpressLayer" where
  "proxyLayer remote port = \<lparr>layer_name = ''handleProxy'', layer_handle = HandleProxy (remote_id remote) port\<rparr>"

text \<open>
  \<^verbatim>\<open>Disposable.NULL\<close>, and the disposable that \<^verbatim>\<open>spliceRouter\<close> creates for the layer
  it has inserted.
\<close>

datatype Disposable = Disposable_NULL | RemoveLayer ExpressLayer

text \<open>
  \<^verbatim>\<open>
  const routerStack: ExpressLayer[] = app._router.stack;
  if (routerStack.length > 0) {
      const router = routerStack.splice(routerStack.length - 1, 1)[0];
      for (let i = 0; i < routerStack.length - 1; i++) {
          const index = position(routerStack[i]);
          if (index !== undefined) {
              routerStack.splice(i + index + 1, 0, router);
              return Disposable.create(() => {
                  const currentIndex = routerStack.indexOf(router);
                  routerStack.splice(currentIndex, 1);
              });
          }
      }
  }
  return Disposable.NULL;
  \<close>
  \<open>splice_loop position stack i n\<close> is the loop from index \<open>i\<close> with \<open>n\<close> iterations to
  go; it returns the index \<open>i\<close> it stopped at and the value of \<open>position\<close> there.
\<close>

fun splice_loop :: "(ExpressLayer \<Rightarrow> nat option) \<Rightarrow> ExpressLayer list \<Rightarrow> nat \<Rightarrow> nat \<Rightarrow> (nat \<times> nat) option" where
  "splice_loop position stack i 0 = None"
| "splice_loop position stack i (Suc n) =
     (case position (stack ! i) of
        Some index \<Rightarrow> Some (i, index)
      | None \<Rightarrow> splice_loop position stack (Suc i) n)"

definition spliceRouter :: "ExpressLayer list \<Rightarrow> (ExpressLayer \<Rightarrow> nat option) \<Rightarrow> ExpressLayer list \<times> Disposable" where
  "spliceRouter routerStack position =
     (if length routerStack > 0 then
        (let router = last routerStack;
             stack = butlast routerStack
         in case splice_loop position stack 0 (length stack - 1) of
              Some (i, index) \<Rightarrow>
                (take (i + index + 1) stack @ [router] @ drop (i + index + 1) stack, RemoveLayer router)
            | None \<Rightarrow> (stack, Disposable_NULL))
      else (routerStack, Disposable_NULL))"

text \<open>
  Disposing: \<^verbatim>\<open>indexOf\<close> is \<^verbatim>\<open>-1\<close> for a layer that is not in the stack, and
  \<^verbatim>\<open>splice(-1, 1)\<close> removes the last element.
\<close>

definition dispose :: "Disposable \<Rightarrow> ExpressLayer list \<Rightarrow> ExpressLayer list" where
  "dispose d routerStack =
     (case d of
        Disposable_NULL \<Rightarrow> routerStack
      | RemoveLayer router \<Rightarrow>
          if router \<in> set routerStack then remove1 router routerStack else butlast routerStack)"

text \<open>
  \<^verbatim>\<open>configure\<close>: \<^verbatim>\<open>app.get('/remote/status', ...)\<close> appends the route, and
  \<^verbatim>\<open>spliceRouter(this.app, router => router.name === 'serveStatic' ? 0 : undefined)\<close> moves
  it. \<^verbatim>\<open>setupProxyRouter\<close>: \<^verbatim>\<open>this.app.use(handleProxy)\<close> appends the handler, and
  \<^verbatim>\<open>spliceRouter(this.app, router => router.name === 'serveStatic' ? 1 : undefined)\<close> moves it
  and returns the disposable.
\<close>

definition configure :: "ExpressLayer list \<Rightarrow> ExpressLayer list" where
  "configure routerStack =
     fst (spliceRouter (routerStack @ [statusLayer])
            (\<lambda>router. if layer_name router = ''serveStatic'' then Some 0 else None))"

definition setupProxyRouter :: "Session \<Rightarrow> nat \<Rightarrow> ExpressLayer list \<Rightarrow> ExpressLayer list \<times> Disposable" where
  "setupProxyRouter remote port routerStack =
     spliceRouter (routerStack @ [proxyLayer remote port])
       (\<lambda>router. if layer_name router = ''serveStatic'' then Some 1 else None)"

subsection \<open>The handlers of \<^verbatim>\<open>RemoteExpressProxyContribution\<close>\<close>

text \<open>
  Modelled from the spec: \<^verbatim>\<open>RemoteConnectionService\<close>, which is not among the sources. The
  registry is a table of the live connections keyed by session id; \<^verbatim>\<open>register\<close> stores
  the connection under its id and returns a handle whose disposal removes the entry;
  \<^verbatim>\<open>getConnection(id)\<close> is the connection stored under \<open>id\<close>, or absent.
\<close>

type_synonym Registry = "string \<rightharpoonup> Session"

definition register :: "Session \<Rightarrow> Registry \<Rightarrow> Registry" where
  "register remote connections = connections(remote_id remote \<mapsto> remote)"

definition registration_dispose :: "string \<Rightarrow> Registry \<Rightarrow> Registry" where
  "registration_dispose rid connections = connections(rid := None)"

definition getConnection :: "Registry \<Rightarrow> string \<Rightarrow> Session option" where
  "getConnection connections rid = connections rid"

text \<open>
  \<^verbatim>\<open>
  const remoteId = getCookies(req).remoteId;
  if (remoteId) {
      const remote = this.remoteConnectionService.getConnection(remoteId);
      if (remote) { res.send({ alive: true, name: remote.name, type: remote.type }); return; }
  }
  res.send({ alive: false });
  \<close>
\<close>

definition statusHandler :: "Registry \<Rightarrow> Request \<Rightarrow> RemoteStatus" where
  "statusHandler connections req =
     (case cookies_remoteId req of
        None \<Rightarrow> NotAlive
      | Some remoteId \<Rightarrow>
          if remoteId \<noteq> [] then
            (case getConnection connections remoteId of
               Some remote \<Rightarrow> Alive (remote_name remote) (remote_type remote)
             | None \<Rightarrow> NotAlive)
          else NotAlive)"

text \<open>
  \<^verbatim>\<open>filter: req => { const remoteId = getCookies(req).remoteId; return remoteId === remote.id; }\<close>
\<close>

definition proxy_filter :: "string \<Rightarrow> Request \<Rightarrow> bool" where
  "proxy_filter rid req = (cookies_remoteId req = Some rid)"

text \<open>
  The requests that the route \<^verbatim>\<open>app.get('/remote/status', ...)\<close> handles, as Express
  decides it with the settings an application starts with (\<^verbatim>\<open>case sensitive routing\<close>
  and \<^verbatim>\<open>strict routing\<close> off). The path of the request is matched by the regular
  expression \<^verbatim>\<open>/^\/remote\/status\/?$/i\<close> that Express makes of the path of the route:
  the case of the letters \<^verbatim>\<open>A\<close> to \<^verbatim>\<open>Z\<close> does not count, and one \<^verbatim>\<open>/\<close> may follow.
  The method is compared in lower case, and a route that handles \<^verbatim>\<open>GET\<close> and has no
  handler of its own for \<^verbatim>\<open>HEAD\<close> handles \<^verbatim>\<open>HEAD\<close> too (the same handler runs;
  \<^verbatim>\<open>res.send\<close> then leaves the body out of the response).
\<close>

definition toLowerCase :: "string \<Rightarrow> string" where
  "toLowerCase s =
     map (\<lambda>c. case map_of (zip ''ABCDEFGHIJKLMNOPQRSTUVWXYZ'' ''abcdefghijklmnopqrstuvwxyz'') c of
                Some l \<Rightarrow> l
              | None \<Rightarrow> c) s"

definition route_matches_path :: "string \<Rightarrow> bool" where
  "route_matches_path path =
     (toLowerCase path = ''/remote/status'' \<or> toLowerCase path = ''/remote/status/'')"

definition route_handles_method :: "string \<Rightarrow> bool" where
  "route_handles_method method =
     (let name = toLowerCase method
      in (if name = ''head'' then ''get'' else name) = ''get'')"

definition is_status_request :: "Request \<Rightarrow> bool" where
  "is_status_request req = (route_matches_path (req_path req) \<and> route_handles_method (req_method req))"

text \<open>
  How Express runs a request through the stack, as far as these handlers are concerned:
  the layers are tried in order; the status route ends a request that it handles with the
  response of \<open>statusHandler\<close> and passes every other request on; a proxy handler forwards
  the request to its port when its filter accepts it and passes it on otherwise; any other
  layer \<open>k\<close> ends the request (it responds, or fails, so that the layers after it do not
  handle the request) or passes it on, as \<open>ends k\<close> says; a request that every layer
  passes on falls through to the default handling.
\<close>

datatype Outcome = Answered RemoteStatus | Forwarded nat | HandledBy nat | FallThrough

fun dispatch :: "(nat \<Rightarrow> Request \<Rightarrow> bool) \<Rightarrow> Registry \<Rightarrow> ExpressLayer list \<Rightarrow> Request \<Rightarrow> Outcome" where
  "dispatch ends connections [] req = FallThrough"
| "dispatch ends connections (layer # stack) req =
     (case layer_handle layer of
        StatusHandler \<Rightarrow>
          if is_status_request req then Answered (statusHandler connections req)
          else dispatch ends connections stack req
      | HandleProxy rid port \<Rightarrow>
          if proxy_filter rid req then Forwarded port
          else dispatch ends connections stack req
      | Middleware k \<Rightarrow>
          if ends k req then HandledBy k
          else dispatch ends connections stack req)"

subsection \<open>\<^verbatim>\<open>establishConnection\<close> and the disconnect event\<close>

text \<open>
  The listeners of \<^verbatim>\<open>onDidDisconnect\<close> of a connection: the one the constructor of
  \<^verbatim>\<open>RemoteSSHConnection\<close> adds (\<^verbatim>\<open>() => this.dispose()\<close>, which destroys the client), and
  the one \<^verbatim>\<open>establishConnection\<close> adds, with the server, the disposable of the proxy
  router and the registration it closes over:
  \<^verbatim>\<open>
  remote.onDidDisconnect(() => {
      server.close();
      proxyRouter.dispose();
      registration.dispose();
  });
  \<close>
\<close>

datatype listener = DisposeClient | Teardown nat Disposable string

text \<open>
  The state of the backend process: the registry, the router stack of the application,
  the ports on which a proxy server of the provider is listening
  (\<^verbatim>\<open>RemoteProxyServerProvider\<close> is not among the sources; modelled from the spec: each
  call of \<^verbatim>\<open>getProxyServer\<close> binds a local listening endpoint of its own), the listeners
  of the disconnect event of each connection, and the connections whose client has been
  destroyed.
\<close>

record Backend =
  connections :: Registry
  routerStack :: "ExpressLayer list"
  listening :: "nat set"
  onDidDisconnect :: "string \<Rightarrow> listener list"
  destroyed :: "string set"

text \<open>
  \<^verbatim>\<open>establishConnection\<close>, from the point where \<^verbatim>\<open>establishSSHConnection\<close> has resolved
  with the connection \<open>remote\<close> and \<^verbatim>\<open>setup\<close> has resolved; \<open>port\<close> is the port the new
  proxy server listens on.
  \<^verbatim>\<open>
  const registration = this.remoteConnectionService.register(remote);
  const server = await this.serverProvider.getProxyServer(socket => { remote.forwardOut(socket); });
  const proxyRouter = this.remoteExpressProxy.setupProxyRouter(remote, server);
  remote.onDidDisconnect(() => { ... });
  return remote.id;
  \<close>
\<close>

definition establishConnection :: "Session \<Rightarrow> nat \<Rightarrow> Backend \<Rightarrow> string \<times> Backend" where
  "establishConnection remote port b =
     (let b1 = b\<lparr>onDidDisconnect := (onDidDisconnect b)(remote_id remote := onDidDisconnect b (remote_id remote) @ [DisposeClient])\<rparr>;
          b2 = b1\<lparr>connections := register remote (connections b1)\<rparr>;
          b3 = b2\<lparr>listening := insert port (listening b2)\<rparr>;
          (stack, proxyRouter) = setupProxyRouter remote port (routerStack b3);
          b4 = b3\<lparr>routerStack := stack\<rparr>;
          b5 = b4\<lparr>onDidDisconnect := (onDidDisconnect b4)(remote_id remote :=
                  onDidDisconnect b4 (remote_id remote) @ [Teardown port proxyRouter (remote_id remote)])\<rparr>
      in (remote_id remote, b5))"

fun run_listener :: "string \<Rightarrow> Backend \<Rightarrow> listener \<Rightarrow> Backend" where
  "run_listener rid b DisposeClient = b\<lparr>destroyed := insert rid (destroyed b)\<rparr>"
| "run_listener rid b (Teardown port proxyRouter registration) =
     b\<lparr>listening := listening b - {port},
       routerStack := dispose proxyRouter (routerStack b),
       connections := registration_dispose registration (connections b)\<rparr>"

text \<open>\<^verbatim>\<open>this.onDidDisconnectEmitter.fire()\<close> of the connection \<open>rid\<close>: its listeners run in order.\<close>

definition fire :: "string \<Rightarrow> Backend \<Rightarrow> Backend" where
  "fire rid b = foldl (run_listener rid) b (onDidDisconnect b rid)"

text \<open>
  The backend after \<^verbatim>\<open>configure\<close> on an application whose stack is \<open>base\<close>, and the states
  it can reach: a connection with an unused id is established with a proxy server on a
  port not in use, or a live connection that has not ended yet fires its disconnect
  event.
\<close>

definition started :: "ExpressLayer list \<Rightarrow> Backend" where
  "started base =
     \<lparr>connections = Map.empty, routerStack = configure base, listening = {},
      onDidDisconnect = (\<lambda>rid. []), destroyed = {}\<rparr>"

inductive reachable :: "ExpressLayer list \<Rightarrow> Backend \<Rightarrow> bool" for base where
  start: "reachable base (started base)"
| establish: "reachable base b \<Longrightarrow> onDidDisconnect b (remote_id remote) = [] \<Longrightarrow> port \<notin> listening b
     \<Longrightarrow> reachable base (snd (establishConnection remote port b))"
| disconnect: "reachable base b \<Longrightarrow> connections b rid \<noteq> None \<Longrightarrow> reachable base (fire rid b)"

text \<open>
  The stack of the application consists of layers of its own (\<open>is_middleware\<close>).
  \<^verbatim>\<open>spliceRouter\<close> finds its place on it when a layer named \<^verbatim>\<open>serveStatic\<close> is
  there and is not the last one (\<open>static_found\<close>). \<open>before_static\<close> are the layers up to
  and including the first such layer, \<open>after_static\<close> the layers after it.
\<close>

definition is_middleware :: "ExpressLayer \<Rightarrow> bool" where
  "is_middleware layer = (case layer_handle layer of Middleware k \<Rightarrow> True | _ \<Rightarrow> False)"

definition static_found :: "ExpressLayer list \<Rightarrow> bool" where
  "static_found base = list_ex (\<lambda>layer. layer_name layer = ''serveStatic'') (butlast base)"

definition serves_static :: "ExpressLayer list \<Rightarrow> bool" where
  "serves_static base = (list_all is_middleware base \<and> static_found base)"

definition before_static :: "ExpressLayer list \<Rightarrow> ExpressLayer list" where
  "before_static base =
     takeWhile (\<lambda>layer. layer_name layer \<noteq> ''serveStatic'') base @
     take 1 (dropWhile (\<lambda>layer. layer_name layer \<noteq> ''serveStatic'') base)"

definition after_static :: "ExpressLayer list \<Rightarrow> ExpressLayer list" where
  "after_static base = drop 1 (dropWhile (\<lambda>layer. layer_name layer \<noteq> ''serveStatic'') base)"

text \<open>
  For the statements about the reachable states. With the live sessions and the ports
  of their proxy servers listed newest first, \<open>stack_of base sessions\<close> is the router
  stack: the status route right after the \<^verbatim>\<open>serveStatic\<close> layer and the proxy handlers
  right after the status route, or the stack of the application unchanged when
  \<^verbatim>\<open>spliceRouter\<close> finds no place (then it drops the layer it was to move and returns
  \<^verbatim>\<open>Disposable.NULL\<close>). \<open>live_layout\<close> says that the state consists of exactly these
  sessions.
\<close>

definition proxies :: "(Session \<times> nat) list \<Rightarrow> ExpressLayer list" where
  "proxies sessions = map (\<lambda>(remote, port). proxyLayer remote port) sessions"

definition session_ids :: "(Session \<times> nat) list \<Rightarrow> string list" where
  "session_ids sessions = map (\<lambda>(remote, port). remote_id remote) sessions"

definition stack_of :: "ExpressLayer list \<Rightarrow> (Session \<times> nat) list \<Rightarrow> ExpressLayer list" where
  "stack_of base sessions =
     (if static_found base
      then before_static base @ [statusLayer] @ proxies sessions @ after_static base
      else base)"

definition disposable_of :: "ExpressLayer list \<Rightarrow> Session \<Rightarrow> nat \<Rightarrow> Disposable" where
  "disposable_of base remote port =
     (if static_found base then RemoveLayer (proxyLayer remote port) else Disposable_NULL)"

definition live_layout :: "ExpressLayer list \<Rightarrow> (Session \<times> nat) list \<Rightarrow> Backend \<Rightarrow> bool" where
  "live_layout base sessions b =
     (routerStack b = stack_of base sessions \<and>
      distinct (session_ids sessions) \<and>
      distinct (map snd sessions) \<and>
      connections b = map_of (map (\<lambda>(remote, port). (remote_id remote, remote)) sessions) \<and>
      listening b = set (map snd sessions) \<and>
      (\<forall>(remote, port) \<in> set sessions.
         onDidDisconnect b (remote_id remote) =
           [DisposeClient, Teardown port (disposable_of base remote port) (remote_id remote)]))"

text \<open>A layer passes a request on to the next layer: it neither answers nor forwards it.\<close>

definition layer_passes :: "(nat \<Rightarrow> Request \<Rightarrow> bool) \<Rightarrow> Request \<Rightarrow> ExpressLayer \<Rightarrow> bool" where
  "layer_passes ends req layer =
     (case layer_handle layer of
        StatusHandler \<Rightarrow> \<not> is_status_request req
      | HandleProxy rid port \<Rightarrow> \<not> proxy_filter rid req
      | Middleware k \<Rightarrow> \<not> ends k req)"

subsection \<open>Example worlds\<close>

text \<open>
  Two probe actions on a world that only counts the invocations so far: a transport that
  drops the output of the first two invocations and then answers, and one that never
  answers.
\<close>

definition silent_twice :: "(nat, RemoteExecResult) async" where
  "silent_twice w =
     (Inr (if w < 2 then \<lparr>stdout = [], stderr = []\<rparr> else \<lparr>stdout = ''Linux'', stderr = []\<rparr>), Suc w)"

definition always_silent :: "(nat, RemoteExecResult) async" where
  "always_silent w = (Inr \<lparr>stdout = [], stderr = []\<rparr>, Suc w)"

text \<open>
  A remote shell that answers every command with the same two streams: the line of a
  Linux \<^verbatim>\<open>uname\<close> on \<open>stdout\<close> and a warning on \<open>stderr\<close>.
\<close>

definition noisy_linux :: "unit RemoteConnection" where
  "noisy_linux =
     \<lparr>exec = (\<lambda>cmd args w. (Inr \<lparr>stdout = ''Linux'', stderr = ''Warning: no home directory''\<rparr>, w)),
      execPartial = (\<lambda>cmd tester args w. (Inl (TransportError ''closed''), w)),
      copy = (\<lambda>localPath remotePath w. (Inr (), w))\<rparr>"

text \<open>
  A POSIX shell on a host where the directory asked for is absent: \<^verbatim>\<open>cd\<close> complains on
  \<open>stderr\<close>, and the \<^verbatim>\<open>echo\<close> after the \<^verbatim>\<open>;\<close> runs all the same.
\<close>

definition absent_dir_shell :: "unit RemoteConnection" where
  "absent_dir_shell =
     \<lparr>exec = (\<lambda>cmd args w.
         (Inr \<lparr>stdout = ''Success'' @ [CHR 0x0A], stderr = ''sh: cd: no such file or directory''\<rparr>, w)),
      execPartial = (\<lambda>cmd tester args w. (Inl (TransportError ''closed''), w)),
      copy = (\<lambda>localPath remotePath w. (Inr (), w))\<rparr>"


text \<open>
  A remote command that prints \<^verbatim>\<open>not ready\<close> in two chunks, a warning between them,
  and goes on printing after that; and the predicate "\<open>stdout\<close> contains \<^verbatim>\<open>ready\<close>".
  In \<open>one_by_one\<close> every chunk arrives in a turn of its own; in \<open>two_at_once\<close> the last
  two chunks arrive in one piece of input from the socket, hence in one turn.
\<close>

definition one_by_one :: "event list list" where
  "one_by_one =
     [[Chunk (Stdout ''not '')], [Chunk (Stderr ''warn'')], [Chunk (Stdout ''ready'')],
      [Chunk (Stdout '' and more'')], [Close]]"

definition two_at_once :: "event list list" where
  "two_at_once =
     [[Chunk (Stdout ''not '')], [Chunk (Stderr ''warn'')],
      [Chunk (Stdout ''ready''), Chunk (Stdout '' and more'')], [Close]]"

definition says_ready :: "string \<Rightarrow> string \<Rightarrow> bool" where
  "says_ready out err = str_includes out ''ready''"

text \<open>
  A user who types the same wrong password at every prompt, on a machine without key
  files; and a decrypted key offered by the identity collector.
\<close>

definition wrong_password_user :: "unit AuthEnv" where
  "wrong_password_user =
     \<lparr>input = (\<lambda>title password w. (Some ''hunter2'', w)),
      pathExists = (\<lambda>path w. (False, w)),
      readFile = (\<lambda>path w. (Inl (TransportError ''ENOENT''), w)),
      parseKey = (\<lambda>buffer passphrase. ParseError ''Unsupported key format'')\<rparr>"

definition agent_key :: SSHKey where
  "agent_key = \<lparr>filename = ''/home/u/.ssh/id_ed25519'', parsedKey = ParsedKey ''ed25519'', isPrivate = True\<rparr>"

text \<open>
  A Linux host on which the application directory, the runtime directory and \<^verbatim>\<open>lib\<close>
  exist already, and a local machine that can neither download nor copy (every such call
  is rejected). The remote backend prints its address when it is started.
\<close>

definition provisioned_linux :: "unit RemoteConnection" where
  "provisioned_linux =
     \<lparr>exec = (\<lambda>cmd args w.
         (Inr (if cmd = ''uname -s'' then \<lparr>stdout = ''Linux'' @ [CHR 0x0A], stderr = []\<rparr>
               else if cmd = ''eval echo ~'' then \<lparr>stdout = ''/home/u'' @ [CHR 0x0A], stderr = []\<rparr>
               else \<lparr>stdout = ''Success'' @ [CHR 0x0A], stderr = []\<rparr>), w)),
      execPartial = (\<lambda>cmd tester args w.
         (Inr \<lparr>stdout = ''root INFO Theia app listening on http://localhost:53211.'', stderr = []\<rparr>, w)),
      copy = (\<lambda>localPath remotePath w. (Inl (TransportError ''no sftp''), w))\<rparr>"

definition offline_service :: "unit RemoteSetupService" where
  "offline_service =
     \<lparr>request = (\<lambda>url w. (Inl (TransportError ''offline''), w)),
      copyToRemote = (\<lambda>connection platform file w. (Inl (TransportError ''no sftp''), w)),
      fs_pathExists = (\<lambda>path w. (False, w)),
      fs_writeFile = (\<lambda>path buffer w. (Inl (TransportError ''read-only''), w)),
      os_tmpdir = ''/tmp'',
      path_join = (\<lambda>a b. a @ ''/'' @ b),
      pck_name = Some ''@theia/example'',
      pck_version = Some ''1.38.0'',
      THEIA_VERSION = ''1.38.0''\<rparr>"

text \<open>A progress sink that shows nothing.\<close>

definition quiet :: "string \<Rightarrow> unit \<Rightarrow> unit" where
  "quiet message w = w"

text \<open>
  A Windows host whose shell is PowerShell, on which the application directory
  \<open>windows_app_dir\<close>, the runtime directory and \<^verbatim>\<open>lib\<close> exist already:
  \<^verbatim>\<open>uname\<close> is no command there, \<^verbatim>\<open>$HOME\<close> is the profile of the user, and
  \<^verbatim>\<open>mkdir\<close> reports on \<open>stderr\<close> that the directory it is to make exists, before
  the \<^verbatim>\<open>echo\<close> runs. The remote backend prints its address when it is started.
\<close>

definition windows_home :: string where
  "windows_home = ''C:'' @ [CHR 0x5C] @ ''Users'' @ [CHR 0x5C] @ ''u''"

definition windows_app_dir :: string where
  "windows_app_dir = windows_home @ [CHR 0x5C] @ ''.theia-example-1.38.0-remote''"

definition provisioned_windows :: "unit RemoteConnection" where
  "provisioned_windows =
     \<lparr>exec = (\<lambda>cmd args w.
         (Inr (if cmd = ''uname -s'' then
                 \<lparr>stdout = [], stderr = ''uname : The term uname is not recognized as the name of a cmdlet''\<rparr>
               else if cmd = ''echo $HOME'' then
                 \<lparr>stdout = windows_home @ [CHR 0x0D, CHR 0x0A], stderr = []\<rparr>
               else if prefix ''mkdir '' cmd then
                 \<lparr>stdout = ''Success'' @ [CHR 0x0D, CHR 0x0A],
                  stderr = ''mkdir : An item with the specified name '' @
                    takeWhile (\<lambda>c. c \<noteq> CHR 0x22) (drop 7 cmd) @ '' already exists.''\<rparr>
               else \<lparr>stdout = ''Success'' @ [CHR 0x0D, CHR 0x0A], stderr = []\<rparr>), w)),
      execPartial = (\<lambda>cmd tester args w.
         (Inr \<lparr>stdout = ''root INFO Theia app listening on http://localhost:53211.'', stderr = []\<rparr>, w)),
      copy = (\<lambda>localPath remotePath w. (Inl (TransportError ''no sftp''), w))\<rparr>"

text \<open>
  The provisioned Linux host again, with the launch through \<open>ssh_execPartial\<close>: the
  backend listens on port 53211, and the line that says so reaches the local machine in
  two pieces, the first of which ends inside the port number. The backend keeps running,
  so the stream does not close; the promise is settled all the same on this stream.
\<close>

definition split_announcement :: "event list list" where
  "split_announcement =
     [[Chunk (Stdout (''root INFO Configuration directory: /home/u/.theia'' @ [CHR 0x0A]))],
      [Chunk (Stdout ''root INFO Theia app listening on http://localhost:532'')],
      [Chunk (Stdout (''11.'' @ [CHR 0x0A]))]]"

definition split_announcement_host :: "unit RemoteConnection" where
  "split_announcement_host =
     provisioned_linux
       \<lparr>execPartial := (\<lambda>cmd tester args w.
          case ssh_execPartial (\<lambda>command w'. (Inr split_announcement, w')) cmd
                 (\<lambda>out err t. (tester out err, t)) args () w of
            ((Some outcome, t), w') \<Rightarrow> (outcome, w')
          | ((None, t), w') \<Rightarrow> (Inl (TransportError ''pending''), w'))\<rparr>"

text \<open>
  An application with three layers of its own, the static file handler in the middle,
  which serves \<^verbatim>\<open>/index.html\<close>; two sessions established on it; and four requests
  that carry the id of the first session in their cookie.
\<close>

definition example_base :: "ExpressLayer list" where
  "example_base =
     [\<lparr>layer_name = ''query'', layer_handle = Middleware 0\<rparr>,
      \<lparr>layer_name = ''serveStatic'', layer_handle = Middleware 1\<rparr>,
      \<lparr>layer_name = ''router'', layer_handle = Middleware 2\<rparr>]"

definition session1 :: Session where
  "session1 = \<lparr>remote_id = ''s1'', remote_name = ''build-host'', remote_type = ''SSH''\<rparr>"

definition session2 :: Session where
  "session2 = \<lparr>remote_id = ''s2'', remote_name = ''test-host'', remote_type = ''SSH''\<rparr>"

definition two_sessions :: Backend where
  "two_sessions =
     snd (establishConnection session2 3002 (snd (establishConnection session1 3001 (started example_base))))"

definition static_files :: "nat \<Rightarrow> Request \<Rightarrow> bool" where
  "static_files k req = (k = 1 \<and> req_path req = ''/index.html'')"

definition api_request :: Request where
  "api_request = \<lparr>req_method = ''POST'', req_path = ''/services'', cookies_remoteId = Some ''s1''\<rparr>"

definition status_request :: Request where
  "status_request = \<lparr>req_method = ''GET'', req_path = ''/remote/status'', cookies_remoteId = Some ''s1''\<rparr>"

definition head_request :: Request where
  "head_request = \<lparr>req_method = ''HEAD'', req_path = ''/Remote/Status/'', cookies_remoteId = Some ''s1''\<rparr>"

definition index_request :: Request where
  "index_request = \<lparr>req_method = ''GET'', req_path = ''/index.html'', cookies_remoteId = Some ''s1''\<rparr>"

section \<open>Theorems\<close>

subsection \<open>\<^verbatim>\<open>retry\<close>\<close>

lemma world_after_shift:
  "world_after action (snd (action w)) j = world_after action w (Suc j)"
  by (induction j) simp_all

lemma outcome_at_shift:
  "outcome_at action (snd (action w)) j = outcome_at action w (Suc j)"
  by (simp add: outcome_at_def world_after_shift del: world_after.simps)

lemma retry_loop_counted_le:
  "snd (snd (retry_loop (counted action) k result (w, n))) \<le> n + k"
proof (induction k arbitrary: result w n)
  case 0
  then show ?case by simp
next
  case (Suc k)
  obtain out w' where a: "action w = (out, w')" by (cases "action w")
  show ?case
  proof (cases out)
    case (Inl e)
    with a show ?thesis by (simp add: counted_def)
  next
    case (Inr r)
    show ?thesis
    proof (cases "stderr r \<noteq> [] \<or> stdout r \<noteq> []")
      case True
      with a Inr show ?thesis by (simp add: counted_def)
    next
      case False
      have "snd (snd (retry_loop (counted action) k r (w', Suc n))) \<le> Suc n + k"
        by (rule Suc.IH)
      with a Inr False show ?thesis by (simp add: counted_def)
    qed
  qed
qed

lemma retry_loop_counted_same:
  "fst (retry_loop (counted action) k result (w, n)) = fst (retry_loop action k result w) \<and>
   fst (snd (retry_loop (counted action) k result (w, n))) = snd (retry_loop action k result w)"
proof (induction k arbitrary: result w n)
  case 0
  then show ?case by simp
next
  case (Suc k)
  obtain out w' where a: "action w = (out, w')" by (cases "action w")
  show ?case
  proof (cases out)
    case (Inl e)
    with a show ?thesis by (simp add: counted_def)
  next
    case (Inr r)
    with a Suc.IH [of r w' "Suc n"] show ?thesis by (simp add: counted_def)
  qed
qed

lemma retry_loop_first:
  assumes "j < k"
    and "\<forall>i<j. empty_result (outcome_at action w i)"
    and "\<not> empty_result (outcome_at action w j)"
  shows "retry_loop (counted action) k result (w, n) =
     (outcome_at action w j, (world_after action w (Suc j), n + Suc j))"
  using assms
proof (induction j arbitrary: k w n result)
  case 0
  then obtain k' where k: "k = Suc k'" by (cases k) auto
  obtain out w' where a: "action w = (out, w')" by (cases "action w")
  with 0 have "\<not> empty_result out" by (simp add: outcome_at_def)
  with a k show ?case
    by (cases out) (auto simp: counted_def outcome_at_def empty_result_def)
next
  case (Suc j)
  then obtain k' where k: "k = Suc k'" and jk: "j < k'" by (cases k) auto
  obtain out w' where a: "action w = (out, w')" by (cases "action w")
  from Suc.prems(2) have "empty_result (outcome_at action w 0)" by blast
  with a obtain r where r: "out = Inr r" "stderr r = []" "stdout r = []"
    by (cases out) (auto simp: outcome_at_def empty_result_def)
  have w': "w' = snd (action w)" using a by simp
  have e: "\<forall>i<j. empty_result (outcome_at action w' i)"
    using Suc.prems(2) by (simp add: w' outcome_at_shift)
  have ne: "\<not> empty_result (outcome_at action w' j)"
    using Suc.prems(3) by (simp add: w' outcome_at_shift)
  have "retry_loop (counted action) k' r (w', Suc n) =
     (outcome_at action w' j, (world_after action w' (Suc j), Suc n + Suc j))"
    by (rule Suc.IH [OF jk e ne])
  then have "retry_loop (counted action) k' r (w', Suc n) =
     (outcome_at action w (Suc j), (world_after action w (Suc (Suc j)), n + Suc (Suc j)))"
    by (simp add: w' outcome_at_shift world_after_shift del: world_after.simps)
  with a k r show ?case by (simp add: counted_def)
qed

lemma retry_loop_none:
  assumes "\<forall>i<k. empty_result (outcome_at action w i)"
  shows "retry_loop (counted action) k result (w, n) =
     (Inr (if k = 0 then result else \<lparr>stdout = [], stderr = []\<rparr>), (world_after action w k, n + k))"
  using assms
proof (induction k arbitrary: w n result)
  case 0
  then show ?case by simp
next
  case (Suc k)
  obtain out w' where a: "action w = (out, w')" by (cases "action w")
  from Suc.prems have "empty_result (outcome_at action w 0)" by blast
  with a obtain r where r: "out = Inr r" "stderr r = []" "stdout r = []"
    by (cases out) (auto simp: outcome_at_def empty_result_def)
  then have r_eq: "r = \<lparr>stdout = [], stderr = []\<rparr>" by simp
  have w': "w' = snd (action w)" using a by simp
  have e: "\<forall>i<k. empty_result (outcome_at action w' i)"
    using Suc.prems by (simp add: w' outcome_at_shift)
  have "retry_loop (counted action) k r (w', Suc n) =
     (Inr (if k = 0 then r else \<lparr>stdout = [], stderr = []\<rparr>), (world_after action w' k, Suc n + k))"
    by (rule Suc.IH [OF e])
  then have "retry_loop (counted action) k r (w', Suc n) =
     (Inr \<lparr>stdout = [], stderr = []\<rparr>, (world_after action w (Suc k), n + Suc k))"
    using r_eq by (simp add: w' world_after_shift del: world_after.simps)
  with a r show ?case by (simp add: counted_def)
qed

text \<open>
  C4. Whatever the probe action does, \<open>retry\<close> with the default ceiling invokes it at most
  20 times. It returns the outcome of the first invocation that is not an empty result (a
  result with some output on \<open>stdout\<close> or \<open>stderr\<close>; a rejection of the action leaves
  \<open>retry\<close> the same way), after exactly that many invocations; and when all 20
  invocations return both streams empty it stops after the 20th and returns the empty
  result. The instrumented run returns what the plain one does.
\<close>

theorem retry_default_ceiling:
  "snd (snd (retry (counted action) DEFAULT_TIMES (w, 0))) \<le> 20 \<and>
   fst (retry (counted action) DEFAULT_TIMES (w, 0)) = fst (retry action DEFAULT_TIMES w) \<and>
   (\<forall>j<20. (\<forall>i<j. empty_result (outcome_at action w i)) \<and> \<not> empty_result (outcome_at action w j) \<longrightarrow>
      retry (counted action) DEFAULT_TIMES (w, 0) =
        (outcome_at action w j, (world_after action w (Suc j), Suc j))) \<and>
   ((\<forall>i<20. empty_result (outcome_at action w i)) \<longrightarrow>
      retry (counted action) DEFAULT_TIMES (w, 0) =
        (Inr \<lparr>stdout = [], stderr = []\<rparr>, (world_after action w 20, 20)))"
proof (intro conjI allI impI)
  show "snd (snd (retry (counted action) DEFAULT_TIMES (w, 0))) \<le> 20"
    using retry_loop_counted_le [of action 20 _ w 0] by (simp add: retry_def DEFAULT_TIMES_def)
  show "fst (retry (counted action) DEFAULT_TIMES (w, 0)) = fst (retry action DEFAULT_TIMES w)"
    using retry_loop_counted_same [of action 20 _ w 0] by (simp add: retry_def DEFAULT_TIMES_def)
next
  fix j :: nat
  assume "j < 20"
    and "(\<forall>i<j. empty_result (outcome_at action w i)) \<and> \<not> empty_result (outcome_at action w j)"
  then show "retry (counted action) DEFAULT_TIMES (w, 0) =
      (outcome_at action w j, (world_after action w (Suc j), Suc j))"
    using retry_loop_first [of j 20 action w _ 0] by (simp add: retry_def DEFAULT_TIMES_def)
next
  assume "\<forall>i<20. empty_result (outcome_at action w i)"
  then show "retry (counted action) DEFAULT_TIMES (w, 0) =
      (Inr \<lparr>stdout = [], stderr = []\<rparr>, (world_after action w 20, 20))"
    using retry_loop_none [of 20 action w _ 0] by (simp add: retry_def DEFAULT_TIMES_def)
qed

lemma silent_twice_world: "world_after silent_twice 0 k = k"
  by (induction k) (simp_all add: silent_twice_def)

lemma always_silent_world: "world_after always_silent 0 k = k"
  by (induction k) (simp_all add: always_silent_def)

theorem retry_default_ceiling_witness:
  "empty_result (outcome_at silent_twice 0 0) \<and> empty_result (outcome_at silent_twice 0 1) \<and>
   \<not> empty_result (outcome_at silent_twice 0 2) \<and>
   retry (counted silent_twice) DEFAULT_TIMES (0, 0) = (Inr \<lparr>stdout = ''Linux'', stderr = []\<rparr>, (3, 3)) \<and>
   retry (counted always_silent) DEFAULT_TIMES (0, 0) = (Inr \<lparr>stdout = [], stderr = []\<rparr>, (20, 20))"
proof -
  have o: "\<And>k. outcome_at silent_twice 0 k =
      Inr (if k < 2 then \<lparr>stdout = [], stderr = []\<rparr> else \<lparr>stdout = ''Linux'', stderr = []\<rparr>)"
    by (simp add: outcome_at_def silent_twice_world) (simp add: silent_twice_def)
  have e: "empty_result (outcome_at silent_twice 0 0)" "empty_result (outcome_at silent_twice 0 1)"
    "\<not> empty_result (outcome_at silent_twice 0 2)"
    by (simp_all add: o empty_result_def)
  have before: "\<forall>i<2. empty_result (outcome_at silent_twice 0 i)"
    by (simp add: o empty_result_def)
  have first: "retry (counted silent_twice) DEFAULT_TIMES (0, 0) =
      (Inr \<lparr>stdout = ''Linux'', stderr = []\<rparr>, (3, 3))"
    using retry_default_ceiling [of silent_twice 0, THEN conjunct2, THEN conjunct2, THEN conjunct1,
        rule_format, of 2] before e(3)
    by (simp add: o silent_twice_world del: world_after.simps)
  have s: "\<forall>i<20. empty_result (outcome_at always_silent 0 i)"
    by (simp add: outcome_at_def always_silent_def empty_result_def)
  have none: "retry (counted always_silent) DEFAULT_TIMES (0, 0) =
      (Inr \<lparr>stdout = [], stderr = []\<rparr>, (20, 20))"
    using retry_default_ceiling [of always_silent 0, THEN conjunct2, THEN conjunct2, THEN conjunct2] s
    by (simp add: always_silent_world del: world_after.simps)
  from e first none show ?thesis by simp
qed

subsection \<open>\<^verbatim>\<open>detectRemotePlatform\<close>\<close>

lemma str_includes_nonempty: "str_includes s (c # cs) \<Longrightarrow> s \<noteq> []"
  by (auto simp: str_includes_def)

text \<open>
  C7. Whatever result \<open>r\<close> the retried platform probe \<^verbatim>\<open>uname -s\<close> returns,
  \<open>detectRemotePlatform\<close> returns one of \<open>windows\<close>, \<open>linux\<close>, \<open>darwin\<close> or throws the
  detection error. The classes are tried in the order the claim lists them: \<open>windows\<close>
  exactly when \<open>stderr\<close> is non-empty or \<open>stdout\<close> contains \<^verbatim>\<open>windows32\<close> or
  \<^verbatim>\<open>MINGW64\<close>; otherwise \<open>linux\<close> exactly when \<open>stdout\<close> contains \<^verbatim>\<open>Linux\<close>;
  otherwise \<open>darwin\<close> exactly when \<open>stdout\<close> contains \<^verbatim>\<open>Darwin\<close>; and the error is
  thrown exactly for the results that match none of the three.
\<close>

theorem detectRemotePlatform_classifies:
  assumes "retry (exec connection ''uname -s'' []) DEFAULT_TIMES w = (Inr r, w')"
  shows "\<exists>out. detectRemotePlatform connection w = (out, w') \<and>
    out \<in> {Inr windows, Inr linux, Inr darwin,
       Inl (Error (''Failed to identify remote system: '' @ stdout r @ [CHR 0x0A] @ stderr r))} \<and>
    (out = Inr windows \<longleftrightarrow>
       stderr r \<noteq> [] \<or> str_includes (stdout r) ''windows32'' \<or> str_includes (stdout r) ''MINGW64'') \<and>
    (out = Inr linux \<longleftrightarrow>
       stderr r = [] \<and> \<not> str_includes (stdout r) ''windows32'' \<and> \<not> str_includes (stdout r) ''MINGW64'' \<and>
       str_includes (stdout r) ''Linux'') \<and>
    (out = Inr darwin \<longleftrightarrow>
       stderr r = [] \<and> \<not> str_includes (stdout r) ''windows32'' \<and> \<not> str_includes (stdout r) ''MINGW64'' \<and>
       \<not> str_includes (stdout r) ''Linux'' \<and> str_includes (stdout r) ''Darwin'') \<and>
    (out = Inl (Error (''Failed to identify remote system: '' @ stdout r @ [CHR 0x0A] @ stderr r)) \<longleftrightarrow>
       stderr r = [] \<and> \<not> str_includes (stdout r) ''windows32'' \<and> \<not> str_includes (stdout r) ''MINGW64'' \<and>
       \<not> str_includes (stdout r) ''Linux'' \<and> \<not> str_includes (stdout r) ''Darwin'')"
proof -
  have ne: "stdout r \<noteq> []"
    if "str_includes (stdout r) ''windows32'' \<or> str_includes (stdout r) ''MINGW64'' \<or>
        str_includes (stdout r) ''Linux'' \<or> str_includes (stdout r) ''Darwin''"
    using that str_includes_nonempty by blast
  show ?thesis
    using assms ne by (auto simp: detectRemotePlatform_def)
qed

text \<open>The probe of \<open>silent_twice\<close>, as a connection: its third answer is \<^verbatim>\<open>Linux\<close>.\<close>

theorem detectRemotePlatform_classifies_witness:
  "retry (exec \<lparr>exec = (\<lambda>cmd args. silent_twice), execPartial = (\<lambda>cmd tester args w. (Inl (TransportError []), w)),
       copy = (\<lambda>l r w. (Inr (), w))\<rparr> ''uname -s'' []) DEFAULT_TIMES 0
     = (Inr \<lparr>stdout = ''Linux'', stderr = []\<rparr>, 3) \<and>
   detectRemotePlatform \<lparr>exec = (\<lambda>cmd args. silent_twice), execPartial = (\<lambda>cmd tester args w. (Inl (TransportError []), w)),
       copy = (\<lambda>l r w. (Inr (), w))\<rparr> 0 = (Inr linux, 3)"
proof -
  let ?c = "\<lparr>exec = (\<lambda>cmd args. silent_twice),
       execPartial = (\<lambda>cmd tester args w. (Inl (TransportError []), w)),
       copy = (\<lambda>l r w. (Inr (), w))\<rparr> :: nat RemoteConnection"
  have r: "retry (exec ?c ''uname -s'' []) DEFAULT_TIMES 0 = (Inr \<lparr>stdout = ''Linux'', stderr = []\<rparr>, 3)"
    by (simp add: retry_def DEFAULT_TIMES_def silent_twice_def eval_nat_numeral)
  have inc: "str_includes ''Linux'' ''Linux''" "\<not> str_includes ''Linux'' ''windows32''"
    "\<not> str_includes ''Linux'' ''MINGW64''"
    by code_simp+
  from detectRemotePlatform_classifies [OF r] inc
  have "detectRemotePlatform ?c 0 = (Inr linux, 3)" by auto
  with r show ?thesis by simp
qed

text \<open>
  C10. Whenever the retried platform probe returns a result with a non-empty \<open>stderr\<close>,
  \<open>detectRemotePlatform\<close> returns \<open>windows\<close>, whatever \<open>stdout\<close> holds: the check of
  \<open>stderr\<close> comes first, so a probe that printed \<^verbatim>\<open>Linux\<close> or \<^verbatim>\<open>Darwin\<close>
  beside a warning is classified as windows.
\<close>

theorem detectRemotePlatform_stderr_is_windows:
  assumes "retry (exec connection ''uname -s'' []) DEFAULT_TIMES w = (Inr r, w')"
    and "stderr r \<noteq> []"
  shows "detectRemotePlatform connection w = (Inr windows, w')"
  using assms by (simp add: detectRemotePlatform_def)

theorem detectRemotePlatform_stderr_is_windows_witness:
  "retry (exec noisy_linux ''uname -s'' []) DEFAULT_TIMES ()
     = (Inr \<lparr>stdout = ''Linux'', stderr = ''Warning: no home directory''\<rparr>, ()) \<and>
   str_includes ''Linux'' ''Linux'' \<and>
   detectRemotePlatform noisy_linux () = (Inr windows, ())"
proof -
  have r: "retry (exec noisy_linux ''uname -s'' []) DEFAULT_TIMES ()
     = (Inr \<lparr>stdout = ''Linux'', stderr = ''Warning: no home directory''\<rparr>, ())"
    by (simp add: retry_def DEFAULT_TIMES_def noisy_linux_def eval_nat_numeral)
  have "detectRemotePlatform noisy_linux () = (Inr windows, ())"
    by (rule detectRemotePlatform_stderr_is_windows [OF r]) simp
  with r show ?thesis by (simp add: str_includes_def)
qed

subsection \<open>\<^verbatim>\<open>dirExistsRemote\<close>\<close>

lemma retry_loop_traced_calls:
  "\<exists>m\<le>k. snd (snd (retry_loop (exec (traced c) cmd args) k res (w, tr))) = tr @ replicate m (Exec cmd args)"
proof (induction k arbitrary: res w tr)
  case 0
  then show ?case by simp
next
  case (Suc k)
  obtain out w' where a: "exec c cmd args w = (out, w')" by (cases "exec c cmd args w")
  show ?case
  proof (cases out)
    case (Inl e)
    with a have "snd (snd (retry_loop (exec (traced c) cmd args) (Suc k) res (w, tr)))
        = tr @ replicate 1 (Exec cmd args)"
      by (simp add: traced_def)
    then show ?thesis by (intro exI [of _ 1]) simp
  next
    case (Inr r)
    show ?thesis
    proof (cases "stderr r \<noteq> [] \<or> stdout r \<noteq> []")
      case True
      with a Inr have "snd (snd (retry_loop (exec (traced c) cmd args) (Suc k) res (w, tr)))
          = tr @ replicate 1 (Exec cmd args)"
        by (simp add: traced_def)
      then show ?thesis by (intro exI [of _ 1]) simp
    next
      case False
      from Suc.IH [of r w' "tr @ [Exec cmd args]"]
      obtain m where m: "m \<le> k"
        "snd (snd (retry_loop (exec (traced c) cmd args) k r (w', tr @ [Exec cmd args])))
          = (tr @ [Exec cmd args]) @ replicate m (Exec cmd args)"
        by blast
      from a Inr False have "retry_loop (exec (traced c) cmd args) (Suc k) res (w, tr)
          = retry_loop (exec (traced c) cmd args) k r (w', tr @ [Exec cmd args])"
        by (simp add: traced_def)
      with m have "snd (snd (retry_loop (exec (traced c) cmd args) (Suc k) res (w, tr)))
          = tr @ replicate (Suc m) (Exec cmd args)"
        by simp
      with m(1) show ?thesis by (intro exI [of _ "Suc m"]) simp
    qed
  qed
qed

text \<open>
  C9. For every remote path \<open>p\<close>: \<open>dirExistsRemote\<close> answers that \<open>p\<close> exists exactly when
  the \<open>stdout\<close> of the retried probe is non-empty, and never reads its \<open>stderr\<close> (a
  rejection of the probe is passed on); every command it issues on the connection is
  \<^verbatim>\<open>cd "<p>";echo "Success"\<close> with no arguments; and an execution of that command with
  any output on \<open>stdout\<close>, as the unconditional \<^verbatim>\<open>echo\<close> produces, is classified as
  existing whatever \<^verbatim>\<open>cd\<close> wrote to \<open>stderr\<close>.
\<close>

theorem dirExistsRemote_reads_stdout_only:
  \<open>(\<forall>r w'. retry (exec connection (''cd "'' @ p @ ''";echo "Success"'') []) DEFAULT_TIMES w = (Inr r, w') \<longrightarrow>
      dirExistsRemote connection p w = (Inr (stdout r \<noteq> []), w')) \<and>
   (\<forall>e w'. retry (exec connection (''cd "'' @ p @ ''";echo "Success"'') []) DEFAULT_TIMES w = (Inl e, w') \<longrightarrow>
      dirExistsRemote connection p w = (Inl e, w')) \<and>
   set (snd (snd (dirExistsRemote (traced connection) p (w, [])))) \<subseteq> {Exec (''cd "'' @ p @ ''";echo "Success"'') []} \<and>
   (\<forall>r w'. exec connection (''cd "'' @ p @ ''";echo "Success"'') [] w = (Inr r, w') \<and> stdout r \<noteq> [] \<longrightarrow>
      dirExistsRemote connection p w = (Inr True, w'))\<close>
proof (intro conjI allI impI)
  fix r w'
  assume \<open>retry (exec connection (''cd "'' @ p @ ''";echo "Success"'') []) DEFAULT_TIMES w = (Inr r, w')\<close>
  then show "dirExistsRemote connection p w = (Inr (stdout r \<noteq> []), w')"
    by (simp add: dirExistsRemote_def)
next
  fix e w'
  assume \<open>retry (exec connection (''cd "'' @ p @ ''";echo "Success"'') []) DEFAULT_TIMES w = (Inl e, w')\<close>
  then show "dirExistsRemote connection p w = (Inl e, w')"
    by (simp add: dirExistsRemote_def)
next
  let ?cmd = \<open>''cd "'' @ p @ ''";echo "Success"''\<close>
  obtain out w' tr where run: "retry (exec (traced connection) ?cmd []) DEFAULT_TIMES (w, []) = (out, (w', tr))"
    by (metis surj_pair)
  from retry_loop_traced_calls [where k = DEFAULT_TIMES and c = connection and cmd = ?cmd
      and args = "[]" and res = "\<lparr>stdout = [], stderr = []\<rparr>" and w = w and tr = "[]"]
  obtain m where "snd (snd (retry (exec (traced connection) ?cmd []) DEFAULT_TIMES (w, [])))
      = replicate m (Exec ?cmd [])"
    unfolding retry_def by auto
  with run have "tr = replicate m (Exec ?cmd [])"
    by simp
  moreover have "snd (snd (dirExistsRemote (traced connection) p (w, []))) = tr"
    using run by (cases out) (simp_all add: dirExistsRemote_def)
  ultimately show "set (snd (snd (dirExistsRemote (traced connection) p (w, [])))) \<subseteq> {Exec ?cmd []}"
    by auto
next
  fix r w'
  assume \<open>exec connection (''cd "'' @ p @ ''";echo "Success"'') [] w = (Inr r, w') \<and> stdout r \<noteq> []\<close>
  then show "dirExistsRemote connection p w = (Inr True, w')"
    by (simp add: dirExistsRemote_def retry_def DEFAULT_TIMES_def eval_nat_numeral)
qed

theorem dirExistsRemote_reads_stdout_only_witness:
  \<open>exec absent_dir_shell (''cd "'' @ ''/home/u/.theia-remote/lib'' @ ''";echo "Success"'') [] ()
     = (Inr \<lparr>stdout = ''Success'' @ [CHR 0x0A], stderr = ''sh: cd: no such file or directory''\<rparr>, ()) \<and>
   dirExistsRemote absent_dir_shell ''/home/u/.theia-remote/lib'' () = (Inr True, ())\<close>
proof -
  have e: \<open>exec absent_dir_shell (''cd "'' @ ''/home/u/.theia-remote/lib'' @ ''";echo "Success"'') [] ()
     = (Inr \<lparr>stdout = ''Success'' @ [CHR 0x0A], stderr = ''sh: cd: no such file or directory''\<rparr>, ())\<close>
    by (simp add: absent_dir_shell_def)
  from dirExistsRemote_reads_stdout_only [of absent_dir_shell "''/home/u/.theia-remote/lib''" "()",
      THEN conjunct2, THEN conjunct2, THEN conjunct2, rule_format, OF conjI, OF e]
  have "dirExistsRemote absent_dir_shell ''/home/u/.theia-remote/lib'' () = (Inr True, ())"
    by simp
  with e show ?thesis by simp
qed

subsection \<open>\<^verbatim>\<open>execPartial\<close>\<close>

lemma resolve_settled: "settled d = Some v \<Longrightarrow> settled (resolve res d) = Some v"
  by (simp add: resolve_def)

lemma run_then_settled [simp]: "settled (run_then d) = settled d"
  by (simp add: run_then_def split: option.splits sum.splits)

lemma emit_keeps_outcome:
  assumes "settled (deferred s) = Some v"
  shows "settled (deferred (emit tester s ev)) = Some v"
proof (cases ev)
  case (Chunk c)
  with assms show ?thesis
    by (cases c)
      (simp_all add: on_data_def on_stderr_data_def test_and_resolve_def resolve_settled split: prod.splits)
next
  case Close
  with assms show ?thesis by (simp add: on_close_def resolve_settled)
qed

lemma run_task_keeps_outcome:
  "settled (deferred s) = Some v \<Longrightarrow> settled (deferred (run_task tester s x)) = Some v"
  by (cases x) (simp_all add: emit_keeps_outcome)

lemma tasks_keep_outcome:
  "settled (deferred s) = Some v \<Longrightarrow> settled (deferred (foldl (run_task tester) s xs)) = Some v"
  by (induction xs arbitrary: s) (simp_all add: run_task_keeps_outcome)

lemma foldl_emit_tasks: "foldl (run_task tester) s (map Handle evs) = foldl (emit tester) s evs"
  by (induction evs arbitrary: s) simp_all

lemma turns_as_tasks: "foldl (turn tester) s turns = foldl (run_task tester) s (tasks_of turns)"
  by (induction turns arbitrary: s) (simp_all add: tasks_of_def turn_def Let_def foldl_emit_tasks)

lemma events_of_append [simp]: "events_of (xs @ ys) = events_of xs @ events_of ys"
  by (induction xs rule: events_of.induct) simp_all

lemma events_of_Handle [simp]: "events_of (map Handle evs) = evs"
  by (induction evs) simp_all

lemma events_of_tasks: "events_of (tasks_of turns) = concat turns"
  by (induction turns) (simp_all add: tasks_of_def)

lemma find_append_case:
  "find P (xs @ ys) = (case find P xs of Some x \<Rightarrow> Some x | None \<Rightarrow> find P ys)"
  by (induction xs) auto

lemma find_Some_in: "find P xs = Some x \<Longrightarrow> x \<in> set xs \<and> P x"
  by (induction xs) (auto split: if_splits)

lemma holds_after_snoc: "k \<le> length cs \<Longrightarrow> holds_after P (cs @ [c]) k = holds_after P cs k"
  by (simp add: holds_after_def)

lemma first_hit_snoc:
  "first_hit P (cs @ [c]) = (case first_hit P cs of Some k \<Rightarrow> Some k
      | None \<Rightarrow> if holds_after P (cs @ [c]) (Suc (length cs)) then Some (Suc (length cs)) else None)"
proof -
  have "find (holds_after P (cs @ [c])) [1..<Suc (length cs)] = find (holds_after P cs) [1..<Suc (length cs)]"
    by (rule find_cong) (auto simp: holds_after_snoc)
  moreover have "[1..<Suc (Suc (length cs))] = [1..<Suc (length cs)] @ [Suc (length cs)]"
    by simp
  ultimately show ?thesis
    unfolding first_hit_def by (simp add: find_append_case del: upt_Suc split: option.splits)
qed

lemma find_upt_iff:
  "find Q [1..<Suc n] = Some k \<longleftrightarrow>
     1 \<le> k \<and> k \<le> n \<and> Q k \<and> (\<forall>j. 1 \<le> j \<and> j < k \<longrightarrow> \<not> Q j)"
proof
  assume "find Q [1..<Suc n] = Some k"
  then obtain i where i: "i < n" "Q (Suc i)" "k = Suc i" "\<forall>j<i. \<not> Q (Suc j)"
    by (auto simp: find_Some_iff nth_upt simp del: upt_Suc)
  have "\<not> Q j" if "1 \<le> j" "j < k" for j
  proof -
    from that obtain j' where "j = Suc j'" by (cases j) auto
    with that i show ?thesis by auto
  qed
  with i show "1 \<le> k \<and> k \<le> n \<and> Q k \<and> (\<forall>j. 1 \<le> j \<and> j < k \<longrightarrow> \<not> Q j)" by auto
next
  assume a: "1 \<le> k \<and> k \<le> n \<and> Q k \<and> (\<forall>j. 1 \<le> j \<and> j < k \<longrightarrow> \<not> Q j)"
  then obtain i where i: "k = Suc i" by (cases k) auto
  with a have "i < n \<and> Q ([1..<Suc n] ! i) \<and> k = [1..<Suc n] ! i \<and> (\<forall>j<i. \<not> Q ([1..<Suc n] ! j))"
    by (auto simp: nth_upt simp del: upt_Suc)
  then show "find Q [1..<Suc n] = Some k"
    unfolding find_Some_iff by (auto simp del: upt_Suc)
qed

lemma first_hit_Some_iff:
  "first_hit P cs = Some k \<longleftrightarrow>
     1 \<le> k \<and> k \<le> length cs \<and> holds_after P cs k \<and> (\<forall>j. 1 \<le> j \<and> j < k \<longrightarrow> \<not> holds_after P cs j)"
  unfolding first_hit_def by (rule find_upt_iff)

lemma seen_snoc: "k \<le> length cs \<Longrightarrow> seen (cs @ [c]) k = seen cs k"
  by (auto simp: seen_def)

lemma accumulated_snoc:
  "accumulated (cs @ [c]) =
     \<lparr>stdout = stdout (accumulated cs) @ stdout_of c, stderr = stderr (accumulated cs) @ stderr_of c\<rparr>"
  by (simp add: accumulated_def)


lemma first_hit_append:
  assumes "first_hit P xs = Some k"
  shows "first_hit P (xs @ ys) = Some k"
proof -
  from assms have k: "1 \<le> k" "k \<le> length xs" "holds_after P xs k"
    "\<forall>j. 1 \<le> j \<and> j < k \<longrightarrow> \<not> holds_after P xs j"
    unfolding first_hit_Some_iff by auto
  have "holds_after P (xs @ ys) j = holds_after P xs j" if "j \<le> length xs" for j
    using that by (simp add: holds_after_def)
  with k show ?thesis unfolding first_hit_Some_iff by auto
qed

lemma first_hit_next:
  assumes "first_hit P pre = None"
  shows "first_hit P (pre @ c # cs) =
     (if P (stdout (accumulated (pre @ [c]))) (stderr (accumulated (pre @ [c])))
      then Some (Suc (length pre)) else first_hit P ((pre @ [c]) @ cs))"
proof (cases "P (stdout (accumulated (pre @ [c]))) (stderr (accumulated (pre @ [c])))")
  case True
  with assms have "first_hit P (pre @ [c]) = Some (Suc (length pre))"
    by (simp add: first_hit_snoc holds_after_def)
  from first_hit_append [OF this, of cs] True show ?thesis by simp
next
  case False
  then show ?thesis by simp
qed

lemma outcome_of_tasks:
  assumes "events_of xs = map Chunk cs @ Close # later"
    and "settled (deferred s) = None" and "state (deferred s) = unresolved"
    and "stdout_buf s = stdout (accumulated pre)" and "stderr_buf s = stderr (accumulated pre)"
    and "first_hit P pre = None"
  shows "settled (deferred (foldl (run_task (logging P)) s xs)) =
     Some (Inr (case first_hit P (pre @ cs) of
                  Some k \<Rightarrow> accumulated (take k (pre @ cs))
                | None \<Rightarrow> accumulated (pre @ cs)))"
  using assms
proof (induction xs arbitrary: s pre cs)
  case Nil
  then show ?case by simp
next
  case (Cons x xs)
  show ?case
  proof (cases x)
    case Microtasks
    with Cons.prems have "run_task (logging P) s x = s"
      by (simp add: run_then_def)
    with Cons.IH [OF _ Cons.prems(2-6)] Cons.prems(1) Microtasks show ?thesis by simp
  next
    case (Handle ev)
    with Cons.prems(1) have evs: "ev # events_of xs = map Chunk cs @ Close # later" by simp
    show ?thesis
    proof (cases cs)
      case Nil
      with evs have ev: "ev = Close" by simp
      with Cons.prems have "settled (deferred (run_task (logging P) s x)) = Some (Inr (accumulated pre))"
        by (simp add: Handle on_close_def resolve_def accumulated_def)
      from tasks_keep_outcome [OF this] Nil Cons.prems(6) show ?thesis by simp
    next
      case cs: (Cons c cs')
      with evs have ev: "ev = Chunk c" and rest: "events_of xs = map Chunk cs' @ Close # later" by simp_all
      have eq: "pre @ cs = (pre @ [c]) @ cs'" using cs by simp
      let ?s = "run_task (logging P) s x"
      show ?thesis
      proof (cases "P (stdout (accumulated (pre @ [c]))) (stderr (accumulated (pre @ [c])))")
        case True
        with Cons.prems(2-5) have "settled (deferred ?s) = Some (Inr (accumulated (pre @ [c])))"
          by (cases c)
            (simp_all add: Handle ev on_data_def on_stderr_data_def test_and_resolve_def logging_def
              resolve_def accumulated_def)
        from tasks_keep_outcome [OF this]
        have "settled (deferred (foldl (run_task (logging P)) s (x # xs))) = Some (Inr (accumulated (pre @ [c])))"
          by simp
        moreover from True first_hit_next [OF Cons.prems(6), of c cs']
        have "first_hit P (pre @ cs) = Some (Suc (length pre))" by (simp add: cs)
        moreover have "take (Suc (length pre)) (pre @ cs) = pre @ [c]" by (simp add: cs)
        ultimately show ?thesis by simp
      next
        case False
        with Cons.prems(2-5) have inv: "settled (deferred ?s) = None" "state (deferred ?s) = unresolved"
          "stdout_buf ?s = stdout (accumulated (pre @ [c]))" "stderr_buf ?s = stderr (accumulated (pre @ [c]))"
          by (cases c;
            simp add: Handle ev on_data_def on_stderr_data_def test_and_resolve_def logging_def
              accumulated_def)+
        from False Cons.prems(6) have nh: "first_hit P (pre @ [c]) = None"
          by (simp add: first_hit_snoc holds_after_def)
        show ?thesis unfolding eq foldl_Cons by (rule Cons.IH [OF rest inv nh])
      qed
    qed
  qed
qed


text \<open>
  The value of the promise, for every way the stream groups its events in turns: when the
  events are the data chunks \<open>cs\<close> (on either stream), then \<^verbatim>\<open>'close'\<close>, then anything,
  and the tester decides by \<open>P\<close>, the promise is resolved with the buffers accumulated up
  to the first chunk after which \<open>P\<close> holds, or, when \<open>P\<close> never holds, with the buffers
  accumulated over all chunks.
\<close>

lemma execPartial_outcome:
  assumes "client_exec (buildCmd cmd args) w = (Inr turns, w')"
    and "concat turns = map Chunk cs @ Close # later"
  shows "fst (fst (ssh_execPartial client_exec cmd (logging P) args [] w)) =
     Some (Inr (case first_hit P cs of Some k \<Rightarrow> accumulated (take k cs) | None \<Rightarrow> accumulated cs))"
proof -
  have ev: "events_of (tasks_of turns) = map Chunk cs @ Close # later"
    using assms(2) by (simp add: events_of_tasks)
  have i: "settled (deferred (initial [])) = None" "state (deferred (initial [])) = unresolved"
    "stdout_buf (initial []) = stdout (accumulated [])" "stderr_buf (initial []) = stderr (accumulated [])"
    by (simp_all add: initial_def accumulated_def)
  have n: "first_hit P [] = None" by (simp add: first_hit_def)
  from outcome_of_tasks [OF ev i n, unfolded append_Nil] assms(1) show ?thesis
    by (simp add: ssh_execPartial_def Let_def turns_as_tasks)
qed

lemma emit_settled: "state (deferred s) \<noteq> unresolved \<Longrightarrow> emit tester s ev = s"
proof (cases ev)
  case (Chunk c)
  assume "state (deferred s) \<noteq> unresolved"
  with Chunk show ?thesis by (cases c) (simp_all add: on_data_def on_stderr_data_def)
next
  case Close
  assume "state (deferred s) \<noteq> unresolved"
  with Close show ?thesis by (simp add: on_close_def)
qed

lemma turn_settled:
  assumes "state (deferred s) = resolved" and "settled (deferred s) = Some (Inr v)"
  shows "turn tester s evs = s"
proof -
  from assms(1) have "foldl (emit tester) s evs = s"
    by (induction evs) (simp_all add: emit_settled)
  with assms show ?thesis by (simp add: turn_def run_then_def)
qed

lemma turns_settled:
  assumes "state (deferred s) = resolved" and "settled (deferred s) = Some (Inr v)"
  shows "foldl (turn tester) s turns = s"
  using assms by (induction turns) (simp_all add: turn_settled)

lemma run_one_by_one:
  "foldl (turn (logging P)) (initial []) (map (\<lambda>c. [Chunk c]) cs) =
     (case first_hit P cs of
        Some k \<Rightarrow> \<lparr>stdout_buf = stdout (accumulated (take k cs)), stderr_buf = stderr (accumulated (take k cs)),
                   deferred = \<lparr>settled = Some (Inr (accumulated (take k cs))), state = resolved\<rparr>,
                   tester_state = seen cs k\<rparr>
      | None \<Rightarrow> \<lparr>stdout_buf = stdout (accumulated cs), stderr_buf = stderr (accumulated cs),
                   deferred = \<lparr>settled = None, state = unresolved\<rparr>,
                   tester_state = seen cs (length cs)\<rparr>)"
proof (induction cs rule: rev_induct)
  case Nil
  then show ?case by (simp add: first_hit_def initial_def accumulated_def seen_def)
next
  case (snoc c cs)
  show ?case
  proof (cases "first_hit P cs")
    case (Some k)
    then have "k \<le> length cs" by (auto simp: first_hit_def dest!: find_Some_in)
    with Some snoc show ?thesis
      by (simp add: first_hit_snoc turn_settled seen_snoc)
  next
    case None
    have s: "seen (cs @ [c]) (Suc (length cs)) = seen cs (length cs) @
        [(stdout (accumulated (cs @ [c])), stderr (accumulated (cs @ [c])))]"
    proof -
      have "seen (cs @ [c]) (Suc (length cs)) = seen (cs @ [c]) (length cs) @
          [(stdout (accumulated (cs @ [c])), stderr (accumulated (cs @ [c])))]"
        unfolding seen_def by simp
      then show ?thesis by (simp add: seen_snoc)
    qed
    from None snoc s show ?thesis
      by (cases c)
        (simp_all add: first_hit_snoc turn_def on_data_def on_stderr_data_def test_and_resolve_def logging_def
          holds_after_def accumulated_snoc resolve_def run_then_def)
  qed
qed

text \<open>
  When every event arrives in a turn of its own, the tester is invoked once after each
  chunk up to and including the first one after which \<open>P\<close> holds, and not after it.
\<close>

lemma execPartial_one_by_one:
  assumes "client_exec (buildCmd cmd args) w =
      (Inr (map (\<lambda>c. [Chunk c]) cs @ [Close] # later), w')"
  shows "ssh_execPartial client_exec cmd (logging P) args [] w =
      ((Some (Inr (case first_hit P cs of Some k \<Rightarrow> accumulated (take k cs) | None \<Rightarrow> accumulated cs)),
        seen cs (case first_hit P cs of Some k \<Rightarrow> k | None \<Rightarrow> length cs)), w')"
proof -
  let ?run = "foldl (turn (logging P)) (initial []) (map (\<lambda>c. [Chunk c]) cs)"
  have split: "foldl (turn (logging P)) (initial []) (map (\<lambda>c. [Chunk c]) cs @ [Close] # later) =
      foldl (turn (logging P)) (turn (logging P) ?run [Close]) later"
    by simp
  show ?thesis
  proof (cases "first_hit P cs")
    case None
    let ?s' = "\<lparr>stdout_buf = stdout (accumulated cs), stderr_buf = stderr (accumulated cs),
        deferred = \<lparr>settled = Some (Inr (accumulated cs)), state = resolved\<rparr>,
        tester_state = seen cs (length cs)\<rparr>"
    from None have "turn (logging P) ?run [Close] = ?s'"
      by (simp add: run_one_by_one turn_def on_close_def resolve_def run_then_def)
    moreover have "foldl (turn (logging P)) ?s' later = ?s'"
      by (rule turns_settled) simp_all
    ultimately have "foldl (turn (logging P)) (initial []) (map (\<lambda>c. [Chunk c]) cs @ [Close] # later) = ?s'"
      unfolding split by simp
    with assms None show ?thesis
      by (simp add: ssh_execPartial_def del: foldl_append)
  next
    case (Some k)
    let ?s = "\<lparr>stdout_buf = stdout (accumulated (take k cs)), stderr_buf = stderr (accumulated (take k cs)),
        deferred = \<lparr>settled = Some (Inr (accumulated (take k cs))), state = resolved\<rparr>,
        tester_state = seen cs k\<rparr>"
    from Some have r: "?run = ?s" by (simp add: run_one_by_one)
    have "foldl (turn (logging P)) ?s ([Close] # later) = ?s"
      by (rule turns_settled) simp_all
    with r have "foldl (turn (logging P)) (initial []) (map (\<lambda>c. [Chunk c]) cs @ [Close] # later) = ?s"
      by simp
    with assms Some show ?thesis
      by (simp add: ssh_execPartial_def del: foldl_append)
  qed
qed

text \<open>
  C2. On the stream \<open>two_at_once\<close> the tester "\<open>stdout\<close> contains \<^verbatim>\<open>ready\<close>" returns true
  at its third invocation, on the buffers \<^verbatim>\<open>not ready\<close> and \<^verbatim>\<open>warn\<close>, and
  \<open>execPartial\<close> resolves with these buffers. The chunk that arrives in the same turn
  passes the test \<^verbatim>\<open>deferred.state === 'unresolved'\<close> all the same, since the state of the
  deferred result has not changed yet: the chunk is appended to the local buffer and the
  tester is invoked a fourth time.
\<close>

theorem execPartial_tests_again_after_hit:
  "ssh_execPartial (\<lambda>cmd w. (Inr two_at_once, w)) ''node'' (logging says_ready) [''main.js''] [] ()
     = ((Some (Inr \<lparr>stdout = ''not ready'', stderr = ''warn''\<rparr>),
         [(''not '', []), (''not '', ''warn''), (''not ready'', ''warn''), (''not ready and more'', ''warn'')]), ()) \<and>
   says_ready ''not ready'' ''warn''"
  by (simp add: ssh_execPartial_def two_at_once_def turn_def initial_def on_data_def on_stderr_data_def
      on_close_def test_and_resolve_def logging_def resolve_def run_then_def says_ready_def
      str_includes_def sublist_code)

text \<open>The same chunks with a turn for each: three invocations.\<close>

lemma execPartial_one_by_one_example:
  "ssh_execPartial (\<lambda>cmd w. (Inr one_by_one, w)) ''node'' (logging says_ready) [''main.js''] [] ()
     = ((Some (Inr \<lparr>stdout = ''not ready'', stderr = ''warn''\<rparr>),
         [(''not '', []), (''not '', ''warn''), (''not ready'', ''warn'')]), ())"
  by (simp add: ssh_execPartial_def one_by_one_def turn_def initial_def on_data_def on_stderr_data_def
      on_close_def test_and_resolve_def logging_def resolve_def run_then_def says_ready_def
      str_includes_def sublist_code)

subsection \<open>The authentication handler\<close>

lemma passphrase_loop_no_password_prompt:
  "password_prompts user host (snd (snd (passphrase_loop (prompted env) file buf res n (w, ts))))
     = password_prompts user host ts"
proof (induction n arbitrary: res w ts)
  case 0
  then show ?case by simp
next
  case (Suc n)
  obtain r w' where i: "input env (''Enter passphrase for '' @ file) True w = (r, w')"
    by (cases "input env (''Enter passphrase for '' @ file) True w")
  show ?case
  proof (cases "isError res")
    case False
    then show ?thesis by simp
  next
    case True
    show ?thesis
    proof (cases r)
      case None
      with i True show ?thesis by (simp add: prompted_def password_prompts_def)
    next
      case (Some passphrase)
      show ?thesis
      proof (cases "passphrase = []")
        case True
        with i Some \<open>isError res\<close> show ?thesis by (simp add: prompted_def password_prompts_def)
      next
        case False
        have "password_prompts user host (snd (snd (passphrase_loop (prompted env) file buf
            (parseKey env buf (Some passphrase)) n (w', ts @ [''Enter passphrase for '' @ file]))))
          = password_prompts user host (ts @ [''Enter passphrase for '' @ file])"
          by (rule Suc.IH)
        with i Some False \<open>isError res\<close> show ?thesis
          by (simp add: prompted_def password_prompts_def)
      qed
    qed
  qed
qed

lemma ask_prompts_no_password_prompt:
  "password_prompts user host (snd (snd (ask_prompts (prompted env) user host ps rs (w, ts))))
     = password_prompts user host ts"
proof (induction ps arbitrary: rs w ts)
  case Nil
  then show ?case by simp
next
  case (Cons p ps)
  let ?title = "''('' @ user @ ''@'' @ host @ '') '' @ prompt p"
  obtain r w' where i: "input env ?title (\<not> echo p) w = (r, w')"
    by (cases "input env ?title (\<not> echo p) w")
  show ?case
  proof (cases r)
    case None
    with i show ?thesis by (simp add: prompted_def password_prompts_def)
  next
    case (Some response)
    have "password_prompts user host (snd (snd (ask_prompts (prompted env) user host ps (rs @ [response])
          (w', ts @ [?title]))))
        = password_prompts user host (ts @ [?title])"
      by (rule Cons.IH)
    with i Some show ?thesis by (simp add: prompted_def password_prompts_def)
  qed
qed


lemma tryIdentityKey_no_password:
  "password_prompts user host (snd (snd (tryIdentityKey (prompted env) user key (w, ts))))
     = password_prompts user host ts \<and>
   password_answers [fst (tryIdentityKey (prompted env) user key (w, ts))] = 0"
proof (cases "isPrivate key")
  case True
  then show ?thesis by (simp add: tryIdentityKey_def password_answers_def)
next
  case False
  obtain ex w1 where pe: "pathExists env (filename key) w = (ex, w1)"
    by (cases "pathExists env (filename key) w")
  show ?thesis
  proof (cases ex)
    case False
    with pe \<open>\<not> isPrivate key\<close> show ?thesis
      by (simp add: tryIdentityKey_def prompted_def password_answers_def)
  next
    case True
    obtain rd w2 where rf: "readFile env (filename key) w1 = (rd, w2)"
      by (cases "readFile env (filename key) w1")
    show ?thesis
    proof (cases rd)
      case (Inl e)
      with pe rf True \<open>\<not> isPrivate key\<close> show ?thesis
        by (simp add: tryIdentityKey_def prompted_def password_answers_def)
    next
      case (Inr keyBuffer)
      let ?enc = "ParseError ''Encrypted private OpenSSH key detected, but no passphrase given''"
      define parsed where "parsed =
        (if parseKey env keyBuffer None = ?enc
         then passphrase_loop (prompted env) (filename key) keyBuffer (parseKey env keyBuffer None)
                (nat this_passphraseRetryCount) (w2, ts)
         else (parseKey env keyBuffer None, (w2, ts)))"
      have pp: "password_prompts user host (snd (snd parsed)) = password_prompts user host ts"
        by (simp add: parsed_def passphrase_loop_no_password_prompt)
      have t: "tryIdentityKey (prompted env) user key (w, ts) =
        (case parsed of
           (ParseError m, w3) \<Rightarrow> (Inr NEXT_AUTH, w3)
         | (Parsed k, w3) \<Rightarrow> (Inr (AuthPublicKey user (Some k)), w3)
         | (ParsedList ks, w3) \<Rightarrow>
             (Inr (AuthPublicKey user (case ks of [] \<Rightarrow> None | k # _ \<Rightarrow> Some k)), w3))"
        using pe rf True Inr \<open>\<not> isPrivate key\<close>
        by (simp add: tryIdentityKey_def prompted_def parsed_def Let_def)
      obtain res w3 where p: "parsed = (res, w3)" by (cases parsed)
      with pp t show ?thesis
        by (cases res) (simp_all add: password_answers_def)
    qed
  qed
qed

lemma authHandler_budget:
  assumes "authHandler (prompted env) user host ml st (w, ts) = (a, st', (w', ts'))"
  shows "int (password_prompts user host ts') + passwordRetryCount st'
           = int (password_prompts user host ts) + passwordRetryCount st \<and>
         (0 \<le> passwordRetryCount st \<longrightarrow> 0 \<le> passwordRetryCount st') \<and>
         password_prompts user host ts + password_answers [a] \<le> password_prompts user host ts'"
proof (cases ml)
  case None
  with assms show ?thesis by (auto simp: authHandler_def password_answers_def)
next
  case (Some ms)
  show ?thesis
  proof (cases "''publickey'' \<in> set ms \<and> length (identityKeys st) \<noteq> 0")
    case True
    obtain ans wt where t: "tryIdentityKey (prompted env) user (hd (identityKeys st)) (w, ts) = (ans, wt)"
      by (cases "tryIdentityKey (prompted env) user (hd (identityKeys st)) (w, ts)")
    with assms Some True have e: "a = ans" "st' = st\<lparr>identityKeys := tl (identityKeys st)\<rparr>" "wt = (w', ts')"
      by (simp_all add: authHandler_def)
    from tryIdentityKey_no_password [of user host env "hd (identityKeys st)" w ts] t e
    show ?thesis by simp
  next
    case False
    note nokey = this
    show ?thesis
    proof (cases "''password'' \<in> set ms \<and> passwordRetryCount st > 0")
      case True
      obtain pw w1 where i: "input env (''Enter password for '' @ user @ ''@'' @ host) True w = (pw, w1)"
        by (cases "input env (''Enter password for '' @ user @ ''@'' @ host) True w")
      with assms Some nokey True have e:
        "st' = st\<lparr>passwordRetryCount := passwordRetryCount st - 1\<rparr>"
        "ts' = ts @ [''Enter password for '' @ user @ ''@'' @ host]"
        "a = Inr (case pw of None \<Rightarrow> END_AUTH | Some p \<Rightarrow> if p \<noteq> [] then AuthPassword user p else END_AUTH)"
        by (auto simp: authHandler_def prompted_def)
      have "password_answers [a] \<le> 1"
        by (simp add: password_answers_def)
      with e True show ?thesis
        by (simp add: password_prompts_def)
    next
      case False
      with assms Some nokey show ?thesis
        by (auto simp: authHandler_def password_answers_def split: if_splits)
    qed
  qed
qed

lemma keyboardPrompt_budget:
  assumes "keyboardPrompt (prompted env) user host ps st (w, ts) = (rs, st', (w', ts'))"
  shows "password_prompts user host ts' = password_prompts user host ts \<and>
         passwordRetryCount st' = passwordRetryCount st"
proof -
  obtain rs' c wt where a: "ask_prompts (prompted env) user host ps [] (w, ts) = ((rs', c), wt)"
    by (metis surj_pair)
  with assms have "wt = (w', ts')" "passwordRetryCount st' = passwordRetryCount st"
    by (auto simp: keyboardPrompt_def)
  with ask_prompts_no_password_prompt [of user host env ps "[]" w ts] a show ?thesis by simp
qed

lemma attempt_budget:
  assumes "attempt (prompted env) user host evs st (w, ts) = (answers, st', (w', ts'))"
  shows "int (password_prompts user host ts') + passwordRetryCount st'
           = int (password_prompts user host ts) + passwordRetryCount st \<and>
         (0 \<le> passwordRetryCount st \<longrightarrow> 0 \<le> passwordRetryCount st') \<and>
         password_prompts user host ts + password_answers answers \<le> password_prompts user host ts'"
  using assms
proof (induction evs arbitrary: st w ts answers)
  case Nil
  then show ?case by (simp add: password_answers_def)
next
  case (Cons ev evs)
  show ?case
  proof (cases ev)
    case (Invoke ml)
    obtain a st1 w1 ts1 where h: "authHandler (prompted env) user host ml st (w, ts) = (a, st1, (w1, ts1))"
      by (metis surj_pair)
    obtain as where r: "attempt (prompted env) user host evs st1 (w1, ts1) = (as, st', (w', ts'))"
      and answers: "answers = a # as"
      using Cons.prems Invoke h by (auto split: prod.splits)
    have pa: "password_answers (a # as) = password_answers [a] + password_answers as"
      by (simp add: password_answers_def)
    from authHandler_budget [OF h] Cons.IH [OF r] answers pa show ?thesis
      by auto
  next
    case (ServerPrompts ps)
    obtain rs st1 w1 ts1 where k: "keyboardPrompt (prompted env) user host ps st (w, ts) = (rs, st1, (w1, ts1))"
      by (metis surj_pair)
    with Cons.prems ServerPrompts have r: "attempt (prompted env) user host evs st1 (w1, ts1) = (answers, st', (w', ts'))"
      by simp
    from keyboardPrompt_budget [OF k] Cons.IH [OF r] show ?thesis by auto
  qed
qed

text \<open>
  C3, as amended. In every sequence of invocations of the handler and of its prompt
  function within one connection attempt, the user is prompted for the password at most
  3 times and the password method is submitted at most 3 times; the remaining budget is
  3 minus the number of password prompts so far, so it is never reset. Once the third
  password prompt has happened, an invocation that offers \<^verbatim>\<open>password\<close> and that the
  \<^verbatim>\<open>publickey\<close> branch does not take (\<^verbatim>\<open>publickey\<close> is not offered, or no identity key
  is left) prompts for nothing, changes nothing, and answers with keyboard-interactive
  if that is offered and its budget is positive, and with authentication failure
  otherwise.
\<close>

theorem password_budget_never_exceeded:
  assumes "attempt (prompted env) user host evs (getAuthHandler keys) (w, []) = (answers, st, (w', titles))"
  shows "password_prompts user host titles \<le> 3 \<and> password_answers answers \<le> 3 \<and>
     passwordRetryCount st = 3 - int (password_prompts user host titles) \<and>
     (password_prompts user host titles = 3 \<longrightarrow>
        (\<forall>methods. ''password'' \<in> set methods \<and> (''publickey'' \<notin> set methods \<or> identityKeys st = []) \<longrightarrow>
           authHandler (prompted env) user host (Some methods) st (w', titles) =
             (Inr (if ''keyboard-interactive'' \<in> set methods \<and> keyboardRetryCount st > 0
                   then AuthKeyboardInteractive user else END_AUTH),
              st, (w', titles))))"
proof -
  from attempt_budget [OF assms]
  have b: "int (password_prompts user host titles) + passwordRetryCount st = 3"
    "0 \<le> passwordRetryCount st"
    "password_answers answers \<le> password_prompts user host titles"
    by (simp_all add: getAuthHandler_def this_passwordRetryCount_def password_prompts_def)
  have "authHandler (prompted env) user host (Some methods) st (w', titles) =
      (Inr (if ''keyboard-interactive'' \<in> set methods \<and> keyboardRetryCount st > 0
            then AuthKeyboardInteractive user else END_AUTH),
       st, (w', titles))"
    if "password_prompts user host titles = 3"
      and "''password'' \<in> set methods \<and> (''publickey'' \<notin> set methods \<or> identityKeys st = [])"
    for methods
  proof -
    from b(1) that(1) have "passwordRetryCount st = 0" by simp
    with that(2) show ?thesis by (auto simp: authHandler_def)
  qed
  with b show ?thesis by auto
qed

text \<open>
  Three wrong passwords use the budget up; the next invocation, which offers
  \<^verbatim>\<open>password\<close> and \<^verbatim>\<open>keyboard-interactive\<close>, goes on to keyboard-interactive.
\<close>

theorem password_budget_never_exceeded_witness:
  "attempt (prompted wrong_password_user) ''u'' ''h''
      [Invoke (Some [''password'']), Invoke (Some [''password'']), Invoke (Some [''password''])]
      (getAuthHandler []) ((), [])
     = ([Inr (AuthPassword ''u'' ''hunter2''), Inr (AuthPassword ''u'' ''hunter2''), Inr (AuthPassword ''u'' ''hunter2'')],
        \<lparr>passwordRetryCount = 0, keyboardRetryCount = 3, identityKeys = []\<rparr>,
        ((), [''Enter password for u@h'', ''Enter password for u@h'', ''Enter password for u@h''])) \<and>
   password_prompts ''u'' ''h'' [''Enter password for u@h'', ''Enter password for u@h'', ''Enter password for u@h''] = 3 \<and>
   authHandler (prompted wrong_password_user) ''u'' ''h'' (Some [''password'', ''keyboard-interactive''])
      \<lparr>passwordRetryCount = 0, keyboardRetryCount = 3, identityKeys = []\<rparr>
      ((), [''Enter password for u@h'', ''Enter password for u@h'', ''Enter password for u@h''])
     = (Inr (AuthKeyboardInteractive ''u''),
        \<lparr>passwordRetryCount = 0, keyboardRetryCount = 3, identityKeys = []\<rparr>,
        ((), [''Enter password for u@h'', ''Enter password for u@h'', ''Enter password for u@h'']))"
proof -
  let ?titles = "[''Enter password for u@h'', ''Enter password for u@h'', ''Enter password for u@h'']"
  let ?st = "\<lparr>passwordRetryCount = 0, keyboardRetryCount = 3, identityKeys = []\<rparr>"
  have run: "attempt (prompted wrong_password_user) ''u'' ''h''
      [Invoke (Some [''password'']), Invoke (Some [''password'']), Invoke (Some [''password''])]
      (getAuthHandler []) ((), [])
     = ([Inr (AuthPassword ''u'' ''hunter2''), Inr (AuthPassword ''u'' ''hunter2''), Inr (AuthPassword ''u'' ''hunter2'')],
        ?st, ((), ?titles))"
    by (simp add: authHandler_def prompted_def wrong_password_user_def getAuthHandler_def
        this_passwordRetryCount_def this_passphraseRetryCount_def)
  have three: "password_prompts ''u'' ''h'' ?titles = 3"
    by (simp add: password_prompts_def)
  from password_budget_never_exceeded [OF run, THEN conjunct2, THEN conjunct2, THEN conjunct2,
      rule_format, OF three, of "[''password'', ''keyboard-interactive'']"]
  have "authHandler (prompted wrong_password_user) ''u'' ''h'' (Some [''password'', ''keyboard-interactive''])
      ?st ((), ?titles) = (Inr (AuthKeyboardInteractive ''u''), ?st, ((), ?titles))"
    by simp
  with run three show ?thesis by simp
qed

text \<open>
  The claim as stated fails where the server offers \<^verbatim>\<open>publickey\<close> beside
  \<^verbatim>\<open>password\<close> and an identity key is left: after three password attempts the fourth
  invocation submits the key, which is neither keyboard-interactive nor a failure.
\<close>

theorem password_fallthrough_counterexample:
  "attempt wrong_password_user ''u'' ''h''
      [Invoke (Some [''password'']), Invoke (Some [''password'']), Invoke (Some [''password'']),
       Invoke (Some [''publickey'', ''password'', ''keyboard-interactive''])]
      (getAuthHandler [agent_key]) ()
     = ([Inr (AuthPassword ''u'' ''hunter2''), Inr (AuthPassword ''u'' ''hunter2''), Inr (AuthPassword ''u'' ''hunter2''),
         Inr (AuthPublicKey ''u'' (Some (ParsedKey ''ed25519'')))],
        \<lparr>passwordRetryCount = 0, keyboardRetryCount = 3, identityKeys = []\<rparr>, ()) \<and>
   ''password'' \<in> set [''publickey'', ''password'', ''keyboard-interactive''] \<and>
   AuthPublicKey ''u'' (Some (ParsedKey ''ed25519'')) \<noteq> AuthKeyboardInteractive ''u'' \<and>
   AuthPublicKey ''u'' (Some (ParsedKey ''ed25519'')) \<noteq> END_AUTH"
  by (simp add: authHandler_def tryIdentityKey_def wrong_password_user_def getAuthHandler_def agent_key_def
      this_passwordRetryCount_def this_passphraseRetryCount_def)

text \<open>
  C6, as amended. Invoked with \<^verbatim>\<open>null\<close> for \<^verbatim>\<open>methodsLeft\<close> (no list of remaining
  methods, as on the first invocation), the handler authenticates with the method
  \<^verbatim>\<open>none\<close> and the user name, and changes nothing. Invoked with a list for which no
  branch applies, the empty list included, it signals authentication failure.
\<close>

theorem none_exactly_without_method_list:
  "authHandler env user host None st w = (Inr (AuthNone user), st, w) \<and>
   (\<not> (''publickey'' \<in> set methods \<and> identityKeys st \<noteq> []) \<and>
    \<not> (''password'' \<in> set methods \<and> passwordRetryCount st > 0) \<and>
    \<not> (''keyboard-interactive'' \<in> set methods \<and> keyboardRetryCount st > 0) \<longrightarrow>
      authHandler env user host (Some methods) st w = (Inr END_AUTH, st, w)) \<and>
   authHandler env user host (Some []) st w = (Inr END_AUTH, st, w)"
  by (auto simp: authHandler_def)

theorem none_exactly_without_method_list_witness:
  "\<not> (''publickey'' \<in> set [''hostbased''] \<and> identityKeys (getAuthHandler [agent_key]) \<noteq> []) \<and>
   \<not> (''password'' \<in> set [''hostbased''] \<and> passwordRetryCount (getAuthHandler [agent_key]) > 0) \<and>
   \<not> (''keyboard-interactive'' \<in> set [''hostbased''] \<and> keyboardRetryCount (getAuthHandler [agent_key]) > 0) \<and>
   authHandler wrong_password_user ''u'' ''h'' (Some [''hostbased'']) (getAuthHandler [agent_key]) ()
     = (Inr END_AUTH, getAuthHandler [agent_key], ()) \<and>
   authHandler wrong_password_user ''u'' ''h'' None (getAuthHandler [agent_key]) ()
     = (Inr (AuthNone ''u''), getAuthHandler [agent_key], ())"
proof -
  have p: "\<not> (''publickey'' \<in> set [''hostbased''] \<and> identityKeys (getAuthHandler [agent_key]) \<noteq> []) \<and>
     \<not> (''password'' \<in> set [''hostbased''] \<and> passwordRetryCount (getAuthHandler [agent_key]) > 0) \<and>
     \<not> (''keyboard-interactive'' \<in> set [''hostbased''] \<and> keyboardRetryCount (getAuthHandler [agent_key]) > 0)"
    by simp
  from none_exactly_without_method_list [of wrong_password_user "''u''" "''h''" "getAuthHandler [agent_key]" "()"
      "[''hostbased'']"] p
  show ?thesis by blast
qed

text \<open>
  The claim as stated fails at the empty list of methods: no method remains to try, and
  the handler signals failure instead of trying \<^verbatim>\<open>none\<close>.
\<close>

theorem empty_method_list_counterexample:
  "authHandler wrong_password_user ''u'' ''h'' (Some []) (getAuthHandler [agent_key]) ()
     = (Inr END_AUTH, getAuthHandler [agent_key], ()) \<and>
   set ([] :: string list) = {} \<and>
   END_AUTH \<noteq> AuthNone ''u''"
  by (simp add: authHandler_def)

subsection \<open>\<^verbatim>\<open>setup\<close> on a provisioned remote\<close>

lemma retry_traced_no_provisioning:
  assumes "cmd \<noteq> ''tar -xf''"
  shows "filter provisioning (snd (snd (retry (exec (traced c) cmd args) n (w, tr)))) = filter provisioning tr"
proof -
  from retry_loop_traced_calls [where k = n and c = c and cmd = cmd and args = args
      and res = "\<lparr>stdout = [], stderr = []\<rparr>" and w = w and tr = tr]
  obtain m where "snd (snd (retry (exec (traced c) cmd args) n (w, tr))) = tr @ replicate m (Exec cmd args)"
    unfolding retry_def by auto
  with assms show ?thesis by (simp add: provisioning_def)
qed

lemma retry_traced_no_provisioning':
  assumes "cmd \<noteq> ''tar -xf''" and "retry (exec (traced c) cmd args) n s = (r, s')"
  shows "filter provisioning (snd s') = filter provisioning (snd s)"
  using retry_traced_no_provisioning [OF assms(1), of c args n "fst s" "snd s"] assms(2) by simp

lemma detectRemotePlatform_no_provisioning:
  assumes "detectRemotePlatform (traced c) s = (r, s')"
  shows "filter provisioning (snd s') = filter provisioning (snd s)"
proof -
  obtain r0 s0 where a: "retry (exec (traced c) ''uname -s'' []) DEFAULT_TIMES s = (r0, s0)"
    by (metis surj_pair)
  with assms have "s' = s0" by (cases r0) (simp_all add: detectRemotePlatform_def)
  with retry_traced_no_provisioning' [OF _ a] show ?thesis by simp
qed

lemma dirExistsRemote_no_provisioning:
  assumes "dirExistsRemote (traced c) p s = (r, s')"
  shows "filter provisioning (snd s') = filter provisioning (snd s)"
proof -
  let ?cmd = \<open>''cd "'' @ p @ ''";echo "Success"''\<close>
  obtain r0 s0 where a: "retry (exec (traced c) ?cmd []) DEFAULT_TIMES s = (r0, s0)"
    by (metis surj_pair)
  with assms have "s' = s0" by (cases r0) (simp_all add: dirExistsRemote_def)
  moreover have "?cmd \<noteq> ''tar -xf''" by simp
  ultimately show ?thesis using retry_traced_no_provisioning' [OF _ a] by simp
qed

lemma mkdirRemote_no_provisioning:
  assumes "mkdirRemote (traced c) platform p s = (r, s')"
  shows "filter provisioning (snd s') = filter provisioning (snd s)"
proof -
  let ?cmd = \<open>''mkdir'' @ (if platform \<noteq> windows then '' -p'' else []) @ '' "'' @ p @ ''";echo "Success"''\<close>
  obtain r0 s0 where a: "retry (exec (traced c) ?cmd []) DEFAULT_TIMES s = (r0, s0)"
    by (metis surj_pair)
  with assms have "s' = s0"
    by (cases r0) (simp_all add: mkdirRemote_def await_def throw_def return_def split: if_splits)
  moreover have "?cmd \<noteq> ''tar -xf''" by simp
  ultimately show ?thesis using retry_traced_no_provisioning' [OF _ a] by simp
qed

lemma getRemoteHomeDirectory_no_provisioning:
  assumes "getRemoteHomeDirectory (traced c) platform s = (r, s')"
  shows "filter provisioning (snd s') = filter provisioning (snd s)"
proof (cases "platform = windows")
  case False
  obtain r0 s0 where a: "retry (exec (traced c) ''eval echo ~'' []) DEFAULT_TIMES s = (r0, s0)"
    by (metis surj_pair)
  with assms False have "s' = s0"
    by (cases r0) (simp_all add: getRemoteHomeDirectory_def await_def return_def)
  with retry_traced_no_provisioning' [OF _ a] show ?thesis by simp
next
  case True
  obtain r0 s0 where a: "retry (exec (traced c) ''echo $HOME'' []) DEFAULT_TIMES s = (r0, s0)"
    by (metis surj_pair)
  have s0: "filter provisioning (snd s0) = filter provisioning (snd s)"
    using retry_traced_no_provisioning' [OF _ a] by simp
  show ?thesis
  proof (cases r0)
    case (Inl e)
    with assms True a have "s' = s0" by (simp add: getRemoteHomeDirectory_def await_def)
    with s0 show ?thesis by simp
  next
    case (Inr res)
    show ?thesis
    proof (cases "stdout res = ''$HOME''")
      case False
      with assms True a Inr have "s' = s0"
        by (simp add: getRemoteHomeDirectory_def await_def return_def)
      with s0 show ?thesis by simp
    next
      case h: True
      obtain r1 s1 where b: "retry (exec (traced c) ''echo %userprofile%'' []) DEFAULT_TIMES s0 = (r1, s1)"
        by (metis surj_pair)
      with assms True a Inr h have "s' = s1"
        by (cases r1) (simp_all add: getRemoteHomeDirectory_def await_def return_def)
      with retry_traced_no_provisioning' [OF _ b] s0 show ?thesis by simp
    qed
  qed
qed

lemma startApplication_no_provisioning:
  assumes "startApplication (traced c) platform remotePath nodeDir s = (r, s')"
  shows "filter provisioning (snd s') = filter provisioning (snd s)"
proof -
  let ?cmd = \<open>''cd "'' @ remotePath @ ''";'' @
      joinRemotePath platform [nodeDir, ''bin'', if platform = windows then ''node.exe'' else ''node'']\<close>
  let ?args = "[joinRemotePath platform [remotePath, ''lib'', ''backend'', ''main.js''], ''--port=0'', ''--remote'']"
  obtain w tr where s: "s = (w, tr)" by (cases s)
  obtain r0 w0 where a: "execPartial c ?cmd (\<lambda>stdout' stderr'. localAddressRegex_test stdout') ?args w = (r0, w0)"
    by (metis surj_pair)
  with assms s have "s' = (w0, tr @ [ExecPartial ?cmd ?args])"
    by (cases r0) (auto simp: startApplication_def await_def throw_def return_def traced_def Let_def
        split: option.splits)
  with s show ?thesis by (simp add: provisioning_def)
qed

lemma getRemoteAppName_traced [simp]: "getRemoteAppName (traced_service svc c) = getRemoteAppName svc"
  by (simp add: getRemoteAppName_def traced_service_def split: option.splits)

lemma reporting_traced:
  "reporting (traced_report report) message s = (Inr (), traced_report report message s)"
  by (simp add: reporting_def)

lemma traced_report_log [simp]: "snd (traced_report report message s) = snd s"
  by (cases s) (simp add: traced_report_def)

text \<open>
  The half of the bootstrap that holds on every host. Take a run of \<open>setup\<close> in which the
  platform is recognised, the home directory is found, \<^verbatim>\<open>mkdir\<close> reports no error and
  both existence probes (for the runtime directory and for \<^verbatim>\<open>lib\<close>) report that the
  directory exists. Then the run is the launch and nothing else, whatever the launch
  does, and it adds no provisioning call to the log: no download (and no write of a
  downloaded archive), no copy to the remote and no remote extraction.
\<close>

lemma provisioned_run_transfers_nothing:
  assumes detect: "detectRemotePlatform (traced c)
        (traced_report report ''Identifying remote system...'' s0) = (Inr platform, s1)"
    and home: "getRemoteHomeDirectory (traced c) platform s1 = (Inr remoteHome, s2)"
    and appDir: "applicationDirectory = joinRemotePath platform [remoteHome, ''.'' @ getRemoteAppName svc]"
    and mkdir: "mkdirRemote (traced c) platform applicationDirectory s2 = (Inr (), s3)"
    and nodeDir: "remoteNodeDirectory = joinRemotePath platform [applicationDirectory, getNodeDirectoryName platform]"
    and node_exists: "dirExistsRemote (traced c) remoteNodeDirectory s3 = (Inr True, s4)"
    and lib_exists: "dirExistsRemote (traced c) (joinRemotePath platform [applicationDirectory, ''lib''])
        (traced_report report ''Copying application to remote...'' s4) = (Inr True, s5)"
  shows "RemoteSetupService_setup (traced_service svc c) (traced c) (traced_report report) s0 =
      startApplication (traced c) platform applicationDirectory remoteNodeDirectory
        (traced_report report ''Starting application on remote...'' s5)"
    and "filter provisioning (snd (snd (RemoteSetupService_setup (traced_service svc c) (traced c)
        (traced_report report) s0))) = filter provisioning (snd s0)"
proof -
  show run: "RemoteSetupService_setup (traced_service svc c) (traced c) (traced_report report) s0 =
      startApplication (traced c) platform applicationDirectory remoteNodeDirectory
        (traced_report report ''Starting application on remote...'' s5)"
    using assms
    by (simp add: RemoteSetupService_setup_def await_def return_def reporting_traced Let_def
        split: prod.splits sum.splits)
  obtain r s6 where launch: "startApplication (traced c) platform applicationDirectory remoteNodeDirectory
      (traced_report report ''Starting application on remote...'' s5) = (r, s6)"
    by (metis surj_pair)
  have "filter provisioning (snd s1) = filter provisioning (snd s0)"
    using detectRemotePlatform_no_provisioning [OF detect] by simp
  moreover have "filter provisioning (snd s2) = filter provisioning (snd s1)"
    by (rule getRemoteHomeDirectory_no_provisioning [OF home])
  moreover have "filter provisioning (snd s3) = filter provisioning (snd s2)"
    by (rule mkdirRemote_no_provisioning [OF mkdir])
  moreover have "filter provisioning (snd s4) = filter provisioning (snd s3)"
    by (rule dirExistsRemote_no_provisioning [OF node_exists])
  moreover have "filter provisioning (snd s5) = filter provisioning (snd s4)"
    using dirExistsRemote_no_provisioning [OF lib_exists] by simp
  moreover have "filter provisioning (snd s6) = filter provisioning (snd s5)"
    using startApplication_no_provisioning [OF launch] by simp
  ultimately show "filter provisioning (snd (snd (RemoteSetupService_setup (traced_service svc c) (traced c)
        (traced_report report) s0))) = filter provisioning (snd s0)"
    unfolding run launch by simp
qed

text \<open>
  The calls of a run on the provisioned Linux host up to the launch, with either way of
  launching: the platform probe, the home directory, \<^verbatim>\<open>mkdir -p\<close> (which accepts a
  directory that exists) and the two existence probes.
\<close>

lemma linux_probes:
  assumes "exec c = exec provisioned_linux"
  shows \<open>detectRemotePlatform (traced c) (traced_report quiet ''Identifying remote system...'' ((), []))
     = (Inr linux, ((), [Exec ''uname -s'' []]))\<close>
    and \<open>getRemoteHomeDirectory (traced c) linux ((), [Exec ''uname -s'' []])
     = (Inr ''/home/u'', ((), [Exec ''uname -s'' [], Exec ''eval echo ~'' []]))\<close>
    and \<open>mkdirRemote (traced c) linux ''/home/u/.theia-example-1.38.0-remote''
       ((), [Exec ''uname -s'' [], Exec ''eval echo ~'' []])
     = (Inr (), ((), [Exec ''uname -s'' [], Exec ''eval echo ~'' [],
          Exec ''mkdir -p "/home/u/.theia-example-1.38.0-remote";echo "Success"'' []]))\<close>
    and \<open>dirExistsRemote (traced c) ''/home/u/.theia-example-1.38.0-remote/node-v16.14.0-linux-x64''
       ((), [Exec ''uname -s'' [], Exec ''eval echo ~'' [],
          Exec ''mkdir -p "/home/u/.theia-example-1.38.0-remote";echo "Success"'' []])
     = (Inr True, ((), [Exec ''uname -s'' [], Exec ''eval echo ~'' [],
          Exec ''mkdir -p "/home/u/.theia-example-1.38.0-remote";echo "Success"'' [],
          Exec ''cd "/home/u/.theia-example-1.38.0-remote/node-v16.14.0-linux-x64";echo "Success"'' []]))\<close>
    and \<open>dirExistsRemote (traced c) ''/home/u/.theia-example-1.38.0-remote/lib''
       (traced_report quiet ''Copying application to remote...''
          ((), [Exec ''uname -s'' [], Exec ''eval echo ~'' [],
            Exec ''mkdir -p "/home/u/.theia-example-1.38.0-remote";echo "Success"'' [],
            Exec ''cd "/home/u/.theia-example-1.38.0-remote/node-v16.14.0-linux-x64";echo "Success"'' []]))
     = (Inr True, ((), [Exec ''uname -s'' [], Exec ''eval echo ~'' [],
          Exec ''mkdir -p "/home/u/.theia-example-1.38.0-remote";echo "Success"'' [],
          Exec ''cd "/home/u/.theia-example-1.38.0-remote/node-v16.14.0-linux-x64";echo "Success"'' [],
          Exec ''cd "/home/u/.theia-example-1.38.0-remote/lib";echo "Success"'' []]))\<close>
proof -
  show \<open>detectRemotePlatform (traced c) (traced_report quiet ''Identifying remote system...'' ((), []))
     = (Inr linux, ((), [Exec ''uname -s'' []]))\<close>
    by (simp add: detectRemotePlatform_def retry_def DEFAULT_TIMES_def eval_nat_numeral traced_def assms
        provisioned_linux_def traced_report_def quiet_def str_includes_def sublist_code)
  show \<open>getRemoteHomeDirectory (traced c) linux ((), [Exec ''uname -s'' []])
     = (Inr ''/home/u'', ((), [Exec ''uname -s'' [], Exec ''eval echo ~'' []]))\<close>
    by (simp add: getRemoteHomeDirectory_def retry_def DEFAULT_TIMES_def eval_nat_numeral traced_def assms
        provisioned_linux_def await_def return_def trim_def isSpace_def)
  show \<open>mkdirRemote (traced c) linux ''/home/u/.theia-example-1.38.0-remote''
       ((), [Exec ''uname -s'' [], Exec ''eval echo ~'' []])
     = (Inr (), ((), [Exec ''uname -s'' [], Exec ''eval echo ~'' [],
          Exec ''mkdir -p "/home/u/.theia-example-1.38.0-remote";echo "Success"'' []]))\<close>
    by (simp add: mkdirRemote_def retry_def DEFAULT_TIMES_def eval_nat_numeral traced_def assms
        provisioned_linux_def await_def return_def throw_def)
  show \<open>dirExistsRemote (traced c) ''/home/u/.theia-example-1.38.0-remote/node-v16.14.0-linux-x64''
       ((), [Exec ''uname -s'' [], Exec ''eval echo ~'' [],
          Exec ''mkdir -p "/home/u/.theia-example-1.38.0-remote";echo "Success"'' []])
     = (Inr True, ((), [Exec ''uname -s'' [], Exec ''eval echo ~'' [],
          Exec ''mkdir -p "/home/u/.theia-example-1.38.0-remote";echo "Success"'' [],
          Exec ''cd "/home/u/.theia-example-1.38.0-remote/node-v16.14.0-linux-x64";echo "Success"'' []]))\<close>
    by (simp add: dirExistsRemote_def retry_def DEFAULT_TIMES_def eval_nat_numeral traced_def assms
        provisioned_linux_def)
  show \<open>dirExistsRemote (traced c) ''/home/u/.theia-example-1.38.0-remote/lib''
       (traced_report quiet ''Copying application to remote...''
          ((), [Exec ''uname -s'' [], Exec ''eval echo ~'' [],
            Exec ''mkdir -p "/home/u/.theia-example-1.38.0-remote";echo "Success"'' [],
            Exec ''cd "/home/u/.theia-example-1.38.0-remote/node-v16.14.0-linux-x64";echo "Success"'' []]))
     = (Inr True, ((), [Exec ''uname -s'' [], Exec ''eval echo ~'' [],
          Exec ''mkdir -p "/home/u/.theia-example-1.38.0-remote";echo "Success"'' [],
          Exec ''cd "/home/u/.theia-example-1.38.0-remote/node-v16.14.0-linux-x64";echo "Success"'' [],
          Exec ''cd "/home/u/.theia-example-1.38.0-remote/lib";echo "Success"'' []]))\<close>
    by (simp add: dirExistsRemote_def retry_def DEFAULT_TIMES_def eval_nat_numeral traced_def assms
        provisioned_linux_def traced_report_def quiet_def)
qed

lemma linux_paths:
  "''/home/u/.theia-example-1.38.0-remote'' = joinRemotePath linux [''/home/u'', ''.'' @ getRemoteAppName offline_service]"
  "''/home/u/.theia-example-1.38.0-remote/node-v16.14.0-linux-x64'' =
     joinRemotePath linux [''/home/u/.theia-example-1.38.0-remote'', getNodeDirectoryName linux]"
  "joinRemotePath linux [''/home/u/.theia-example-1.38.0-remote'', ''lib''] = ''/home/u/.theia-example-1.38.0-remote/lib''"
  by (simp_all add: joinRemotePath_def getRemoteAppName_def offline_service_def cleanupDirectoryName_def
      getNodeDirectoryName_def REMOTE_NODE_VERSION_def platformName_def)

text \<open>
  The second run on the provisioned Linux host, when the announcement of the backend
  arrives in one piece: six calls on the connection and the port of the backend, although
  every download and copy would have been rejected.
\<close>

lemma setup_on_provisioned_linux:
  \<open>RemoteSetupService_setup (traced_service offline_service provisioned_linux) (traced provisioned_linux)
       (traced_report quiet) ((), [])
     = (Inr (Integer 53211), ((),
         [Exec ''uname -s'' [], Exec ''eval echo ~'' [],
          Exec ''mkdir -p "/home/u/.theia-example-1.38.0-remote";echo "Success"'' [],
          Exec ''cd "/home/u/.theia-example-1.38.0-remote/node-v16.14.0-linux-x64";echo "Success"'' [],
          Exec ''cd "/home/u/.theia-example-1.38.0-remote/lib";echo "Success"'' [],
          ExecPartial ''cd "/home/u/.theia-example-1.38.0-remote";/home/u/.theia-example-1.38.0-remote/node-v16.14.0-linux-x64/bin/node''
            [''/home/u/.theia-example-1.38.0-remote/lib/backend/main.js'', ''--port=0'', ''--remote'']]))\<close>
proof -
  note p = linux_probes [of provisioned_linux, OF refl]
  have launch: \<open>startApplication (traced provisioned_linux) linux ''/home/u/.theia-example-1.38.0-remote''
      ''/home/u/.theia-example-1.38.0-remote/node-v16.14.0-linux-x64''
      (traced_report quiet ''Starting application on remote...''
        ((), [Exec ''uname -s'' [], Exec ''eval echo ~'' [],
          Exec ''mkdir -p "/home/u/.theia-example-1.38.0-remote";echo "Success"'' [],
          Exec ''cd "/home/u/.theia-example-1.38.0-remote/node-v16.14.0-linux-x64";echo "Success"'' [],
          Exec ''cd "/home/u/.theia-example-1.38.0-remote/lib";echo "Success"'' []]))
     = (Inr (Integer 53211), ((),
         [Exec ''uname -s'' [], Exec ''eval echo ~'' [],
          Exec ''mkdir -p "/home/u/.theia-example-1.38.0-remote";echo "Success"'' [],
          Exec ''cd "/home/u/.theia-example-1.38.0-remote/node-v16.14.0-linux-x64";echo "Success"'' [],
          Exec ''cd "/home/u/.theia-example-1.38.0-remote/lib";echo "Success"'' [],
          ExecPartial ''cd "/home/u/.theia-example-1.38.0-remote";/home/u/.theia-example-1.38.0-remote/node-v16.14.0-linux-x64/bin/node''
            [''/home/u/.theia-example-1.38.0-remote/lib/backend/main.js'', ''--port=0'', ''--remote'']]))\<close>
    by (simp add: startApplication_def traced_def provisioned_linux_def traced_report_def quiet_def
      await_def return_def throw_def joinRemotePath_def Number_def nearest_double_def decimal_def
      localAddress_literal_def isDigit_def)
  from provisioned_run_transfers_nothing(1) [OF p(1) p(2) linux_paths(1) p(3) linux_paths(2) p(4)
      p(5) [folded linux_paths(3)]] launch
  show ?thesis by simp
qed

text \<open>
  \<open>Number\<close> and \<open>trim\<close> at the edges: the first whole number that is no double goes to
  its even neighbour, the numbers from \<open>2 ^ 1024\<close> on are \<^verbatim>\<open>Infinity\<close>, and the
  no-break space is stripped like the other white space.
\<close>

lemma Number_rounds_to_double:
  "Number ''9007199254740993'' = Integer 9007199254740992"
  "Number ''9007199254740995'' = Integer 9007199254740996"
  "nearest_double (2 ^ 1024) = Infinity"
  by (simp_all add: Number_def nearest_double_def decimal_def bit_length.simps Let_def)

lemma trim_strips_no_break_space:
  "trim ([CHR 0xA0] @ ''/home/u '' @ [CHR 0x0D, CHR 0x0A]) = ''/home/u''"
  by (simp add: trim_def isSpace_def)

text \<open>
  The run on the provisioned Windows host, call by call: the platform is Windows because
  \<^verbatim>\<open>uname\<close> writes to \<open>stderr\<close>, and \<^verbatim>\<open>mkdir\<close>, issued without \<^verbatim>\<open>-p\<close> on
  Windows, writes to \<open>stderr\<close> because the application directory exists.
\<close>

lemma windows_detect:
  "detectRemotePlatform (traced provisioned_windows) (traced_report quiet ''Identifying remote system...'' ((), []))
     = (Inr windows, ((), [Exec ''uname -s'' []]))"
  by (simp add: detectRemotePlatform_def retry_def DEFAULT_TIMES_def eval_nat_numeral traced_def
      provisioned_windows_def traced_report_def quiet_def)

lemma windows_home_found:
  "getRemoteHomeDirectory (traced provisioned_windows) windows ((), [Exec ''uname -s'' []])
     = (Inr windows_home, ((), [Exec ''uname -s'' [], Exec ''echo $HOME'' []]))"
  by (simp add: getRemoteHomeDirectory_def retry_def DEFAULT_TIMES_def eval_nat_numeral traced_def
      provisioned_windows_def await_def return_def trim_def isSpace_def windows_home_def)

lemma windows_app:
  "joinRemotePath windows [windows_home, CHR ''.'' # getRemoteAppName offline_service] = windows_app_dir"
  by (simp add: joinRemotePath_def getRemoteAppName_def offline_service_def cleanupDirectoryName_def
      windows_app_dir_def)

lemma windows_mkdir:
  \<open>mkdirRemote (traced provisioned_windows) windows windows_app_dir ((), tr)
     = (Inl (Error (''Failed to create directory: mkdir : An item with the specified name '' @
                     windows_app_dir @ '' already exists.'')),
        ((), tr @ [Exec (''mkdir "'' @ windows_app_dir @ ''";echo "Success"'') []]))\<close>
  by (simp add: mkdirRemote_def retry_def DEFAULT_TIMES_def eval_nat_numeral traced_def
      provisioned_windows_def await_def return_def throw_def windows_app_dir_def windows_home_def)

lemma windows_directories_exist:
  \<open>dirExistsRemote provisioned_windows windows_app_dir () = (Inr True, ()) \<and>
    dirExistsRemote provisioned_windows
       (joinRemotePath windows [windows_app_dir, getNodeDirectoryName windows]) () = (Inr True, ()) \<and>
    dirExistsRemote provisioned_windows (joinRemotePath windows [windows_app_dir, ''lib'']) () = (Inr True, ())\<close>
  by (simp add: dirExistsRemote_def retry_def DEFAULT_TIMES_def eval_nat_numeral
      provisioned_windows_def)

text \<open>
  The launch on the host of \<open>split_announcement\<close>: the tester
  \<^verbatim>\<open>stdout => localAddressRegex.test(stdout)\<close> holds as soon as one digit of the port has
  arrived, so the promise is settled with the output up to \<^verbatim>\<open>localhost:532\<close>, and the
  port read from it is 532. The whole announcement names the port 53211.
\<close>

lemma split_announcement_launch:
  \<open>startApplication (traced split_announcement_host) linux ''/home/u/.theia-example-1.38.0-remote''
       ''/home/u/.theia-example-1.38.0-remote/node-v16.14.0-linux-x64'' ((), tr)
     = (Inr (Integer 532), ((), tr @
         [ExecPartial ''cd "/home/u/.theia-example-1.38.0-remote";/home/u/.theia-example-1.38.0-remote/node-v16.14.0-linux-x64/bin/node''
            [''/home/u/.theia-example-1.38.0-remote/lib/backend/main.js'', ''--port=0'', ''--remote'']]))\<close>
  by (simp add: startApplication_def traced_def split_announcement_host_def provisioned_linux_def
      ssh_execPartial_def split_announcement_def turn_def initial_def on_data_def on_stderr_data_def
      on_close_def test_and_resolve_def resolve_def run_then_def
      await_def return_def throw_def joinRemotePath_def Number_def nearest_double_def decimal_def
      localAddress_literal_def isDigit_def localAddressRegex_test_def)

lemma split_announcement_port:
  "localAddressRegex_exec (concat (map stdout_of [c. Chunk c \<leftarrow> concat split_announcement])) = Some ''53211''"
  by (simp add: split_announcement_def localAddress_literal_def isDigit_def)

text \<open>
  C1. Two provisioned remotes on which the second run of \<open>setup\<close> does not end with the
  port of the backend, and the local machine can neither download nor copy in either
  run. On the Windows host the application directory, the runtime directory and
  \<^verbatim>\<open>lib\<close> exist, and \<open>setup\<close> throws \<^verbatim>\<open>Failed to create directory\<close> after three calls
  on the connection, before it probes the directories: \<^verbatim>\<open>mkdir\<close> without \<^verbatim>\<open>-p\<close>
  complains about the directory that exists. On the Linux host whose backend announces
  port 53211 in two pieces, \<open>setup\<close> makes its six calls and completes with the port 532.
  Neither run makes a provisioning call.
\<close>

theorem setup_on_provisioned_remote_misses_port:
  \<open>dirExistsRemote provisioned_windows windows_app_dir () = (Inr True, ()) \<and>
   dirExistsRemote provisioned_windows
       (joinRemotePath windows [windows_app_dir, getNodeDirectoryName windows]) () = (Inr True, ()) \<and>
   dirExistsRemote provisioned_windows (joinRemotePath windows [windows_app_dir, ''lib'']) () = (Inr True, ()) \<and>
   RemoteSetupService_setup (traced_service offline_service provisioned_windows) (traced provisioned_windows)
       (traced_report quiet) ((), [])
     = (Inl (Error (''Failed to create directory: mkdir : An item with the specified name '' @
                     windows_app_dir @ '' already exists.'')),
        ((), [Exec ''uname -s'' [], Exec ''echo $HOME'' [],
              Exec (''mkdir "'' @ windows_app_dir @ ''";echo "Success"'') []])) \<and>
   RemoteSetupService_setup (traced_service offline_service split_announcement_host) (traced split_announcement_host)
       (traced_report quiet) ((), [])
     = (Inr (Integer 532), ((),
         [Exec ''uname -s'' [], Exec ''eval echo ~'' [],
          Exec ''mkdir -p "/home/u/.theia-example-1.38.0-remote";echo "Success"'' [],
          Exec ''cd "/home/u/.theia-example-1.38.0-remote/node-v16.14.0-linux-x64";echo "Success"'' [],
          Exec ''cd "/home/u/.theia-example-1.38.0-remote/lib";echo "Success"'' [],
          ExecPartial ''cd "/home/u/.theia-example-1.38.0-remote";/home/u/.theia-example-1.38.0-remote/node-v16.14.0-linux-x64/bin/node''
            [''/home/u/.theia-example-1.38.0-remote/lib/backend/main.js'', ''--port=0'', ''--remote'']])) \<and>
   localAddressRegex_exec (concat (map stdout_of [c. Chunk c \<leftarrow> concat split_announcement])) = Some ''53211'' \<and>
   Number ''53211'' = Integer 53211\<close>
proof -
  have w: \<open>RemoteSetupService_setup (traced_service offline_service provisioned_windows) (traced provisioned_windows)
       (traced_report quiet) ((), [])
     = (Inl (Error (''Failed to create directory: mkdir : An item with the specified name '' @
                     windows_app_dir @ '' already exists.'')),
        ((), [Exec ''uname -s'' [], Exec ''echo $HOME'' [],
              Exec (''mkdir "'' @ windows_app_dir @ ''";echo "Success"'') []]))\<close>
    by (simp add: RemoteSetupService_setup_def await_def reporting_def windows_detect windows_home_found
        windows_app windows_mkdir Let_def)
  have e: "exec split_announcement_host = exec provisioned_linux"
    by (simp add: split_announcement_host_def)
  note p = linux_probes [OF e]
  from provisioned_run_transfers_nothing(1) [OF p(1) p(2) linux_paths(1) p(3) linux_paths(2) p(4)
      p(5) [folded linux_paths(3)]]
  have l: \<open>RemoteSetupService_setup (traced_service offline_service split_announcement_host)
       (traced split_announcement_host) (traced_report quiet) ((), [])
     = (Inr (Integer 532), ((),
         [Exec ''uname -s'' [], Exec ''eval echo ~'' [],
          Exec ''mkdir -p "/home/u/.theia-example-1.38.0-remote";echo "Success"'' [],
          Exec ''cd "/home/u/.theia-example-1.38.0-remote/node-v16.14.0-linux-x64";echo "Success"'' [],
          Exec ''cd "/home/u/.theia-example-1.38.0-remote/lib";echo "Success"'' [],
          ExecPartial ''cd "/home/u/.theia-example-1.38.0-remote";/home/u/.theia-example-1.38.0-remote/node-v16.14.0-linux-x64/bin/node''
            [''/home/u/.theia-example-1.38.0-remote/lib/backend/main.js'', ''--port=0'', ''--remote'']]))\<close>
    by (simp add: split_announcement_launch traced_report_def quiet_def)
  have n: "Number ''53211'' = Integer 53211"
    by (simp add: Number_def nearest_double_def decimal_def)
  from windows_directories_exist w l split_announcement_port n show ?thesis by blast
qed

subsection \<open>The router stack and the live sessions\<close>

lemma splice_loop_finds:
  assumes "\<forall>x \<in> set xs. position x = None" and "position s = Some index" and "length xs < n"
  shows "splice_loop position (pre @ xs @ s # ys) (length pre) n = Some (length pre + length xs, index)"
  using assms
proof (induction xs arbitrary: pre n)
  case Nil
  then obtain n' where "n = Suc n'" by (cases n) auto
  with Nil show ?case by simp
next
  case (Cons x xs)
  then obtain n' where n: "n = Suc n'" "length xs < n'" by (cases n) auto
  have "splice_loop position ((pre @ [x]) @ xs @ s # ys) (length (pre @ [x])) n'
      = Some (length (pre @ [x]) + length xs, index)"
    using Cons.prems n by (intro Cons.IH) auto
  moreover have "(pre @ x # xs @ s # ys) ! length pre = x" by simp
  ultimately show ?case using Cons.prems(1) n by simp
qed

lemma spliceRouter_inserts:
  assumes "\<forall>x \<in> set xs. position x = None" and "position s = Some index" and "ys \<noteq> []"
  shows "spliceRouter ((xs @ s # ys) @ [router]) position =
     (take (length xs + index + 1) (xs @ s # ys) @ [router] @ drop (length xs + index + 1) (xs @ s # ys),
      RemoveLayer router)"
proof -
  have "length xs < length (xs @ s # ys) - 1" using assms(3) by (cases ys) auto
  with splice_loop_finds [OF assms(1,2), of "length (xs @ s # ys) - 1" "[]" ys]
  have "splice_loop position (xs @ s # ys) 0 (length (xs @ s # ys) - 1) = Some (length xs, index)"
    by simp
  then show ?thesis
    unfolding spliceRouter_def by (simp add: butlast_append)
qed

lemma serves_static_split:
  assumes "serves_static base"
  obtains xs s ys where "base = xs @ s # ys" "ys \<noteq> []" "layer_name s = ''serveStatic''"
    "\<forall>x \<in> set xs. layer_name x \<noteq> ''serveStatic''" "before_static base = xs @ [s]" "after_static base = ys"
    "list_all is_middleware base"
proof -
  let ?P = "\<lambda>layer. layer_name layer \<noteq> ''serveStatic''"
  from assms have ex: "\<exists>l \<in> set (butlast base). layer_name l = ''serveStatic''"
    and mw: "list_all is_middleware base"
    by (auto simp: serves_static_def static_found_def list_ex_iff)
  then have "\<exists>l \<in> set base. \<not> ?P l" by (auto dest: in_set_butlastD)
  then have "dropWhile ?P base \<noteq> []" by (auto simp: dropWhile_eq_Nil_conv)
  then obtain s ys where d: "dropWhile ?P base = s # ys" by (cases "dropWhile ?P base") auto
  then have s: "layer_name s = ''serveStatic''" using hd_dropWhile [of ?P base] by auto
  have b: "base = takeWhile ?P base @ s # ys" using d takeWhile_dropWhile_id [of ?P base] by simp
  have "ys \<noteq> []"
  proof
    assume "ys = []"
    with b have "butlast base = takeWhile ?P base" by (metis butlast_snoc)
    with ex show False by (auto dest: set_takeWhileD)
  qed
  moreover have "\<forall>x \<in> set (takeWhile ?P base). layer_name x \<noteq> ''serveStatic''"
    by (auto dest: set_takeWhileD)
  ultimately show ?thesis
    using that [of "takeWhile ?P base" s ys] b d s mw
    by (simp add: before_static_def after_static_def)
qed

lemma splice_loop_none:
  "\<forall>k<n. position (stack ! (i + k)) = None \<Longrightarrow> splice_loop position stack i n = None"
proof (induction n arbitrary: i)
  case 0
  then show ?case by simp
next
  case (Suc n)
  from Suc.prems have "position (stack ! i) = None" by (metis add.right_neutral zero_less_Suc)
  moreover have "\<forall>k<n. position (stack ! (Suc i + k)) = None"
    using Suc.prems by (metis Suc_less_eq add_Suc_right add_Suc)
  ultimately show ?case using Suc.IH [of "Suc i"] by simp
qed

lemma spliceRouter_not_found:
  assumes "\<not> static_found base"
  shows "spliceRouter (base @ [router]) (\<lambda>router. if layer_name router = ''serveStatic'' then Some index else None)
     = (base, Disposable_NULL)"
proof -
  let ?pos = "\<lambda>router. if layer_name router = ''serveStatic'' then Some index else None"
  have "?pos (base ! (0 + k)) = None" if "k < length base - 1" for k
  proof -
    from that have "base ! k = butlast base ! k" by (simp add: nth_butlast)
    moreover from that have "butlast base ! k \<in> set (butlast base)" by simp
    ultimately show ?thesis using assms by (auto simp: static_found_def list_ex_iff)
  qed
  then have "splice_loop ?pos base 0 (length base - 1) = None"
    by (intro splice_loop_none) blast
  then show ?thesis by (simp add: spliceRouter_def)
qed

lemma static_found_serves: "list_all is_middleware base \<Longrightarrow> static_found base \<Longrightarrow> serves_static base"
  by (simp add: serves_static_def)

lemma configure_layout:
  assumes "serves_static base"
  shows "configure base = before_static base @ [statusLayer] @ after_static base"
proof -
  from assms obtain xs s ys where b: "base = xs @ s # ys" "ys \<noteq> []" "layer_name s = ''serveStatic''"
    "\<forall>x \<in> set xs. layer_name x \<noteq> ''serveStatic''" "before_static base = xs @ [s]" "after_static base = ys"
    by (rule serves_static_split)
  let ?pos = "\<lambda>router. if layer_name router = ''serveStatic'' then Some (0::nat) else None"
  have "spliceRouter ((xs @ s # ys) @ [statusLayer]) ?pos =
     (take (length xs + 0 + 1) (xs @ s # ys) @ [statusLayer] @ drop (length xs + 0 + 1) (xs @ s # ys),
      RemoveLayer statusLayer)"
    using b by (intro spliceRouter_inserts) auto
  with b show ?thesis by (simp add: configure_def)
qed

lemma setupProxyRouter_layout:
  assumes "serves_static base"
  shows "setupProxyRouter remote port (before_static base @ [statusLayer] @ rest) =
     (before_static base @ [statusLayer] @ [proxyLayer remote port] @ rest, RemoveLayer (proxyLayer remote port))"
proof -
  from assms obtain xs s ys where b: "base = xs @ s # ys" "ys \<noteq> []" "layer_name s = ''serveStatic''"
    "\<forall>x \<in> set xs. layer_name x \<noteq> ''serveStatic''" "before_static base = xs @ [s]" "after_static base = ys"
    by (rule serves_static_split)
  let ?pos = "\<lambda>router. if layer_name router = ''serveStatic'' then Some (1::nat) else None"
  have "spliceRouter ((xs @ s # (statusLayer # rest)) @ [proxyLayer remote port]) ?pos =
     (take (length xs + 1 + 1) (xs @ s # (statusLayer # rest)) @ [proxyLayer remote port] @
        drop (length xs + 1 + 1) (xs @ s # (statusLayer # rest)),
      RemoveLayer (proxyLayer remote port))"
    using b by (intro spliceRouter_inserts) auto
  with b show ?thesis by (simp add: setupProxyRouter_def)
qed

lemma proxies_Cons [simp]: "proxies ((r, p) # ss) = proxyLayer r p # proxies ss"
  by (simp add: proxies_def)

lemma proxies_Nil [simp]: "proxies [] = []"
  by (simp add: proxies_def)

lemma session_ids_Cons [simp]: "session_ids ((r, p) # ss) = remote_id r # session_ids ss"
  by (simp add: session_ids_def)

lemma session_ids_Nil [simp]: "session_ids [] = []"
  by (simp add: session_ids_def)

lemma in_session_ids: "(r, p) \<in> set ss \<Longrightarrow> remote_id r \<in> set (session_ids ss)"
  by (force simp: session_ids_def)

lemma proxyLayer_eq: "proxyLayer r p = proxyLayer r' p' \<longleftrightarrow> remote_id r = remote_id r' \<and> p = p'"
  by (auto simp: proxyLayer_def)

lemma proxyLayer_in_proxies:
  "proxyLayer r p \<in> set (proxies ss) \<longleftrightarrow> (\<exists>r'. (r', p) \<in> set ss \<and> remote_id r' = remote_id r)"
  by (induction ss) (auto simp: proxyLayer_eq)

lemma session_ids_remove1: "set (session_ids (remove1 x ss)) \<subseteq> set (session_ids ss)"
  using set_remove1_subset [of x ss] by (auto simp: session_ids_def)

lemma remove_session:
  assumes "distinct (session_ids ss)" and "distinct (map snd ss)" and "(r, p) \<in> set ss"
  shows "remove1 (proxyLayer r p) (proxies ss) = proxies (remove1 (r, p) ss) \<and>
    map_of (map (\<lambda>(remote, port). (remote_id remote, remote)) (remove1 (r, p) ss)) =
      (map_of (map (\<lambda>(remote, port). (remote_id remote, remote)) ss))(remote_id r := None) \<and>
    set (map snd (remove1 (r, p) ss)) = set (map snd ss) - {p} \<and>
    distinct (session_ids (remove1 (r, p) ss)) \<and> distinct (map snd (remove1 (r, p) ss)) \<and>
    remote_id r \<notin> set (session_ids (remove1 (r, p) ss)) \<and>
    set (remove1 (r, p) ss) = set ss - {(r, p)}"
  using assms
proof (induction ss)
  case Nil
  then show ?case by simp
next
  case (Cons x ss)
  obtain r' p' where x: "x = (r', p')" by (cases x)
  show ?case
  proof (cases "x = (r, p)")
    case True
    with Cons.prems x have "remote_id r \<notin> set (session_ids ss)" "p \<notin> set (map snd ss)" "(r, p) \<notin> set ss"
      by (auto dest: in_session_ids)
    moreover have "map_of (map (\<lambda>(remote, port). (remote_id remote, remote)) ss) (remote_id r) = None"
      using \<open>remote_id r \<notin> set (session_ids ss)\<close>
      by (simp add: map_of_eq_None_iff session_ids_def image_image case_prod_unfold)
    ultimately show ?thesis using True Cons.prems x
      by (auto simp: fun_upd_idem)
  next
    case False
    with Cons.prems x have in_ss: "(r, p) \<in> set ss" by auto
    with Cons.prems x have ne: "remote_id r' \<noteq> remote_id r" "p' \<noteq> p"
      by (auto dest: in_session_ids) (metis (no_types) image_eqI snd_conv)
    have d: "distinct (session_ids ss)" "distinct (map snd ss)" using Cons.prems x by auto
    note ih = Cons.IH [OF d in_ss]
    have r1: "remove1 (r, p) ((r', p') # ss) = (r', p') # remove1 (r, p) ss" using False x by auto
    have fresh: "remote_id r' \<notin> set (session_ids (remove1 (r, p) ss))" "p' \<notin> set (map snd (remove1 (r, p) ss))"
      using Cons.prems x session_ids_remove1 [of "(r, p)" ss] ih by auto
    show ?thesis
      unfolding x r1
    proof (intro conjI)
      show "remove1 (proxyLayer r p) (proxies ((r', p') # ss)) = proxies ((r', p') # remove1 (r, p) ss)"
        using ih ne by (simp add: proxyLayer_eq)
      show "map_of (map (\<lambda>(remote, port). (remote_id remote, remote)) ((r', p') # remove1 (r, p) ss)) =
          (map_of (map (\<lambda>(remote, port). (remote_id remote, remote)) ((r', p') # ss)))(remote_id r := None)"
        using ih ne by (auto simp: fun_eq_iff)
      show "set (map snd ((r', p') # remove1 (r, p) ss)) = set (map snd ((r', p') # ss)) - {p}"
        using ih ne by (simp only: list.map list.set snd_conv) auto
      show "distinct (session_ids ((r', p') # remove1 (r, p) ss))"
        using ih fresh by simp
      show "distinct (map snd ((r', p') # remove1 (r, p) ss))"
        using ih fresh by simp
      show "remote_id r \<notin> set (session_ids ((r', p') # remove1 (r, p) ss))"
        using ih ne by simp
      show "set ((r', p') # remove1 (r, p) ss) = set ((r', p') # ss) - {(r, p)}"
        using ih False x by auto
    qed
  qed
qed


lemma before_static_subset: "set (before_static base) \<subseteq> set base"
  unfolding before_static_def
  by (auto dest: set_takeWhileD in_set_takeD set_dropWhileD)

lemma proxy_not_before_static:
  assumes "serves_static base"
  shows "proxyLayer r p \<notin> set (before_static base)"
proof
  assume "proxyLayer r p \<in> set (before_static base)"
  with before_static_subset have "proxyLayer r p \<in> set base" by blast
  moreover from assms have "list_all is_middleware base" by (simp add: serves_static_def)
  ultimately have "is_middleware (proxyLayer r p)" by (simp add: list_all_iff)
  then show False by (simp add: is_middleware_def proxyLayer_def)
qed

lemma dispose_proxy_in_stack:
  assumes "serves_static base" and "(r, p) \<in> set ss"
  shows "dispose (RemoveLayer (proxyLayer r p))
      (before_static base @ [statusLayer] @ proxies ss @ after_static base) =
    before_static base @ [statusLayer] @ remove1 (proxyLayer r p) (proxies ss) @ after_static base"
proof -
  have in_p: "proxyLayer r p \<in> set (proxies ss)"
    using assms(2) by (auto simp: proxyLayer_in_proxies)
  have ne: "proxyLayer r p \<noteq> statusLayer"
    by (simp add: proxyLayer_def statusLayer_def)
  from in_p ne proxy_not_before_static [OF assms(1), of r p] show ?thesis
    by (simp add: dispose_def remove1_append)
qed

lemma configure_stack_of:
  assumes "list_all is_middleware base"
  shows "configure base = stack_of base []"
proof (cases "static_found base")
  case True
  with assms have "serves_static base" by (rule static_found_serves)
  with True show ?thesis by (simp add: configure_layout stack_of_def)
next
  case False
  then show ?thesis by (simp add: configure_def spliceRouter_not_found stack_of_def)
qed

lemma setupProxyRouter_stack_of:
  assumes "list_all is_middleware base"
  shows "setupProxyRouter remote port (stack_of base ss) =
     (stack_of base ((remote, port) # ss), disposable_of base remote port)"
proof (cases "static_found base")
  case True
  with assms have "serves_static base" by (rule static_found_serves)
  from setupProxyRouter_layout [OF this, of remote port "proxies ss @ after_static base"] True
  show ?thesis by (simp add: stack_of_def disposable_of_def)
next
  case False
  then show ?thesis
    by (simp add: setupProxyRouter_def spliceRouter_not_found stack_of_def disposable_of_def)
qed

lemma dispose_stack_of:
  assumes "list_all is_middleware base" and "distinct (session_ids ss)" and "distinct (map snd ss)"
    and "(r, p) \<in> set ss"
  shows "dispose (disposable_of base r p) (stack_of base ss) = stack_of base (remove1 (r, p) ss)"
proof (cases "static_found base")
  case True
  with assms(1) have "serves_static base" by (rule static_found_serves)
  from dispose_proxy_in_stack [OF this assms(4)] remove_session [OF assms(2,3,4)] True
  show ?thesis by (simp add: stack_of_def disposable_of_def)
next
  case False
  then show ?thesis by (simp add: stack_of_def disposable_of_def dispose_def)
qed

lemma reachable_layout:
  assumes "list_all is_middleware base" and "reachable base b"
  shows "\<exists>sessions. live_layout base sessions b"
  using assms(2)
proof (induction rule: reachable.induct)
  case start
  have "live_layout base [] (started base)"
    using configure_stack_of [OF assms(1)] by (simp add: live_layout_def started_def)
  then show ?case ..
next
  case (establish b remote port)
  then obtain ss where l: "live_layout base ss b" by blast
  have fresh_id: "remote_id remote \<notin> set (session_ids ss)"
  proof
    assume "remote_id remote \<in> set (session_ids ss)"
    then obtain r p where "(r, p) \<in> set ss" "remote_id r = remote_id remote"
      by (auto simp: session_ids_def)
    with l have "onDidDisconnect b (remote_id remote) \<noteq> []"
      by (auto simp: live_layout_def)
    with establish.hyps show False by simp
  qed
  have fresh_port: "port \<notin> set (map snd ss)"
    using l establish.hyps by (simp add: live_layout_def)
  have stack: "setupProxyRouter remote port (routerStack b) =
      (stack_of base ((remote, port) # ss), disposable_of base remote port)"
    using setupProxyRouter_stack_of [OF assms(1), of remote port ss] l
    by (simp add: live_layout_def)
  have others: "onDidDisconnect b (remote_id r) =
      [DisposeClient, Teardown p (disposable_of base r p) (remote_id r)] \<and>
      remote_id r \<noteq> remote_id remote" if "(r, p) \<in> set ss" for r p
    using that l fresh_id by (auto simp: live_layout_def dest: in_session_ids)
  have "live_layout base ((remote, port) # ss) (snd (establishConnection remote port b))"
    unfolding live_layout_def
  proof (intro conjI)
    show "routerStack (snd (establishConnection remote port b)) = stack_of base ((remote, port) # ss)"
      using stack by (simp add: establishConnection_def Let_def)
    show "distinct (session_ids ((remote, port) # ss))"
      using l fresh_id by (simp add: live_layout_def)
    show "distinct (map snd ((remote, port) # ss))"
      using l fresh_port by (simp add: live_layout_def)
    show "connections (snd (establishConnection remote port b)) =
        map_of (map (\<lambda>(remote, port). (remote_id remote, remote)) ((remote, port) # ss))"
      using l stack by (simp add: establishConnection_def Let_def register_def live_layout_def)
    show "listening (snd (establishConnection remote port b)) = set (map snd ((remote, port) # ss))"
      using l stack by (simp add: establishConnection_def Let_def live_layout_def)
    show "\<forall>(r, p) \<in> set ((remote, port) # ss).
        onDidDisconnect (snd (establishConnection remote port b)) (remote_id r) =
          [DisposeClient, Teardown p (disposable_of base r p) (remote_id r)]"
      using stack establish.hyps others by (auto simp: establishConnection_def Let_def)
  qed
  then show ?case ..
next
  case (disconnect b rid)
  then obtain ss where l: "live_layout base ss b" by blast
  from disconnect.hyps l obtain r where "map_of (map (\<lambda>(remote, port). (remote_id remote, remote)) ss) rid = Some r"
    by (auto simp: live_layout_def)
  then have "(rid, r) \<in> set (map (\<lambda>(remote, port). (remote_id remote, remote)) ss)"
    by (rule map_of_SomeD)
  then obtain p where rp: "(r, p) \<in> set ss" "remote_id r = rid" by auto
  from l have d: "distinct (session_ids ss)" "distinct (map snd ss)" by (simp_all add: live_layout_def)
  note rm = remove_session [OF d rp(1)]
  have rm_ports: "set (map snd (remove1 (r, p) ss)) = set (map snd ss) - {p}"
    using rm by blast
  have lis: "onDidDisconnect b rid = [DisposeClient, Teardown p (disposable_of base r p) rid]"
    using l rp by (auto simp: live_layout_def)
  have f: "fire rid b = b\<lparr>destroyed := insert rid (destroyed b),
      listening := listening b - {p},
      routerStack := dispose (disposable_of base r p) (routerStack b),
      connections := registration_dispose rid (connections b)\<rparr>"
    by (simp add: fire_def lis)
  have "live_layout base (remove1 (r, p) ss) (fire rid b)"
    unfolding live_layout_def
  proof (intro conjI)
    show "routerStack (fire rid b) = stack_of base (remove1 (r, p) ss)"
      using l dispose_stack_of [OF assms(1) d rp(1)] by (simp add: f live_layout_def)
    show "distinct (session_ids (remove1 (r, p) ss))" using rm by simp
    show "distinct (map snd (remove1 (r, p) ss))" using rm by simp
    show "connections (fire rid b) =
        map_of (map (\<lambda>(remote, port). (remote_id remote, remote)) (remove1 (r, p) ss))"
      using l rm rp by (simp add: f live_layout_def registration_dispose_def)
    show "listening (fire rid b) = set (map snd (remove1 (r, p) ss))"
      using l by (simp only: rm_ports) (simp add: f live_layout_def)
    show "\<forall>(r', p') \<in> set (remove1 (r, p) ss).
        onDidDisconnect (fire rid b) (remote_id r') =
          [DisposeClient, Teardown p' (disposable_of base r' p') (remote_id r')]"
      using l rm by (auto simp: f live_layout_def)
  qed
  then show ?case ..
qed

lemma dispatch_passed:
  "list_all (layer_passes ends req) xs \<Longrightarrow> dispatch ends c (xs @ ys) req = dispatch ends c ys req"
  by (induction xs) (auto simp: layer_passes_def split: handler.splits)

lemma dispatch_middleware_not_forwarded:
  "list_all is_middleware xs \<Longrightarrow> dispatch ends c xs req \<noteq> Forwarded port"
  by (induction xs) (auto simp: is_middleware_def split: handler.splits)

lemma dispatch_middleware_append:
  "list_all is_middleware xs \<Longrightarrow> dispatch ends c (xs @ ys) req = Forwarded port
     \<Longrightarrow> dispatch ends c ys req = Forwarded port"
  by (induction xs) (auto simp: is_middleware_def split: handler.splits if_splits)

lemma dispatch_proxies:
  "dispatch ends c (proxies ss @ rest) req =
     (case cookies_remoteId req of
        None \<Rightarrow> dispatch ends c rest req
      | Some rid \<Rightarrow>
          (case map_of (map (\<lambda>(remote, port). (remote_id remote, port)) ss) rid of
             Some port \<Rightarrow> Forwarded port
           | None \<Rightarrow> dispatch ends c rest req))"
proof (induction ss)
  case Nil
  then show ?case by (simp split: option.splits)
next
  case (Cons x ss)
  obtain r p where x: "x = (r, p)" by (cases x)
  with Cons show ?case
    by (auto simp: proxyLayer_def proxy_filter_def split: option.splits)
qed

lemma map_of_ports:
  "map_of (map (\<lambda>(remote, port). (remote_id remote, port)) ss) rid = Some p \<longleftrightarrow>
     (\<exists>r. map_of (map (\<lambda>(remote, port). (remote_id remote, remote)) ss) rid = Some r \<and>
          map_of (map (\<lambda>(remote, port). (remote_id remote, (remote, port))) ss) rid = Some (r, p))"
  by (induction ss) auto

lemma map_of_session:
  "map_of (map (\<lambda>(remote, port). (remote_id remote, (remote, port))) ss) rid = Some (r, p)
     \<Longrightarrow> (r, p) \<in> set ss \<and> remote_id r = rid"
  by (induction ss) (auto split: if_splits)

lemma map_of_ports_None:
  "map_of (map (\<lambda>(remote, port). (remote_id remote, port)) ss) rid = None \<longleftrightarrow>
     map_of (map (\<lambda>(remote, port). (remote_id remote, remote)) ss) rid = None"
  by (induction ss) auto


lemma after_static_subset: "set (after_static base) \<subseteq> set base"
  unfolding after_static_def by (auto dest: in_set_dropD set_dropWhileD)

lemma middleware_parts:
  assumes "list_all is_middleware base"
  shows "list_all is_middleware (before_static base)" "list_all is_middleware (after_static base)"
  using assms before_static_subset [of base] after_static_subset [of base]
  by (auto simp: list_all_iff)

lemma live_session:
  assumes "live_layout base ss b"
    and "map_of (map (\<lambda>(remote, port). (remote_id remote, port)) ss) rid = Some port"
  shows "\<exists>remote. remote_id remote = rid \<and> connections b rid = Some remote \<and> port \<in> listening b \<and>
     onDidDisconnect b rid = [DisposeClient, Teardown port (disposable_of base remote port) rid]"
proof -
  from assms(2) obtain r where r: "map_of (map (\<lambda>(remote, port). (remote_id remote, remote)) ss) rid = Some r"
    "map_of (map (\<lambda>(remote, port). (remote_id remote, (remote, port))) ss) rid = Some (r, port)"
    unfolding map_of_ports by blast
  from map_of_session [OF r(2)] have in_ss: "(r, port) \<in> set ss" "remote_id r = rid" by simp_all
  then have "port \<in> set (map snd ss)" by force
  with assms(1) r(1) in_ss show ?thesis
    by (auto simp: live_layout_def)
qed

lemma forwarded_only_live:
  assumes "list_all is_middleware base" and "live_layout base ss b"
    and "dispatch ends (connections b) (routerStack b) req = Forwarded port"
  shows "\<not> is_status_request req \<and>
     (\<exists>remote. cookies_remoteId req = Some (remote_id remote) \<and>
        connections b (remote_id remote) = Some remote \<and> port \<in> listening b \<and>
        Teardown port (disposable_of base remote port) (remote_id remote)
          \<in> set (onDidDisconnect b (remote_id remote)))"
proof (cases "static_found base")
  case False
  with assms(2) have "routerStack b = base" by (simp add: live_layout_def stack_of_def)
  with assms(1,3) dispatch_middleware_not_forwarded show ?thesis by metis
next
  case True
  with assms(2) have st: "routerStack b = before_static base @ ([statusLayer] @ proxies ss @ after_static base)"
    by (simp add: live_layout_def stack_of_def)
  note mw = middleware_parts [OF assms(1)]
  from assms(3) have 1: "dispatch ends (connections b) ([statusLayer] @ proxies ss @ after_static base) req
      = Forwarded port"
    unfolding st by (rule dispatch_middleware_append [OF mw(1)])
  then have ns: "\<not> is_status_request req"
    by (auto simp: statusLayer_def split: if_splits)
  with 1 have 2: "dispatch ends (connections b) (proxies ss @ after_static base) req = Forwarded port"
    by (simp add: statusLayer_def)
  have nf: "dispatch ends (connections b) (after_static base) req \<noteq> Forwarded port"
    by (rule dispatch_middleware_not_forwarded [OF mw(2)])
  from 2 nf obtain rid where rid: "cookies_remoteId req = Some rid"
    "map_of (map (\<lambda>(remote, port). (remote_id remote, port)) ss) rid = Some port"
    unfolding dispatch_proxies by (auto split: option.splits)
  from live_session [OF assms(2) rid(2)] rid(1) ns show ?thesis by auto
qed

lemma reaches_handlers:
  assumes "list_all is_middleware base" and "live_layout base ss b" and "static_found base"
    and "list_all (layer_passes ends req) (before_static base)"
  shows "if is_status_request req then
       dispatch ends (connections b) (routerStack b) req = Answered (statusHandler (connections b) req)
     else (case cookies_remoteId req of
        None \<Rightarrow> dispatch ends (connections b) (routerStack b) req
            = dispatch ends (connections b) (after_static base) req
      | Some rid \<Rightarrow>
          (case connections b rid of
             None \<Rightarrow> dispatch ends (connections b) (routerStack b) req
                 = dispatch ends (connections b) (after_static base) req
           | Some remote \<Rightarrow>
               (\<exists>port. dispatch ends (connections b) (routerStack b) req = Forwarded port \<and>
                  port \<in> listening b \<and>
                  Teardown port (disposable_of base remote port) rid \<in> set (onDidDisconnect b rid))))"
proof -
  from assms(2,3) have st: "routerStack b = before_static base @ ([statusLayer] @ proxies ss @ after_static base)"
    by (simp add: live_layout_def stack_of_def)
  have d: "dispatch ends (connections b) (routerStack b) req =
      dispatch ends (connections b) ([statusLayer] @ proxies ss @ after_static base) req"
    unfolding st by (rule dispatch_passed [OF assms(4)])
  show ?thesis
  proof (cases "is_status_request req")
    case True
    with d show ?thesis by (simp add: statusLayer_def)
  next
    case False
    with d have d': "dispatch ends (connections b) (routerStack b) req =
        dispatch ends (connections b) (proxies ss @ after_static base) req"
      by (simp add: statusLayer_def)
    have conn: "connections b = map_of (map (\<lambda>(remote, port). (remote_id remote, remote)) ss)"
      using assms(2) by (simp add: live_layout_def)
    show ?thesis
    proof (cases "cookies_remoteId req")
      case None
      with False d' show ?thesis by (simp add: dispatch_proxies)
    next
      case (Some rid)
      show ?thesis
      proof (cases "connections b rid")
        case None
        then have "map_of (map (\<lambda>(remote, port). (remote_id remote, port)) ss) rid = None"
          by (simp add: conn map_of_ports_None)
        with False Some None d' show ?thesis by (simp add: dispatch_proxies)
      next
        case (Some remote)
        then have "map_of (map (\<lambda>(remote, port). (remote_id remote, port)) ss) rid \<noteq> None"
          by (simp add: conn map_of_ports_None)
        then obtain port where port: "map_of (map (\<lambda>(remote, port). (remote_id remote, port)) ss) rid = Some port"
          by auto
        from live_session [OF assms(2) port] Some
        have "port \<in> listening b \<and>
            onDidDisconnect b rid = [DisposeClient, Teardown port (disposable_of base remote port) rid]"
          by auto
        moreover have "dispatch ends (connections b) (routerStack b) req = Forwarded port"
          using d' port \<open>cookies_remoteId req = Some rid\<close> by (simp add: dispatch_proxies)
        ultimately show ?thesis
          using False Some \<open>cookies_remoteId req = Some rid\<close> by auto
      qed
    qed
  qed
qed

lemma distinct_proxies: "distinct (session_ids ss) \<Longrightarrow> distinct (proxies ss)"
proof (induction ss)
  case Nil
  then show ?case by simp
next
  case (Cons x ss)
  obtain r p where x: "x = (r, p)" by (cases x)
  have "proxyLayer r p \<notin> set (proxies ss)"
  proof
    assume "proxyLayer r p \<in> set (proxies ss)"
    then obtain r' where "(r', p) \<in> set ss" "remote_id r' = remote_id r"
      by (auto simp: proxyLayer_in_proxies)
    then have "remote_id r \<in> set (session_ids ss)" by (metis in_session_ids)
    with Cons.prems x show False by simp
  qed
  with Cons x show ?case by simp
qed

lemma remove1_filter:
  assumes "distinct xs"
  shows "remove1 x xs = filter (\<lambda>y. y \<noteq> x) xs"
proof -
  have "filter (\<lambda>y. x \<noteq> y) xs = filter (\<lambda>y. y \<noteq> x) xs"
    by (rule filter_cong) auto
  with assms show ?thesis
    by (simp add: distinct_remove1_removeAll removeAll_filter_not_eq)
qed

lemma same_port_same_session:
  "distinct (map snd ss) \<Longrightarrow> (a, p) \<in> set ss \<Longrightarrow> (b, p) \<in> set ss \<Longrightarrow> a = b"
  by (induction ss) force+

lemma filter_middleware:
  assumes "list_all is_middleware xs"
  shows "filter (\<lambda>layer. layer \<noteq> proxyLayer r p) xs = xs"
proof -
  have "layer \<noteq> proxyLayer r p" if "layer \<in> set xs" for layer
    using that assms by (auto simp: list_all_iff is_middleware_def proxyLayer_def)
  then show ?thesis by (simp add: filter_id_conv)
qed

lemma stack_of_remove:
  assumes "list_all is_middleware base" and "distinct (session_ids ss)" and "distinct (map snd ss)"
    and "(r, p) \<in> set ss"
  shows "stack_of base (remove1 (r, p) ss) = filter (\<lambda>layer. layer \<noteq> proxyLayer r p) (stack_of base ss)"
proof (cases "static_found base")
  case False
  with assms(1) show ?thesis by (simp add: stack_of_def filter_middleware)
next
  case True
  note mw = middleware_parts [OF assms(1)]
  have "remove1 (proxyLayer r p) (proxies ss) = filter (\<lambda>layer. layer \<noteq> proxyLayer r p) (proxies ss)"
    using distinct_proxies [OF assms(2)] by (rule remove1_filter)
  with remove_session [OF assms(2,3,4)]
  have "proxies (remove1 (r, p) ss) = filter (\<lambda>layer. layer \<noteq> proxyLayer r p) (proxies ss)"
    by simp
  moreover have "statusLayer \<noteq> proxyLayer r p" by (simp add: statusLayer_def proxyLayer_def)
  ultimately show ?thesis
    using True mw by (simp add: stack_of_def filter_middleware)
qed

lemma two_sessions_reachable: "reachable example_base two_sessions"
  unfolding two_sessions_def
proof (rule reachable.establish)
  show "reachable example_base (snd (establishConnection session1 3001 (started example_base)))"
    by (rule reachable.establish [OF reachable.start]) (simp_all add: started_def)
  show "onDidDisconnect (snd (establishConnection session1 3001 (started example_base))) (remote_id session2) = []"
    by (simp add: establishConnection_def Let_def started_def session1_def session2_def split: prod.splits)
  show "3002 \<notin> listening (snd (establishConnection session1 3001 (started example_base)))"
    by (simp add: establishConnection_def Let_def started_def split: prod.splits)
qed

lemma two_sessions_stack:
  "routerStack two_sessions =
     [\<lparr>layer_name = ''query'', layer_handle = Middleware 0\<rparr>,
      \<lparr>layer_name = ''serveStatic'', layer_handle = Middleware 1\<rparr>,
      statusLayer, proxyLayer session2 3002, proxyLayer session1 3001,
      \<lparr>layer_name = ''router'', layer_handle = Middleware 2\<rparr>]"
  by (simp add: two_sessions_def establishConnection_def Let_def started_def configure_def
      setupProxyRouter_def spliceRouter_def example_base_def statusLayer_def proxyLayer_def
      session1_def session2_def)

lemma two_sessions_connections:
  "connections two_sessions = [''s1'' \<mapsto> session1, ''s2'' \<mapsto> session2]"
  by (simp add: two_sessions_def establishConnection_def Let_def started_def register_def
      session1_def session2_def split: prod.splits)

lemma example_base_middleware: "list_all is_middleware example_base"
  by (simp add: example_base_def is_middleware_def)

lemma two_sessions_listeners:
  "onDidDisconnect two_sessions ''s1'' = [DisposeClient, Teardown 3001 (RemoveLayer (proxyLayer session1 3001)) ''s1'']"
  by (simp add: two_sessions_def establishConnection_def Let_def started_def configure_def
      setupProxyRouter_def spliceRouter_def example_base_def statusLayer_def proxyLayer_def
      session1_def session2_def)

lemma two_sessions_listening: "listening two_sessions = {3001, 3002}"
  by (auto simp: two_sessions_def establishConnection_def Let_def started_def split: prod.splits)

lemma forwarded_passes:
  "list_all is_middleware xs \<Longrightarrow> dispatch ends c (xs @ ys) req = Forwarded port
     \<Longrightarrow> list_all (layer_passes ends req) xs"
  by (induction xs) (auto simp: is_middleware_def layer_passes_def split: handler.splits if_splits)

lemma forwarded_reached_handlers:
  assumes "list_all is_middleware base" and "live_layout base ss b"
    and "dispatch ends (connections b) (routerStack b) req = Forwarded port"
  shows "static_found base \<and> list_all (layer_passes ends req) (before_static base)"
proof (cases "static_found base")
  case False
  with assms(2) have "routerStack b = base" by (simp add: live_layout_def stack_of_def)
  with assms(1,3) dispatch_middleware_not_forwarded show ?thesis by metis
next
  case True
  with assms(2) have st: "routerStack b = before_static base @ ([statusLayer] @ proxies ss @ after_static base)"
    by (simp add: live_layout_def stack_of_def)
  from assms(3) have "list_all (layer_passes ends req) (before_static base)"
    unfolding st by (rule forwarded_passes [OF middleware_parts(1) [OF assms(1)]])
  with True show ?thesis by simp
qed

lemma session_port_unique:
  assumes "live_layout base ss b" and "connections b rid = Some remote"
    and "Teardown port d rid \<in> set (onDidDisconnect b rid)"
    and "Teardown port' d' rid \<in> set (onDidDisconnect b rid)"
  shows "port = port'"
proof -
  have conn: "connections b = map_of (map (\<lambda>(remote, port). (remote_id remote, remote)) ss)"
    using assms(1) by (simp add: live_layout_def)
  with assms(2) have "map_of (map (\<lambda>(remote, port). (remote_id remote, port)) ss) rid \<noteq> None"
    by (simp add: map_of_ports_None)
  then obtain p where "map_of (map (\<lambda>(remote, port). (remote_id remote, port)) ss) rid = Some p"
    by auto
  from live_session [OF assms(1) this] obtain r where
    "onDidDisconnect b rid = [DisposeClient, Teardown p (disposable_of base r p) rid]"
    by blast
  with assms(3,4) show ?thesis by simp
qed

text \<open>
  C5, as amended. In every state the backend can reach, on an application whose stack
  consists of layers of its own, and for every request. The request is forwarded to a
  port exactly when \<^verbatim>\<open>spliceRouter\<close> found its place on the stack of the application (a
  layer named \<^verbatim>\<open>serveStatic\<close> that is not the last one), the layers up to and including
  the static file handler pass the request on, the request is not one that the status
  route handles, and its \<^verbatim>\<open>remoteId\<close> cookie is the id of a live session whose proxy
  server listens on that port. Hence a request with no cookie, or with a cookie that
  matches no live session, is not forwarded, and a request of the status route is never
  forwarded. Where \<^verbatim>\<open>spliceRouter\<close> found its place and the layers up to the static file
  handler pass the request on, the request reaches the handlers of the contribution: a
  request of the status route (\<^verbatim>\<open>GET /remote/status\<close>, which Express matches for
  \<^verbatim>\<open>HEAD\<close> too, in any letter case and with a trailing slash) is answered locally by
  the status handler, a request whose cookie is the id of a live session is forwarded to
  the proxy port of that session, and every other request falls through to the layers
  after the handlers. The status handler answers \<^verbatim>\<open>{alive: true, name, type}\<close> when the
  cookie is non-empty and maps to a registered connection, and \<^verbatim>\<open>{alive: false}\<close>
  otherwise.
\<close>

theorem requests_routed_by_cookie:
  assumes "list_all is_middleware base" and "reachable base b"
  shows
   "(dispatch ends (connections b) (routerStack b) req = Forwarded port \<longleftrightarrow>
       static_found base \<and> list_all (layer_passes ends req) (before_static base) \<and>
       \<not> is_status_request req \<and>
       (\<exists>remote. cookies_remoteId req = Some (remote_id remote) \<and>
          connections b (remote_id remote) = Some remote \<and> port \<in> listening b \<and>
          Teardown port (disposable_of base remote port) (remote_id remote)
            \<in> set (onDidDisconnect b (remote_id remote)))) \<and>
    ((cookies_remoteId req = None \<or> (\<exists>rid. cookies_remoteId req = Some rid \<and> connections b rid = None)) \<longrightarrow>
       (\<forall>p. dispatch ends (connections b) (routerStack b) req \<noteq> Forwarded p)) \<and>
    (is_status_request req \<longrightarrow>
       (\<forall>p. dispatch ends (connections b) (routerStack b) req \<noteq> Forwarded p)) \<and>
    (static_found base \<and> list_all (layer_passes ends req) (before_static base) \<longrightarrow>
       (if is_status_request req then
          dispatch ends (connections b) (routerStack b) req = Answered (statusHandler (connections b) req)
        else (case cookies_remoteId req of
           None \<Rightarrow> dispatch ends (connections b) (routerStack b) req
               = dispatch ends (connections b) (after_static base) req
         | Some rid \<Rightarrow>
             (case connections b rid of
                None \<Rightarrow> dispatch ends (connections b) (routerStack b) req
                    = dispatch ends (connections b) (after_static base) req
              | Some remote \<Rightarrow>
                  (\<exists>p. dispatch ends (connections b) (routerStack b) req = Forwarded p \<and>
                     p \<in> listening b \<and>
                     Teardown p (disposable_of base remote p) rid \<in> set (onDidDisconnect b rid)))))) \<and>
    statusHandler (connections b) req =
      (case cookies_remoteId req of
         None \<Rightarrow> NotAlive
       | Some rid \<Rightarrow>
           if rid = [] then NotAlive
           else (case connections b rid of
                   Some remote \<Rightarrow> Alive (remote_name remote) (remote_type remote)
                 | None \<Rightarrow> NotAlive))"
proof -
  from reachable_layout [OF assms] obtain ss where l: "live_layout base ss b" by blast
  let ?d = "dispatch ends (connections b) (routerStack b) req"
  have 1: "\<not> is_status_request req \<and>
       (\<exists>remote. cookies_remoteId req = Some (remote_id remote) \<and>
          connections b (remote_id remote) = Some remote \<and> p \<in> listening b \<and>
          Teardown p (disposable_of base remote p) (remote_id remote)
            \<in> set (onDidDisconnect b (remote_id remote)))"
    if "?d = Forwarded p" for p
    using that by (rule forwarded_only_live [OF assms(1) l])
  have 3: "if is_status_request req then
          ?d = Answered (statusHandler (connections b) req)
        else (case cookies_remoteId req of
           None \<Rightarrow> ?d = dispatch ends (connections b) (after_static base) req
         | Some rid \<Rightarrow>
             (case connections b rid of
                None \<Rightarrow> ?d = dispatch ends (connections b) (after_static base) req
              | Some remote \<Rightarrow>
                  (\<exists>p. ?d = Forwarded p \<and>
                     p \<in> listening b \<and>
                     Teardown p (disposable_of base remote p) rid \<in> set (onDidDisconnect b rid))))"
    if "static_found base \<and> list_all (layer_passes ends req) (before_static base)"
    using that reaches_handlers [OF assms(1) l, of ends req] by blast
  have iff: "?d = Forwarded port \<longleftrightarrow>
       static_found base \<and> list_all (layer_passes ends req) (before_static base) \<and>
       \<not> is_status_request req \<and>
       (\<exists>remote. cookies_remoteId req = Some (remote_id remote) \<and>
          connections b (remote_id remote) = Some remote \<and> port \<in> listening b \<and>
          Teardown port (disposable_of base remote port) (remote_id remote)
            \<in> set (onDidDisconnect b (remote_id remote)))"
    (is "?lhs \<longleftrightarrow> ?rhs")
  proof
    assume ?lhs
    with 1 [of port] forwarded_reached_handlers [OF assms(1) l, of ends req port]
    show ?rhs by blast
  next
    assume r: ?rhs
    then obtain remote where remote: "cookies_remoteId req = Some (remote_id remote)"
      "connections b (remote_id remote) = Some remote"
      "Teardown port (disposable_of base remote port) (remote_id remote)
         \<in> set (onDidDisconnect b (remote_id remote))"
      by blast
    from r 3 remote(1,2) obtain p where p: "?d = Forwarded p"
      "Teardown p (disposable_of base remote p) (remote_id remote) \<in> set (onDidDisconnect b (remote_id remote))"
      by auto
    from session_port_unique [OF l remote(2) remote(3) p(2)] p(1) show ?lhs by simp
  qed
  have 2: "?d \<noteq> Forwarded p"
    if "cookies_remoteId req = None \<or> (\<exists>rid. cookies_remoteId req = Some rid \<and> connections b rid = None)"
    for p
  proof
    assume "?d = Forwarded p"
    from 1 [OF this] that show False by auto
  qed
  have 5: "?d \<noteq> Forwarded p" if "is_status_request req" for p
    using 1 [of p] that by blast
  have 4: "statusHandler (connections b) req =
      (case cookies_remoteId req of
         None \<Rightarrow> NotAlive
       | Some rid \<Rightarrow>
           if rid = [] then NotAlive
           else (case connections b rid of
                   Some remote \<Rightarrow> Alive (remote_name remote) (remote_type remote)
                 | None \<Rightarrow> NotAlive))"
    by (simp add: statusHandler_def getConnection_def split: option.splits)
  from iff 2 5 3 4 show ?thesis by blast
qed

theorem requests_routed_by_cookie_witness:
  "list_all is_middleware example_base \<and> reachable example_base two_sessions \<and>
   static_found example_base \<and>
   list_all (layer_passes static_files api_request) (before_static example_base) \<and>
   \<not> is_status_request api_request \<and>
   cookies_remoteId api_request = Some (remote_id session1) \<and>
   connections two_sessions (remote_id session1) = Some session1 \<and>
   3001 \<in> listening two_sessions \<and>
   Teardown 3001 (disposable_of example_base session1 3001) (remote_id session1)
     \<in> set (onDidDisconnect two_sessions (remote_id session1)) \<and>
   dispatch static_files (connections two_sessions) (routerStack two_sessions) api_request = Forwarded 3001 \<and>
   list_all (layer_passes static_files status_request) (before_static example_base) \<and>
   is_status_request status_request \<and>
   dispatch static_files (connections two_sessions) (routerStack two_sessions) status_request
     = Answered (Alive ''build-host'' ''SSH'') \<and>
   list_all (layer_passes static_files head_request) (before_static example_base) \<and>
   is_status_request head_request \<and>
   dispatch static_files (connections two_sessions) (routerStack two_sessions) head_request
     = Answered (Alive ''build-host'' ''SSH'')"
proof -
  note mw = example_base_middleware
  note re = two_sessions_reachable
  have found: "static_found example_base"
    by (simp add: static_found_def example_base_def)
  have before: "before_static example_base =
      [\<lparr>layer_name = ''query'', layer_handle = Middleware 0\<rparr>,
       \<lparr>layer_name = ''serveStatic'', layer_handle = Middleware 1\<rparr>]"
    by (simp add: before_static_def example_base_def)
  have pass_api: "list_all (layer_passes static_files api_request) (before_static example_base)"
    by (simp add: before layer_passes_def static_files_def api_request_def)
  have pass_status: "list_all (layer_passes static_files status_request) (before_static example_base)"
    by (simp add: before layer_passes_def static_files_def status_request_def)
  have pass_head: "list_all (layer_passes static_files head_request) (before_static example_base)"
    by (simp add: before layer_passes_def static_files_def head_request_def)
  have c1: "connections two_sessions (remote_id session1) = Some session1"
    by (simp add: two_sessions_connections session1_def)
  have api: "\<not> is_status_request api_request" "cookies_remoteId api_request = Some (remote_id session1)"
    by (simp_all add: is_status_request_def route_matches_path_def toLowerCase_def api_request_def session1_def)
  have st: "is_status_request status_request"
    by (simp add: is_status_request_def route_matches_path_def route_handles_method_def toLowerCase_def
        status_request_def)
  have hd: "is_status_request head_request"
    by (simp add: is_status_request_def route_matches_path_def route_handles_method_def toLowerCase_def
        head_request_def)
  have li: "3001 \<in> listening two_sessions"
    by (simp add: two_sessions_listening)
  have td: "Teardown 3001 (disposable_of example_base session1 3001) (remote_id session1)
      \<in> set (onDidDisconnect two_sessions (remote_id session1))"
    using two_sessions_listeners found by (simp add: disposable_of_def session1_def)
  have alive: "statusHandler (connections two_sessions) req = Alive ''build-host'' ''SSH''"
    if "cookies_remoteId req = Some ''s1''" for req
    using that by (simp add: statusHandler_def getConnection_def two_sessions_connections session1_def)
  from requests_routed_by_cookie [OF mw re, of static_files api_request 3001, THEN conjunct1]
    found pass_api api c1 li td
  have fw: "dispatch static_files (connections two_sessions) (routerStack two_sessions) api_request
      = Forwarded 3001" by blast
  from requests_routed_by_cookie [OF mw re, of static_files status_request 3001] found pass_status st
  have "dispatch static_files (connections two_sessions) (routerStack two_sessions) status_request
      = Answered (statusHandler (connections two_sessions) status_request)"
    by simp
  then have ans: "dispatch static_files (connections two_sessions) (routerStack two_sessions) status_request
      = Answered (Alive ''build-host'' ''SSH'')"
    by (simp add: alive status_request_def)
  from requests_routed_by_cookie [OF mw re, of static_files head_request 3001] found pass_head hd
  have "dispatch static_files (connections two_sessions) (routerStack two_sessions) head_request
      = Answered (statusHandler (connections two_sessions) head_request)"
    by simp
  then have ans_head: "dispatch static_files (connections two_sessions) (routerStack two_sessions) head_request
      = Answered (Alive ''build-host'' ''SSH'')"
    by (simp add: alive head_request_def)
  from mw re found pass_api api c1 li td fw pass_status st ans pass_head hd ans_head show ?thesis
    by simp
qed

text \<open>
  The claim as stated fails for a request that a layer before the proxy handler ends:
  \<^verbatim>\<open>spliceRouter\<close> puts the proxy handler after the layer named \<^verbatim>\<open>serveStatic\<close>, so a
  request for a static file is served locally although its cookie is the id of a live
  session.
\<close>

theorem static_file_not_forwarded_counterexample:
  "reachable example_base two_sessions \<and>
   connections two_sessions ''s1'' = Some session1 \<and>
   cookies_remoteId index_request = Some (remote_id session1) \<and>
   dispatch static_files (connections two_sessions) (routerStack two_sessions) index_request = HandledBy 1 \<and>
   HandledBy 1 \<noteq> Forwarded 3001"
  using two_sessions_reachable
  by (simp add: two_sessions_connections two_sessions_stack index_request_def session1_def static_files_def)

text \<open>
  C8. In every state the backend can reach, for every session in the registry: the
  disconnect event of its connection has the listener that \<^verbatim>\<open>establishConnection\<close>
  added, with the port of the session's proxy server and the disposable of its proxy
  handler. Firing the event closes that server, disposes the proxy handler (the router
  stack loses exactly that layer, the others keep their order) and removes the session
  from the registry, all in that one listener (the listener of the constructor destroys
  the client). Every other session keeps its registration, its listeners, its listening
  proxy server and its proxy handler.
\<close>

theorem disconnect_tears_down_own_resources:
  assumes "list_all is_middleware base" and "reachable base b" and "connections b rid = Some remote"
  shows "\<exists>port.
     onDidDisconnect b rid = [DisposeClient, Teardown port (disposable_of base remote port) rid] \<and>
     port \<in> listening b \<and>
     fire rid b = b\<lparr>destroyed := insert rid (destroyed b), listening := listening b - {port},
                    routerStack := dispose (disposable_of base remote port) (routerStack b),
                    connections := (connections b)(rid := None)\<rparr> \<and>
     routerStack (fire rid b) = filter (\<lambda>layer. layer \<noteq> proxyLayer remote port) (routerStack b) \<and>
     (static_found base \<longrightarrow> proxyLayer remote port \<in> set (routerStack b)) \<and>
     connections (fire rid b) rid = None \<and> port \<notin> listening (fire rid b) \<and>
     (\<forall>rid' remote'. rid' \<noteq> rid \<and> connections b rid' = Some remote' \<longrightarrow>
        connections (fire rid b) rid' = Some remote' \<and>
        onDidDisconnect (fire rid b) rid' = onDidDisconnect b rid' \<and>
        (\<exists>port'. Teardown port' (disposable_of base remote' port') rid' \<in> set (onDidDisconnect b rid') \<and>
                 port' \<in> listening b \<and> port' \<in> listening (fire rid b) \<and>
                 (proxyLayer remote' port' \<in> set (routerStack (fire rid b))
                    \<longleftrightarrow> proxyLayer remote' port' \<in> set (routerStack b))))"
proof -
  from reachable_layout [OF assms(1,2)] obtain ss where l: "live_layout base ss b" by blast
  then have conn: "connections b = map_of (map (\<lambda>(remote, port). (remote_id remote, remote)) ss)"
    and d: "distinct (session_ids ss)" "distinct (map snd ss)"
    and lst: "listening b = set (map snd ss)"
    and stk: "routerStack b = stack_of base ss"
    by (simp_all add: live_layout_def)
  have find: "\<exists>p. (r, p) \<in> set ss \<and> remote_id r = x" if "connections b x = Some r" for x r
  proof -
    from that have "(x, r) \<in> set (map (\<lambda>(remote, port). (remote_id remote, remote)) ss)"
      unfolding conn by (rule map_of_SomeD)
    then show ?thesis by auto
  qed
  from find [OF assms(3)] obtain port where rp: "(remote, port) \<in> set ss" "remote_id remote = rid"
    by blast
  have lis: "onDidDisconnect b rid = [DisposeClient, Teardown port (disposable_of base remote port) rid]"
    using l rp by (auto simp: live_layout_def)
  have port_in: "port \<in> listening b" using rp(1) lst by force
  have f: "fire rid b = b\<lparr>destroyed := insert rid (destroyed b), listening := listening b - {port},
                    routerStack := dispose (disposable_of base remote port) (routerStack b),
                    connections := (connections b)(rid := None)\<rparr>"
    by (simp add: fire_def lis registration_dispose_def)
  have stack: "routerStack (fire rid b) = filter (\<lambda>layer. layer \<noteq> proxyLayer remote port) (routerStack b)"
  proof -
    have "routerStack (fire rid b) = dispose (disposable_of base remote port) (routerStack b)"
      by (subst f) simp
    also have "\<dots> = dispose (disposable_of base remote port) (stack_of base ss)"
      by (simp only: stk)
    also have "\<dots> = stack_of base (remove1 (remote, port) ss)"
      by (rule dispose_stack_of [OF assms(1) d rp(1)])
    also have "\<dots> = filter (\<lambda>layer. layer \<noteq> proxyLayer remote port) (stack_of base ss)"
      by (rule stack_of_remove [OF assms(1) d rp(1)])
    finally show ?thesis by (simp only: stk)
  qed
  have present: "proxyLayer remote port \<in> set (routerStack b)" if "static_found base"
    using that rp(1) by (auto simp: stk stack_of_def proxyLayer_in_proxies)
  have others: "connections (fire rid b) rid' = Some remote' \<and>
        onDidDisconnect (fire rid b) rid' = onDidDisconnect b rid' \<and>
        (\<exists>port'. Teardown port' (disposable_of base remote' port') rid' \<in> set (onDidDisconnect b rid') \<and>
                 port' \<in> listening b \<and> port' \<in> listening (fire rid b) \<and>
                 (proxyLayer remote' port' \<in> set (routerStack (fire rid b))
                    \<longleftrightarrow> proxyLayer remote' port' \<in> set (routerStack b)))"
    if "rid' \<noteq> rid" "connections b rid' = Some remote'" for rid' remote'
  proof -
    from find [OF that(2)] obtain port' where rp': "(remote', port') \<in> set ss" "remote_id remote' = rid'"
      by blast
    have ne: "port' \<noteq> port"
    proof
      assume "port' = port"
      with rp' have "(remote', port) \<in> set ss" by simp
      from same_port_same_session [OF d(2) this rp(1)] have "remote' = remote" .
      with rp rp' that(1) show False by simp
    qed
    have "onDidDisconnect b rid' = [DisposeClient, Teardown port' (disposable_of base remote' port') rid']"
      using l rp' by (auto simp: live_layout_def)
    moreover have "port' \<in> listening b" using rp'(1) lst by force
    moreover have "proxyLayer remote' port' \<noteq> proxyLayer remote port"
      using ne by (simp add: proxyLayer_eq)
    moreover have "connections (fire rid b) rid' = Some remote'"
      using that by (simp add: f)
    moreover have "onDidDisconnect (fire rid b) rid' = onDidDisconnect b rid'"
      by (simp add: f)
    moreover have "port' \<in> listening (fire rid b)"
      using \<open>port' \<in> listening b\<close> ne by (simp add: f)
    moreover have "proxyLayer remote' port' \<in> set (routerStack (fire rid b))
        \<longleftrightarrow> proxyLayer remote' port' \<in> set (routerStack b)"
      using \<open>proxyLayer remote' port' \<noteq> proxyLayer remote port\<close> by (simp add: stack)
    ultimately show ?thesis by simp
  qed
  have gone: "connections (fire rid b) rid = None" "port \<notin> listening (fire rid b)"
    by (simp_all add: f)
  show ?thesis
  proof (intro exI [of _ port] conjI)
    show "onDidDisconnect b rid = [DisposeClient, Teardown port (disposable_of base remote port) rid]"
      by (rule lis)
    show "port \<in> listening b" by (rule port_in)
    show "fire rid b = b\<lparr>destroyed := insert rid (destroyed b), listening := listening b - {port},
                    routerStack := dispose (disposable_of base remote port) (routerStack b),
                    connections := (connections b)(rid := None)\<rparr>"
      by (rule f)
    show "routerStack (fire rid b) = filter (\<lambda>layer. layer \<noteq> proxyLayer remote port) (routerStack b)"
      by (rule stack)
    show "static_found base \<longrightarrow> proxyLayer remote port \<in> set (routerStack b)"
      using present by blast
    show "connections (fire rid b) rid = None" by (rule gone)
    show "port \<notin> listening (fire rid b)" by (rule gone)
    show "\<forall>rid' remote'. rid' \<noteq> rid \<and> connections b rid' = Some remote' \<longrightarrow>
        connections (fire rid b) rid' = Some remote' \<and>
        onDidDisconnect (fire rid b) rid' = onDidDisconnect b rid' \<and>
        (\<exists>port'. Teardown port' (disposable_of base remote' port') rid' \<in> set (onDidDisconnect b rid') \<and>
                 port' \<in> listening b \<and> port' \<in> listening (fire rid b) \<and>
                 (proxyLayer remote' port' \<in> set (routerStack (fire rid b))
                    \<longleftrightarrow> proxyLayer remote' port' \<in> set (routerStack b)))"
      using others by blast
  qed
qed

theorem disconnect_tears_down_own_resources_witness:
  "list_all is_middleware example_base \<and> reachable example_base two_sessions \<and>
   connections two_sessions ''s1'' = Some session1 \<and>
   routerStack (fire ''s1'' two_sessions) =
     [\<lparr>layer_name = ''query'', layer_handle = Middleware 0\<rparr>,
      \<lparr>layer_name = ''serveStatic'', layer_handle = Middleware 1\<rparr>,
      statusLayer, proxyLayer session2 3002,
      \<lparr>layer_name = ''router'', layer_handle = Middleware 2\<rparr>] \<and>
   listening (fire ''s1'' two_sessions) = {3002} \<and>
   connections (fire ''s1'' two_sessions) ''s1'' = None \<and>
   connections (fire ''s1'' two_sessions) ''s2'' = Some session2"
proof -
  note mw = example_base_middleware
  note re = two_sessions_reachable
  have c1: "connections two_sessions ''s1'' = Some session1"
    by (simp add: two_sessions_connections)
  have c2: "connections two_sessions ''s2'' = Some session2"
    by (simp add: two_sessions_connections)
  from disconnect_tears_down_own_resources [OF mw re c1] obtain port where
    lis: "onDidDisconnect two_sessions ''s1'' = [DisposeClient, Teardown port (disposable_of example_base session1 port) ''s1'']"
    and f: "fire ''s1'' two_sessions = two_sessions\<lparr>destroyed := insert ''s1'' (destroyed two_sessions),
        listening := listening two_sessions - {port},
        routerStack := dispose (disposable_of example_base session1 port) (routerStack two_sessions),
        connections := (connections two_sessions)(''s1'' := None)\<rparr>"
    and stack: "routerStack (fire ''s1'' two_sessions) =
        filter (\<lambda>layer. layer \<noteq> proxyLayer session1 port) (routerStack two_sessions)"
    and gone: "connections (fire ''s1'' two_sessions) ''s1'' = None"
    and others: "\<forall>rid' remote'. rid' \<noteq> ''s1'' \<and> connections two_sessions rid' = Some remote' \<longrightarrow>
        connections (fire ''s1'' two_sessions) rid' = Some remote' \<and>
        onDidDisconnect (fire ''s1'' two_sessions) rid' = onDidDisconnect two_sessions rid' \<and>
        (\<exists>port'. Teardown port' (disposable_of example_base remote' port') rid' \<in> set (onDidDisconnect two_sessions rid') \<and>
                 port' \<in> listening two_sessions \<and> port' \<in> listening (fire ''s1'' two_sessions) \<and>
                 (proxyLayer remote' port' \<in> set (routerStack (fire ''s1'' two_sessions))
                    \<longleftrightarrow> proxyLayer remote' port' \<in> set (routerStack two_sessions)))"
    by blast
  from lis have port: "port = 3001" by (simp add: two_sessions_listeners)
  have s: "routerStack (fire ''s1'' two_sessions) =
     [\<lparr>layer_name = ''query'', layer_handle = Middleware 0\<rparr>,
      \<lparr>layer_name = ''serveStatic'', layer_handle = Middleware 1\<rparr>,
      statusLayer, proxyLayer session2 3002,
      \<lparr>layer_name = ''router'', layer_handle = Middleware 2\<rparr>]"
    unfolding stack port two_sessions_stack
    by (simp add: proxyLayer_def statusLayer_def session1_def session2_def)
  have li: "listening (fire ''s1'' two_sessions) = {3002}"
    by (subst f) (auto simp: port two_sessions_listening)
  have "connections (fire ''s1'' two_sessions) ''s2'' = Some session2"
    using others c2 by simp
  with mw re c1 s li gone show ?thesis by simp
qed

end
